(* ===== verification/PyFloat.thy ===== *)
theory PyFloat
  imports Complex_Main "HOL-Library.Log_Nat"
begin

text \<open>
  Python's \<open>float\<close>: IEEE 754 binary64 with round-to-nearest, ties-to-even, as every
  quantity, price and percentage of the program is. A finite value is carried as the
  rational number it denotes; each operation computes the exact rational result and
  rounds it once with \<open>rnd64\<close>, which is what the hardware does. The infinities and
  \<open>NaN\<close> are values of their own, because the code's comparisons let them through or
  stop them. The two zeros are one value: the program never observes the sign of a zero
  (\<open>==\<close>, \<open><\<close>, and division, which raises for both, do not distinguish them).
  The theory holds the format, the operators (as instances of the syntactic type
  classes, so that the models read like the source) and the facts about rounding the
  components use: monotonicity, exactness on representable values, signs.
\<close>

subsection \<open>Powers of two, binary exponents and rounding\<close>

definition p2 :: "int \<Rightarrow> rat" where
  "p2 k = 2 powi k"

text \<open>The exponent \<open>k\<close> with \<open>2^k \<le> q < 2^(k+1)\<close>, for positive \<open>q\<close>.\<close>

definition ilog2 :: "rat \<Rightarrow> int" where
  "ilog2 q =
     (let (a, b) = quotient_of q;
          k = bitlen a - bitlen b
      in if p2 k \<le> q then k else k - 1)"

text \<open>Round to the nearest integer, ties to even.\<close>

definition rhe :: "rat \<Rightarrow> int" where
  "rhe q =
     (let f = \<lfloor>q\<rfloor>; d = q - of_int f
      in if d < 1 / 2 then f
         else if 1 / 2 < d then f + 1
         else if even f then f else f + 1)"

text \<open>The exponent of the last place: 53 significant bits, and \<open>-1074\<close> for subnormals.\<close>

definition ulp_exp :: "rat \<Rightarrow> int" where
  "ulp_exp q = max (ilog2 q - 52) (- 1074)"

definition rnd_pos :: "rat \<Rightarrow> rat" where
  "rnd_pos q = of_int (rhe (q / p2 (ulp_exp q))) * p2 (ulp_exp q)"

definition rnd_rat :: "rat \<Rightarrow> rat" where
  "rnd_rat q = (if q = 0 then 0 else if 0 < q then rnd_pos q else - rnd_pos (- q))"

datatype pyfloat = Fin rat | PInf | NInf | NaN

definition rnd64 :: "rat \<Rightarrow> pyfloat" where
  "rnd64 q =
     (let r = rnd_rat q
      in if r = 0 then Fin 0
         else if ilog2 \<bar>r\<bar> < 1024 then Fin r
         else if 0 < r then PInf else NInf)"

lemma p2_code [code]:
  "p2 k = (if 0 \<le> k then of_int (2 ^ nat k) else 1 / of_int (2 ^ nat (- k)))"
  by (simp add: p2_def power_int_def power_one_over inverse_eq_divide)

lemma p2_pos [simp]: "0 < p2 k"
  by (simp add: p2_def)

lemma p2_nonneg [simp]: "0 \<le> p2 k"
  by (simp add: p2_def)

lemma p2_neq0 [simp]: "p2 k \<noteq> 0"
  by (simp add: p2_def)

lemma p2_not_neg [simp]: "\<not> p2 k < 0" "\<not> p2 k \<le> 0"
  by (simp_all add: not_less not_le)

lemma p2_add: "p2 (a + b) = p2 a * p2 b"
  by (simp add: p2_def power_int_add)

lemma p2_diff: "p2 (a - b) = p2 a / p2 b"
  by (simp add: p2_def power_int_diff)

lemma p2_less_iff [simp]: "p2 a < p2 b \<longleftrightarrow> a < b"
proof -
  have "a < b \<Longrightarrow> p2 a < p2 b" for a b
    by (simp add: p2_def power_int_strict_increasing)
  then show ?thesis
    by (metis linorder_cases order_less_asym' order_less_irrefl)
qed

lemma p2_le_iff [simp]: "p2 a \<le> p2 b \<longleftrightarrow> a \<le> b"
  by (meson linorder_not_le p2_less_iff)

lemma p2_of_nat: "p2 (int n) = 2 ^ n"
  by (simp add: p2_def)

lemma p2_52: "p2 52 = 2 ^ 52" and p2_53: "p2 53 = 2 ^ 53"
  by (simp_all add: p2_def)

lemma p2_int_ex: "0 \<le> k \<Longrightarrow> \<exists>n::int. p2 k = of_int n"
  by (rule exI [of _ "2 ^ nat k"]) (simp add: p2_def power_int_def)

lemma ilog2_bounds:
  assumes "0 < q"
  shows "p2 (ilog2 q) \<le> q \<and> q < p2 (ilog2 q + 1)"
proof -
  obtain a b where ab: "quotient_of q = (a, b)" by force
  have b: "0 < b" using ab by (rule quotient_of_denom_pos)
  have q: "q = of_int a / of_int b" using ab by (rule quotient_of_div)
  have a: "0 < a" using assms b by (simp add: q zero_less_divide_iff)
  define la where "la = floorlog 2 (nat a)"
  define lb where "lb = floorlog 2 (nat b)"
  have la: "0 < la" "2 ^ (la - 1) \<le> nat a" "nat a < 2 ^ la"
    using a floorlog_bounds [of "nat a" 2]
    by (auto simp: la_def floorlog_eq_zero_iff intro: gr0I)
  have lb: "0 < lb" "2 ^ (lb - 1) \<le> nat b" "nat b < 2 ^ lb"
    using b floorlog_bounds [of "nat b" 2]
    by (auto simp: lb_def floorlog_eq_zero_iff intro: gr0I)
  have up: "(of_int c :: rat) < p2 (int n)" if "nat c < 2 ^ n" "0 < c" for c n
  proof -
    have "c < 2 ^ n" using that by (simp add: nat_less_iff)
    then have "(of_int c :: rat) < of_int (2 ^ n)" by (simp only: of_int_less_iff)
    then show ?thesis by (simp add: p2_of_nat)
  qed
  have lo: "p2 (int n) \<le> (of_int c :: rat)" if "2 ^ n \<le> nat c" "0 < c" for c n
  proof -
    have "2 ^ n \<le> c" using that by (simp add: le_nat_iff)
    then have "(of_int (2 ^ n) :: rat) \<le> of_int c" by (simp only: of_int_le_iff)
    then show ?thesis by (simp add: p2_of_nat)
  qed
  have A: "p2 (int la - 1) \<le> of_int a" "of_int a < p2 (int la)"
    using lo [of "la - 1" a] up [of a la] la a by (simp_all add: of_nat_diff)
  have B: "p2 (int lb - 1) \<le> of_int b" "of_int b < p2 (int lb)"
    using lo [of "lb - 1" b] up [of b lb] lb b by (simp_all add: of_nat_diff)
  define k where "k = int la - int lb"
  have "p2 (k - 1) = p2 (int la - 1) / p2 (int lb)"
    by (simp add: k_def algebra_simps flip: p2_diff)
  also have "\<dots> < of_int a / of_int b"
    using A B b by (intro frac_less2) auto
  finally have low: "p2 (k - 1) < q" by (simp add: q)
  have "q < p2 (int la) / p2 (int lb - 1)"
    unfolding q using A B a by (intro frac_less) auto
  also have "\<dots> = p2 (k + 1)"
    by (simp add: k_def algebra_simps flip: p2_diff)
  finally have upp: "q < p2 (k + 1)" .
  have "ilog2 q = (if p2 k \<le> q then k else k - 1)"
    by (simp add: ilog2_def ab k_def la_def lb_def bitlen_def)
  then show ?thesis using low upp by (auto simp: not_le)
qed

lemma ilog2_lower: "0 < q \<Longrightarrow> p2 (ilog2 q) \<le> q"
  and ilog2_upper: "0 < q \<Longrightarrow> q < p2 (ilog2 q + 1)"
  using ilog2_bounds by blast+

lemma ilog2_less_iff:
  assumes q: "0 < q"
  shows "ilog2 q < k \<longleftrightarrow> q < p2 k"
proof
  assume "ilog2 q < k"
  then have "p2 (ilog2 q + 1) \<le> p2 k" by simp
  with ilog2_upper [OF q] show "q < p2 k" by linarith
next
  assume "q < p2 k"
  with ilog2_lower [OF q] have "p2 (ilog2 q) < p2 k" by linarith
  then show "ilog2 q < k" by simp
qed

lemma ilog2_mono:
  assumes "0 < x" and "x \<le> y"
  shows "ilog2 x \<le> ilog2 y"
proof -
  have "p2 (ilog2 x) < p2 (ilog2 y + 1)"
    using ilog2_lower [OF assms(1)] ilog2_upper [of y] assms by linarith
  then show ?thesis by simp
qed


lemma rhe_cases: "rhe q = \<lfloor>q\<rfloor> \<or> rhe q = \<lfloor>q\<rfloor> + 1"
  by (auto simp: rhe_def Let_def)

lemma rhe_of_int [simp]: "rhe (of_int n) = n"
  by (simp add: rhe_def)

lemma rhe_mono:
  assumes "x \<le> y"
  shows "rhe x \<le> rhe y"
proof (cases "\<lfloor>x\<rfloor> = \<lfloor>y\<rfloor>")
  case True
  then have "x - of_int \<lfloor>x\<rfloor> \<le> y - of_int \<lfloor>y\<rfloor>" using assms by simp
  with True show ?thesis by (auto simp: rhe_def Let_def)
next
  case False
  then have "\<lfloor>x\<rfloor> + 1 \<le> \<lfloor>y\<rfloor>" using floor_mono [OF assms] by simp
  then show ?thesis using rhe_cases [of x] rhe_cases [of y] by linarith
qed

lemma rhe_ge_int: "of_int n \<le> q \<Longrightarrow> n \<le> rhe q"
  using rhe_mono [of "of_int n" q] by simp

lemma rhe_le_int: "q \<le> of_int n \<Longrightarrow> rhe q \<le> n"
  using rhe_mono [of q "of_int n"] by simp

lemma rhe_half: "\<bar>of_int (rhe q) - q\<bar> \<le> 1 / 2"
proof -
  have "of_int \<lfloor>q\<rfloor> \<le> q" "q < of_int \<lfloor>q\<rfloor> + 1" by linarith+
  then show ?thesis by (auto simp: rhe_def Let_def abs_le_iff)
qed

lemma ulp_exp_mono: "0 < x \<Longrightarrow> x \<le> y \<Longrightarrow> ulp_exp x \<le> ulp_exp y"
  by (simp add: ulp_exp_def ilog2_mono max.coboundedI1)

lemma rnd_pos_nonneg: "0 < q \<Longrightarrow> 0 \<le> rnd_pos q"
  using rhe_ge_int [of 0 "q / p2 (ulp_exp q)"] by (simp add: rnd_pos_def)

lemma rnd_pos_mono:
  assumes x: "0 < x" and xy: "x \<le> y"
  shows "rnd_pos x \<le> rnd_pos y"
proof (cases "ulp_exp x = ulp_exp y")
  case True
  have "x / p2 (ulp_exp y) \<le> y / p2 (ulp_exp y)"
    using xy by (simp add: divide_right_mono)
  then have "(of_int (rhe (x / p2 (ulp_exp y))) :: rat) \<le> of_int (rhe (y / p2 (ulp_exp y)))"
    using rhe_mono by (simp only: of_int_le_iff)
  then show ?thesis
    using True by (simp add: rnd_pos_def mult_right_mono)
next
  case False
  have y: "0 < y" using x xy by simp
  define l where "l = ilog2 y"
  from False ulp_exp_mono [OF x xy] have lt: "ulp_exp x < ulp_exp y" by simp
  then have ey: "ulp_exp y = l - 52" and lx: "ilog2 x < l"
    by (auto simp: ulp_exp_def l_def)
  have "p2 l / p2 (ulp_exp y) \<le> y / p2 (ulp_exp y)"
    using ilog2_lower [OF y] by (simp add: l_def divide_right_mono)
  moreover have "p2 l / p2 (ulp_exp y) = of_int (2 ^ 52)"
    by (simp add: ey p2_52 flip: p2_diff)
  ultimately have "(2 ^ 52 :: int) \<le> rhe (y / p2 (ulp_exp y))"
    by (intro rhe_ge_int) simp
  then have "(of_int (2 ^ 52) :: rat) \<le> of_int (rhe (y / p2 (ulp_exp y)))"
    by (simp only: of_int_le_iff)
  then have "of_int (2 ^ 52) * p2 (ulp_exp y) \<le> rnd_pos y"
    unfolding rnd_pos_def by (rule mult_right_mono) simp
  moreover have "of_int (2 ^ 52) * p2 (ulp_exp y) = p2 l"
    using p2_add [of 52 "l - 52"] by (simp add: ey p2_52)
  ultimately have hi: "p2 l \<le> rnd_pos y" by simp
  obtain n :: int where n: "p2 (l - ulp_exp x) = of_int n"
    using p2_int_ex [of "l - ulp_exp x"] lt ey by auto
  have "x \<le> p2 l" using lx ilog2_less_iff [OF x, of l] by simp
  then have "x / p2 (ulp_exp x) \<le> of_int n"
    by (simp add: n [symmetric] p2_diff divide_right_mono)
  then have "rhe (x / p2 (ulp_exp x)) \<le> n" by (rule rhe_le_int)
  then have "(of_int (rhe (x / p2 (ulp_exp x))) :: rat) \<le> of_int n"
    by (simp only: of_int_le_iff)
  then have "rnd_pos x \<le> of_int n * p2 (ulp_exp x)"
    unfolding rnd_pos_def by (rule mult_right_mono) simp
  also have "\<dots> = p2 l" by (simp add: n [symmetric] p2_diff)
  finally show ?thesis using hi by simp
qed

lemma rnd_rat_0 [simp]: "rnd_rat 0 = 0"
  by (simp add: rnd_rat_def)

lemma rnd_rat_minus: "rnd_rat (- q) = - rnd_rat q"
  by (simp add: rnd_rat_def)

lemma rnd_rat_nonneg: "0 \<le> q \<Longrightarrow> 0 \<le> rnd_rat q"
  by (simp add: rnd_rat_def rnd_pos_nonneg)

lemma rnd_rat_mono: "x \<le> y \<Longrightarrow> rnd_rat x \<le> rnd_rat y"
proof -
  assume xy: "x \<le> y"
  consider "0 < x" | "y < 0" | "x \<le> 0" "0 \<le> y" by linarith
  then show ?thesis
  proof cases
    case 1
    then show ?thesis using rnd_pos_mono [OF 1 xy] xy by (simp add: rnd_rat_def)
  next
    case 2
    then show ?thesis using rnd_pos_mono [of "- y" "- x"] xy by (simp add: rnd_rat_def)
  next
    case 3
    then show ?thesis
      using rnd_rat_nonneg [of y] rnd_rat_nonneg [of "- x"] by (simp add: rnd_rat_minus)
  qed
qed

subsection \<open>Representable values round to themselves\<close>

definition representable :: "rat \<Rightarrow> bool" where
  "representable q \<longleftrightarrow> (\<exists>m e. \<bar>m\<bar> < 2 ^ 53 \<and> - 1074 \<le> e \<and> e \<le> 971 \<and> q = of_int m * p2 e)"

lemma rnd_pos_exact:
  assumes "0 < m" "m < 2 ^ 53" "- 1074 \<le> e" "q = of_int m * p2 e"
  shows "rnd_pos q = q"
proof -
  have q: "0 < q" using assms by simp
  have "(of_int m :: rat) < of_int (2 ^ 53)" using assms(2) by (simp only: of_int_less_iff)
  then have "q < of_int (2 ^ 53) * p2 e" unfolding assms(4) by (rule mult_strict_right_mono) simp
  also have "\<dots> = p2 (53 + e)" by (simp add: p2_add p2_53)
  finally have "ilog2 q < 53 + e" by (simp add: ilog2_less_iff [OF q])
  then have le: "ulp_exp q \<le> e" using assms(3) by (simp add: ulp_exp_def)
  then obtain n :: int where n: "p2 (e - ulp_exp q) = of_int n"
    using p2_int_ex [of "e - ulp_exp q"] by auto
  have "q / p2 (ulp_exp q) = of_int (m * n)"
    by (simp add: assms(4) n [symmetric] p2_diff)
  then have "rhe (q / p2 (ulp_exp q)) = m * n" by (simp only: rhe_of_int)
  then have "rnd_pos q = of_int m * (of_int n * p2 (ulp_exp q))"
    by (simp add: rnd_pos_def)
  also have "of_int n * p2 (ulp_exp q) = p2 e" by (simp add: n [symmetric] p2_diff)
  finally show ?thesis by (simp add: assms(4))
qed

lemma representable_minus [simp]: "representable (- q) \<longleftrightarrow> representable q"
proof -
  have "representable (- q)" if "representable q" for q
  proof -
    from that obtain m e
      where "\<bar>m\<bar> < 2 ^ 53" "- 1074 \<le> e" "e \<le> 971" "q = of_int m * p2 e"
      unfolding representable_def by blast
    then show ?thesis
      unfolding representable_def by (intro exI [of _ "- m"] exI [of _ e]) simp
  qed
  from this [of q] this [of "- q"] show ?thesis by auto
qed

lemma rnd_rat_representable:
  assumes "representable q"
  shows "rnd_rat q = q"
proof -
  have pos: "rnd_pos r = r" if r: "representable r" and "0 < r" for r
  proof -
    from r obtain m e where me: "\<bar>m\<bar> < 2 ^ 53" "- 1074 \<le> e" "r = of_int m * p2 e"
      unfolding representable_def by blast
    with \<open>0 < r\<close> have "0 < m" by (simp add: zero_less_mult_iff)
    with me show ?thesis by (intro rnd_pos_exact) auto
  qed
  show ?thesis
    using assms pos [of q] pos [of "- q"] by (simp add: rnd_rat_def)
qed


lemma rnd64_not_NaN [simp]: "rnd64 q \<noteq> NaN" "NaN \<noteq> rnd64 q"
  by (simp_all add: rnd64_def Let_def)

lemma rnd64_0 [simp]: "rnd64 0 = Fin 0"
  by (simp add: rnd64_def)

lemma representable_ilog2:
  assumes "representable q" "q \<noteq> 0"
  shows "ilog2 \<bar>q\<bar> < 1024"
proof -
  obtain m e where me: "\<bar>m\<bar> < 2 ^ 53" "e \<le> 971" "q = of_int m * p2 e"
    using assms(1) unfolding representable_def by blast
  have "\<bar>q\<bar> = of_int \<bar>m\<bar> * p2 e" by (simp add: me(3) abs_mult)
  also have "\<dots> < of_int (2 ^ 53) * p2 e"
    using me(1) by (intro mult_strict_right_mono) (simp_all only: of_int_less_iff p2_pos)
  also have "\<dots> = p2 (53 + e)" by (simp add: p2_add p2_53)
  also have "\<dots> \<le> p2 1024" using me(2) by simp
  finally show ?thesis using assms(2) by (simp add: ilog2_less_iff)
qed

lemma rnd64_representable: "representable q \<Longrightarrow> rnd64 q = Fin q"
  using representable_ilog2 [of q] by (auto simp: rnd64_def rnd_rat_representable)

lemma representable_int:
  assumes "\<bar>n\<bar> \<le> 2 ^ 53"
  shows "representable (of_int n)"
proof (cases "\<bar>n\<bar> < 2 ^ 53")
  case True
  then show ?thesis
    unfolding representable_def by (intro exI [of _ n] exI [of _ 0]) (simp add: p2_def)
next
  case False
  with assms have abs: "\<bar>n\<bar> = 2 ^ 53" by linarith
  have r: "representable (of_int (2 ^ 53))"
    unfolding representable_def
    by (rule exI [of _ "4503599627370496"], rule exI [of _ 1]) (simp add: p2_def)
  from abs consider "n = 2 ^ 53" | "n = - (2 ^ 53)" by linarith
  then show ?thesis by cases (simp_all only: of_int_minus representable_minus r)
qed

lemma rnd64_int: "\<bar>n\<bar> \<le> 2 ^ 53 \<Longrightarrow> rnd64 (of_int n) = Fin (of_int n)"
  by (rule rnd64_representable) (rule representable_int)

lemma rnd64_numeral [simp]:
  assumes "numeral k \<le> (9007199254740992 :: int)"
  shows "rnd64 (numeral k) = Fin (numeral k)" "rnd64 (- numeral k) = Fin (- numeral k)"
proof -
  have "\<bar>numeral k :: int\<bar> \<le> 2 ^ 53" "\<bar>- numeral k :: int\<bar> \<le> 2 ^ 53"
    using assms by simp_all
  from rnd64_int [OF this(1)] rnd64_int [OF this(2)]
  show "rnd64 (numeral k) = Fin (numeral k)" "rnd64 (- numeral k) = Fin (- numeral k)"
    by simp_all
qed

lemma representable_numeral [simp]:
  assumes "numeral k \<le> (9007199254740992 :: int)"
  shows "representable (numeral k)"
proof -
  have "\<bar>numeral k :: int\<bar> \<le> 2 ^ 53" using assms by simp
  from representable_int [OF this] show ?thesis by simp
qed

lemma representable_01 [simp]: "representable 0" "representable 1"
  using representable_int [of 0] representable_int [of 1] by simp_all

lemma rnd64_1 [simp]: "rnd64 1 = Fin 1" "rnd64 (- 1) = Fin (- 1)"
  using rnd64_int [of 1] rnd64_int [of "- 1"] by simp_all

subsection \<open>The operators\<close>

fun fneg :: "pyfloat \<Rightarrow> pyfloat" where
  "fneg (Fin a) = Fin (- a)"
| "fneg PInf = NInf"
| "fneg NInf = PInf"
| "fneg NaN = NaN"

fun fabs :: "pyfloat \<Rightarrow> pyfloat" where
  "fabs (Fin a) = Fin \<bar>a\<bar>"
| "fabs PInf = PInf"
| "fabs NInf = PInf"
| "fabs NaN = NaN"

fun fadd :: "pyfloat \<Rightarrow> pyfloat \<Rightarrow> pyfloat" where
  "fadd (Fin a) (Fin b) = rnd64 (a + b)"
| "fadd NaN y = NaN"
| "fadd x NaN = NaN"
| "fadd PInf NInf = NaN"
| "fadd NInf PInf = NaN"
| "fadd PInf y = PInf"
| "fadd NInf y = NInf"
| "fadd x PInf = PInf"
| "fadd x NInf = NInf"

text \<open>The infinity of a given sign; a zero times an infinity is \<open>NaN\<close>.\<close>

definition inf_of :: "rat \<Rightarrow> pyfloat" where
  "inf_of s = (if 0 < s then PInf else if s < 0 then NInf else NaN)"

fun fmul :: "pyfloat \<Rightarrow> pyfloat \<Rightarrow> pyfloat" where
  "fmul (Fin a) (Fin b) = rnd64 (a * b)"
| "fmul NaN y = NaN"
| "fmul x NaN = NaN"
| "fmul (Fin a) PInf = inf_of a"
| "fmul (Fin a) NInf = inf_of (- a)"
| "fmul PInf (Fin b) = inf_of b"
| "fmul NInf (Fin b) = inf_of (- b)"
| "fmul PInf PInf = PInf"
| "fmul PInf NInf = NInf"
| "fmul NInf PInf = NInf"
| "fmul NInf NInf = PInf"

text \<open>
  Division by a nonzero divisor. Python raises \<open>ZeroDivisionError\<close> for a zero divisor:
  where the code does not exclude it, the models use \<open>pydiv\<close>; where a guard of the
  code excludes it, they use \<open>fdiv\<close>, whose value at zero is then never read.
\<close>

fun fdiv :: "pyfloat \<Rightarrow> pyfloat \<Rightarrow> pyfloat" where
  "fdiv (Fin a) (Fin b) = (if b = 0 then NaN else rnd64 (a / b))"
| "fdiv NaN y = NaN"
| "fdiv x NaN = NaN"
| "fdiv (Fin a) y = Fin 0"
| "fdiv PInf (Fin b) = inf_of b"
| "fdiv NInf (Fin b) = inf_of (- b)"
| "fdiv x y = NaN"

fun fle :: "pyfloat \<Rightarrow> pyfloat \<Rightarrow> bool" where
  "fle (Fin a) (Fin b) = (a \<le> b)"
| "fle NaN y = False"
| "fle x NaN = False"
| "fle NInf y = True"
| "fle x PInf = True"
| "fle x y = False"

fun flt :: "pyfloat \<Rightarrow> pyfloat \<Rightarrow> bool" where
  "flt (Fin a) (Fin b) = (a < b)"
| "flt NaN y = False"
| "flt x NaN = False"
| "flt NInf NInf = False"
| "flt PInf PInf = False"
| "flt NInf y = True"
| "flt x PInf = True"
| "flt x y = False"

instantiation pyfloat :: "{plus, minus, uminus, times, abs, inverse, ord}"
begin

definition plus_pyfloat :: "pyfloat \<Rightarrow> pyfloat \<Rightarrow> pyfloat" where
  "plus_pyfloat = fadd"

definition minus_pyfloat :: "pyfloat \<Rightarrow> pyfloat \<Rightarrow> pyfloat" where
  "minus_pyfloat x y = fadd x (fneg y)"

definition uminus_pyfloat :: "pyfloat \<Rightarrow> pyfloat" where
  "uminus_pyfloat = fneg"

definition times_pyfloat :: "pyfloat \<Rightarrow> pyfloat \<Rightarrow> pyfloat" where
  "times_pyfloat = fmul"

definition abs_pyfloat :: "pyfloat \<Rightarrow> pyfloat" where
  "abs_pyfloat = fabs"

definition divide_pyfloat :: "pyfloat \<Rightarrow> pyfloat \<Rightarrow> pyfloat" where
  "divide_pyfloat = fdiv"

definition inverse_pyfloat :: "pyfloat \<Rightarrow> pyfloat" where
  "inverse_pyfloat x = fdiv (Fin 1) x"

definition less_eq_pyfloat :: "pyfloat \<Rightarrow> pyfloat \<Rightarrow> bool" where
  "less_eq_pyfloat = fle"

definition less_pyfloat :: "pyfloat \<Rightarrow> pyfloat \<Rightarrow> bool" where
  "less_pyfloat = flt"

instance ..

end


lemma Fin_ops [simp]:
  "Fin a + Fin b = rnd64 (a + b)"
  "Fin a - Fin b = rnd64 (a - b)"
  "Fin a * Fin b = rnd64 (a * b)"
  "b \<noteq> 0 \<Longrightarrow> Fin a / Fin b = rnd64 (a / b)"
  "- Fin a = Fin (- a)"
  "\<bar>Fin a\<bar> = Fin \<bar>a\<bar>"
  "Fin a \<le> Fin b \<longleftrightarrow> a \<le> b"
  "Fin a < Fin b \<longleftrightarrow> a < b"
  by (simp_all add: plus_pyfloat_def minus_pyfloat_def times_pyfloat_def divide_pyfloat_def
      uminus_pyfloat_def abs_pyfloat_def less_eq_pyfloat_def less_pyfloat_def)

lemma inf_abs_neg [simp]:
  "- PInf = NInf" "- NInf = PInf" "- NaN = NaN"
  "\<bar>PInf\<bar> = PInf" "\<bar>NInf\<bar> = PInf" "\<bar>NaN\<bar> = NaN"
  by (simp_all add: uminus_pyfloat_def abs_pyfloat_def)

lemma NaN_compare [simp]:
  "\<not> NaN \<le> x" "\<not> x \<le> NaN" "\<not> NaN < x" "\<not> x < NaN"
  by (cases x; simp add: less_eq_pyfloat_def less_pyfloat_def)+

lemma NaN_arith [simp]:
  "NaN + x = NaN" "x + NaN = NaN" "NaN - x = NaN" "x - NaN = NaN"
  "NaN * x = NaN" "x * NaN = NaN" "NaN / x = NaN" "x / NaN = NaN"
  by (cases x; simp add: plus_pyfloat_def minus_pyfloat_def times_pyfloat_def divide_pyfloat_def)+

lemma inf_compare [simp]:
  "\<not> PInf < x" "\<not> x < NInf" "x < PInf \<longleftrightarrow> x \<noteq> PInf \<and> x \<noteq> NaN"
  "x \<le> PInf \<longleftrightarrow> x \<noteq> NaN" "NInf \<le> x \<longleftrightarrow> x \<noteq> NaN" "PInf \<le> x \<longleftrightarrow> x = PInf"
  "x \<le> NInf \<longleftrightarrow> x = NInf" "NInf < x \<longleftrightarrow> x \<noteq> NInf \<and> x \<noteq> NaN"
  by (cases x; simp add: less_eq_pyfloat_def less_pyfloat_def)+

subsection \<open>Order\<close>

lemma fle_refl [simp]: "x \<le> x \<longleftrightarrow> x \<noteq> (NaN :: pyfloat)"
  by (cases x) auto

lemma flt_irrefl [simp]: "\<not> x < (x :: pyfloat)"
  by (cases x) auto

lemma fle_trans: "x \<le> y \<Longrightarrow> y \<le> z \<Longrightarrow> x \<le> (z :: pyfloat)"
  by (cases x; cases y; cases z) auto

lemma flt_trans: "x < y \<Longrightarrow> y < z \<Longrightarrow> x < (z :: pyfloat)"
  by (cases x; cases y; cases z) auto

lemma fle_flt_trans: "x \<le> y \<Longrightarrow> y < z \<Longrightarrow> x < (z :: pyfloat)"
  by (cases x; cases y; cases z) auto

lemma flt_fle_trans: "x < y \<Longrightarrow> y \<le> z \<Longrightarrow> x < (z :: pyfloat)"
  by (cases x; cases y; cases z) auto

lemma fle_antisym: "x \<le> y \<Longrightarrow> y \<le> x \<Longrightarrow> x = (y :: pyfloat)"
  by (cases x; cases y) auto

lemma flt_imp_fle: "x < y \<Longrightarrow> x \<le> (y :: pyfloat)"
  by (cases x; cases y) auto

lemma flt_asym: "x < y \<Longrightarrow> \<not> y < (x :: pyfloat)"
  by (cases x; cases y) auto

lemma flt_not_fle: "x < y \<Longrightarrow> \<not> y \<le> (x :: pyfloat)"
  by (cases x; cases y) auto

lemma not_fle_iff: "x \<noteq> NaN \<Longrightarrow> y \<noteq> NaN \<Longrightarrow> \<not> x \<le> y \<longleftrightarrow> y < (x :: pyfloat)"
  by (cases x; cases y) auto

lemma not_flt_iff: "x \<noteq> NaN \<Longrightarrow> y \<noteq> NaN \<Longrightarrow> \<not> x < y \<longleftrightarrow> y \<le> (x :: pyfloat)"
  by (cases x; cases y) auto

lemma fle_not_NaN: "x \<le> y \<Longrightarrow> x \<noteq> NaN \<and> y \<noteq> (NaN :: pyfloat)"
  by auto

lemma flt_not_NaN: "x < y \<Longrightarrow> x \<noteq> NaN \<and> y \<noteq> (NaN :: pyfloat)"
  by auto

lemmas fl_order = fle_trans flt_trans fle_flt_trans flt_fle_trans flt_imp_fle

lemma rnd64_mono:
  assumes "x \<le> y"
  shows "rnd64 x \<le> rnd64 y"
proof -
  have r: "rnd_rat x \<le> rnd_rat y" using assms by (rule rnd_rat_mono)
  have "0 < rnd_rat x \<longrightarrow> ilog2 \<bar>rnd_rat x\<bar> \<le> ilog2 \<bar>rnd_rat y\<bar>"
    using r by (auto intro: ilog2_mono)
  moreover have "rnd_rat y < 0 \<longrightarrow> ilog2 \<bar>rnd_rat y\<bar> \<le> ilog2 \<bar>rnd_rat x\<bar>"
    using r by (auto intro: ilog2_mono)
  ultimately show ?thesis
    using r by (auto simp: rnd64_def Let_def not_less split: if_splits)
qed

lemma rnd64_nonneg: "0 \<le> q \<Longrightarrow> Fin 0 \<le> rnd64 q"
  and rnd64_nonpos: "q \<le> 0 \<Longrightarrow> rnd64 q \<le> Fin 0"
  using rnd64_mono [of 0 q] rnd64_mono [of q 0] by simp_all

lemma rnd64_pos_imp: "Fin 0 < rnd64 q \<Longrightarrow> 0 < q"
  and rnd64_neg_imp: "rnd64 q < Fin 0 \<Longrightarrow> q < 0"
  using rnd64_nonpos [of q] rnd64_nonneg [of q] by (force dest: flt_not_fle)+

lemma rnd64_not_lt: "0 \<le> q \<Longrightarrow> \<not> rnd64 q < Fin 0" "q \<le> 0 \<Longrightarrow> \<not> Fin 0 < rnd64 q"
  using rnd64_neg_imp [of q] rnd64_pos_imp [of q] by force+

lemma rnd64_minus: "rnd64 (- q) = - rnd64 q"
  by (auto simp: rnd64_def rnd_rat_minus Let_def)

subsection \<open>Python's numeric helpers\<close>

text \<open>\<open>a == b\<close>: a \<open>NaN\<close> equals nothing.\<close>

definition py_eq :: "pyfloat \<Rightarrow> pyfloat \<Rightarrow> bool" where
  "py_eq a b \<longleftrightarrow> a \<noteq> NaN \<and> a = b"

text \<open>\<open>if x\<close>: only a zero is false.\<close>

definition truthy :: "pyfloat \<Rightarrow> bool" where
  "truthy x \<longleftrightarrow> x \<noteq> Fin 0"

definition py_isfinite :: "pyfloat \<Rightarrow> bool" where
  "py_isfinite x = (case x of Fin _ \<Rightarrow> True | _ \<Rightarrow> False)"

text \<open>\<open>min(a, b)\<close> and \<open>max(a, b)\<close> keep the first argument unless the second is strictly
  better, which is how they treat \<open>NaN\<close>.\<close>

definition pymin :: "pyfloat \<Rightarrow> pyfloat \<Rightarrow> pyfloat" where
  "pymin a b = (if b < a then b else a)"

definition pymax :: "pyfloat \<Rightarrow> pyfloat \<Rightarrow> pyfloat" where
  "pymax a b = (if a < b then b else a)"

definition pydiv :: "pyfloat \<Rightarrow> pyfloat \<Rightarrow> pyfloat option" where
  "pydiv a b = (if b = Fin 0 then None else Some (a / b))"

text \<open>\<open>sum(xs)\<close> (Python 3.11, the image's version): left to right from 0, one rounding per addition.\<close>

definition pysum :: "pyfloat list \<Rightarrow> pyfloat" where
  "pysum xs = foldl (+) (Fin 0) xs"

definition of_len :: "'a list \<Rightarrow> pyfloat" where
  "of_len xs = rnd64 (of_nat (length xs))"

text \<open>\<open>round(x, n)\<close>: the decimal with \<open>n\<close> places nearest to the exact value, ties to even.\<close>

fun pyround :: "nat \<Rightarrow> pyfloat \<Rightarrow> pyfloat" where
  "pyround n (Fin a) = rnd64 (of_int (rhe (a * 10 ^ n)) / 10 ^ n)"
| "pyround n x = x"

lemma pymin_cases: "pymin a b = a \<or> pymin a b = b"
  by (simp add: pymin_def)

lemma pymax_cases: "pymax a b = a \<or> pymax a b = b"
  by (simp add: pymax_def)

lemma pymax_ge: "a \<noteq> NaN \<Longrightarrow> a \<le> pymax a b" "b \<noteq> NaN \<Longrightarrow> a \<noteq> NaN \<Longrightarrow> b \<le> pymax a b"
  by (auto simp: pymax_def not_flt_iff intro: flt_imp_fle)

lemma pymin_le: "a \<noteq> NaN \<Longrightarrow> pymin a b \<le> a" "a \<noteq> NaN \<Longrightarrow> b \<noteq> NaN \<Longrightarrow> pymin a b \<le> b"
  by (auto simp: pymin_def not_flt_iff intro: flt_imp_fle)

lemma pymin_mono: "x \<le> y \<Longrightarrow> z \<noteq> NaN \<Longrightarrow> pymin x z \<le> pymin y z"
  by (cases x; cases y; cases z) (auto simp: pymin_def less_pyfloat_def less_eq_pyfloat_def)

lemma pymax_not_NaN: "a \<noteq> NaN \<Longrightarrow> pymax a b \<noteq> NaN"
  by (auto simp: pymax_def)

end
