(* ===== verification/Prelude.thy ===== *)
theory Prelude
  imports PyFloat "HOL-Library.AList"
begin

text \<open>
  What every component shares: Python's exceptions as values, dictionaries in insertion
  order, and generic lemmas on lists and sums. A dictionary is an association list with
  distinct keys: assigning to a present key keeps its place, a new key goes to the end,
  as in Python. The locale \<open>dictionary\<close> states the contract of that container and
  proves the facts its clients use; \<open>py_dict\<close> is its interpretation on the operations
  the models call.
\<close>

subsection \<open>Collections\<close>

named_theorems dict_simps \<open>lookup laws of dictionaries\<close>
named_theorems fl_intros \<open>introduction rules on floats\<close>

type_synonym uuid = nat
type_synonym ('e, 'a) res = "'e + 'a"

subsection \<open>Exceptions\<close>

datatype py_error =
    KeyError
  | ValueError string
  | ZeroDivisionError
  | IndexError
  | TypeError
  | OverflowError
  | IllegalTransitionError
  | BrokerError string

definition bind_res :: "'e + 'a \<Rightarrow> ('a \<Rightarrow> 'e + 'b) \<Rightarrow> 'e + 'b" where
  "bind_res m f = (case m of Inl e \<Rightarrow> Inl e | Inr a \<Rightarrow> f a)"

lemma bind_res_simps [simp]:
  "bind_res (Inl e) f = Inl e"
  "bind_res (Inr a) f = f a"
  by (simp_all add: bind_res_def)

lemma bind_res_Inr: "bind_res m f = Inr b \<longleftrightarrow> (\<exists>a. m = Inr a \<and> f a = Inr b)"
  by (cases m) auto

definition of_opt :: "'e \<Rightarrow> 'a option \<Rightarrow> 'e + 'a" where
  "of_opt e x = (case x of None \<Rightarrow> Inl e | Some a \<Rightarrow> Inr a)"

lemma of_opt_simps [simp]:
  "of_opt e None = Inl e"
  "of_opt e (Some a) = Inr a"
  by (simp_all add: of_opt_def)

lemma of_opt_Inr: "of_opt e x = Inr a \<longleftrightarrow> x = Some a"
  by (cases x) simp_all

text \<open>\<open>[f(x) for x in xs]\<close> where \<open>f\<close> may raise, and \<open>x ** c\<close>, which goes through the C library.\<close>

fun map_res :: "('a \<Rightarrow> 'e + 'b) \<Rightarrow> 'a list \<Rightarrow> 'e + 'b list" where
  "map_res f [] = Inr []"
| "map_res f (x # xs) = bind_res (f x) (\<lambda>y. bind_res (map_res f xs) (\<lambda>ys. Inr (y # ys)))"

type_synonym power_fn = "pyfloat \<Rightarrow> py_error + pyfloat"

subsection \<open>Dictionaries\<close>

type_synonym ('k, 'v) dict = "('k \<times> 'v) list"

definition dict_get :: "('k, 'v) dict \<Rightarrow> 'k \<Rightarrow> 'v option" where
  "dict_get d k = map_of d k"

definition dict_put :: "'k \<Rightarrow> 'v \<Rightarrow> ('k, 'v) dict \<Rightarrow> ('k, 'v) dict" where
  "dict_put k v d = AList.update k v d"

definition dict_pop :: "'k \<Rightarrow> ('k, 'v) dict \<Rightarrow> ('k, 'v) dict" where
  "dict_pop k d = AList.delete k d"

definition dict_values :: "('k, 'v) dict \<Rightarrow> 'v list" where
  "dict_values d = map snd d"

definition dict_ok :: "('k, 'v) dict \<Rightarrow> bool" where
  "dict_ok d \<longleftrightarrow> distinct (map fst d)"

text \<open>\<open>{key(x): x for x in xs}\<close>: a later entry replaces an earlier one with the same key.\<close>

definition dict_of :: "('a \<Rightarrow> 'k) \<Rightarrow> ('a \<Rightarrow> 'v) \<Rightarrow> 'a list \<Rightarrow> ('k, 'v) dict" where
  "dict_of key val xs = foldl (\<lambda>d x. dict_put (key x) (val x) d) [] xs"

locale dictionary =
  fixes empty :: "'d"
    and get :: "'d \<Rightarrow> 'k \<Rightarrow> 'v option"
    and put :: "'k \<Rightarrow> 'v \<Rightarrow> 'd \<Rightarrow> 'd"
    and pop :: "'k \<Rightarrow> 'd \<Rightarrow> 'd"
    and items :: "'d \<Rightarrow> ('k \<times> 'v) list"
    and ok :: "'d \<Rightarrow> bool"
  assumes get_empty: "get empty k = None"
    and get_put: "get (put k v d) k' = (if k' = k then Some v else get d k')"
    and get_pop: "get (pop k d) k' = (if k' = k then None else get d k')"
    and ok_empty: "ok empty"
    and ok_put: "ok d \<Longrightarrow> ok (put k v d)"
    and ok_pop: "ok d \<Longrightarrow> ok (pop k d)"
    and items_get: "ok d \<Longrightarrow> (k, v) \<in> set (items d) \<longleftrightarrow> get d k = Some v"
    and items_distinct: "ok d \<Longrightarrow> distinct (map fst (items d))"
begin

definition restock :: "('k \<times> 'v) list \<Rightarrow> 'd \<Rightarrow> 'd" where
  "restock kvs d = foldl (\<lambda>d kv. put (fst kv) (snd kv) d) d kvs"

lemma ok_restock: "ok d \<Longrightarrow> ok (restock kvs d)"
  unfolding restock_def by (induction kvs arbitrary: d) (simp_all add: ok_put)

lemma get_restock_notin: "k \<notin> fst ` set kvs \<Longrightarrow> get (restock kvs d) k = get d k"
  unfolding restock_def by (induction kvs arbitrary: d) (auto simp: get_put)

lemma get_restock_distinct:
  "distinct (map fst kvs) \<Longrightarrow> (k, v) \<in> set kvs \<Longrightarrow> get (restock kvs d) k = Some v"
proof (induction kvs arbitrary: d)
  case Nil
  then show ?case by simp
next
  case (Cons kv kvs)
  obtain k1 v1 where kv: "kv = (k1, v1)" by force
  have unf: "restock ((k1, v1) # kvs) d = restock kvs (put k1 v1 d)"
    by (simp add: restock_def)
  show ?case
  proof (cases "(k, v) = kv")
    case True
    then have "k \<notin> fst ` set kvs" using Cons.prems(1) kv by auto
    with True kv show ?thesis by (auto simp: unf get_restock_notin get_put)
  next
    case False
    with Cons.prems kv have "get (restock kvs (put k1 v1 d)) k = Some v"
      by (intro Cons.IH) auto
    then show ?thesis by (simp only: kv unf)
  qed
qed

lemma get_restock_cases:
  "get (restock kvs d) k = Some v \<Longrightarrow> (k, v) \<in> set kvs \<or> get d k = Some v"
  unfolding restock_def
  by (induction kvs arbitrary: d) (fastforce simp: get_put split: if_splits)+

lemma values_get: "ok d \<Longrightarrow> v \<in> snd ` set (items d) \<longleftrightarrow> (\<exists>k. get d k = Some v)"
  using items_get by force

lemma ball_values:
  "ok d \<Longrightarrow> (\<forall>kv \<in> set (items d). P (snd kv)) \<longleftrightarrow> (\<forall>k v. get d k = Some v \<longrightarrow> P v)"
  using items_get by force

lemma put_all:
  assumes "ok d" and "\<forall>kv \<in> set (items d). P (snd kv)" and "P v"
  shows "\<forall>kv \<in> set (items (put k v d)). P (snd kv)"
  using assms by (simp add: ball_values ok_put get_put)

lemma pop_all:
  assumes "ok d" and "\<forall>kv \<in> set (items d). P (snd kv)"
  shows "\<forall>kv \<in> set (items (pop k d)). P (snd kv)"
  using assms by (simp add: ball_values ok_pop get_pop)

end

lemma dict_get_put [simp, dict_simps]:
  "dict_get (dict_put k v d) k' = (if k' = k then Some v else dict_get d k')"
  by (simp add: dict_get_def dict_put_def update_conv')

lemma dict_get_pop [simp, dict_simps]:
  "dict_get (dict_pop k d) k' = (if k' = k then None else dict_get d k')"
  by (simp add: dict_get_def dict_pop_def delete_conv')

lemma dict_get_Nil [simp, dict_simps]: "dict_get [] k = None"
  by (simp add: dict_get_def)

lemma dict_get_Cons: "dict_get ((a, b) # d) k = (if k = a then Some b else dict_get d k)"
  by (simp add: dict_get_def)

lemma dict_ok_Nil [simp]: "dict_ok []"
  by (simp add: dict_ok_def)

lemma dict_ok_put [simp]: "dict_ok d \<Longrightarrow> dict_ok (dict_put k v d)"
  by (simp add: dict_ok_def dict_put_def distinct_update)

lemma dict_ok_pop [simp]: "dict_ok d \<Longrightarrow> dict_ok (dict_pop k d)"
  by (simp add: dict_ok_def dict_pop_def distinct_delete)

lemma dict_items_get: "dict_ok d \<Longrightarrow> (k, v) \<in> set d \<longleftrightarrow> dict_get d k = Some v"
  by (simp add: dict_ok_def dict_get_def)

interpretation py_dict: dictionary "[]" dict_get dict_put dict_pop "\<lambda>d. d" dict_ok
  by unfold_locales (simp_all add: dict_items_get, simp add: dict_ok_def)

lemma dict_values_get: "dict_ok d \<Longrightarrow> v \<in> set (dict_values d) \<longleftrightarrow> (\<exists>k. dict_get d k = Some v)"
  by (simp add: dict_values_def py_dict.values_get)

lemma dict_of_restock: "dict_of key val xs = py_dict.restock (map (\<lambda>x. (key x, val x)) xs) []"
proof -
  have "foldl (\<lambda>d x. dict_put (key x) (val x) d) d xs
      = foldl (\<lambda>d kv. dict_put (fst kv) (snd kv) d) d (map (\<lambda>x. (key x, val x)) xs)" for d
    by (induction xs arbitrary: d) simp_all
  then show ?thesis by (simp add: dict_of_def py_dict.restock_def)
qed

lemma dict_ok_of [simp]: "dict_ok (dict_of key val xs)"
  by (simp add: dict_of_restock py_dict.ok_restock)

lemma dict_of_get_SomeD:
  "dict_get (dict_of key val xs) k = Some v \<Longrightarrow> \<exists>x \<in> set xs. key x = k \<and> val x = v"
  unfolding dict_of_restock by (drule py_dict.get_restock_cases) auto

lemma dict_of_get_distinct:
  assumes "distinct (map key xs)" and "x \<in> set xs"
  shows "dict_get (dict_of key val xs) (key x) = Some (val x)"
  unfolding dict_of_restock
  using assms by (intro py_dict.get_restock_distinct) (auto simp: comp_def)

lemma dict_of_get_None: "k \<notin> key ` set xs \<Longrightarrow> dict_get (dict_of key val xs) k = None"
  unfolding dict_of_restock by (subst py_dict.get_restock_notin) auto

lemma dict_of_snoc: "dict_of key val (xs @ [x]) = dict_put (key x) (val x) (dict_of key val xs)"
  by (simp add: dict_of_def)

lemma dict_of_get_present: "x \<in> set xs \<Longrightarrow> \<exists>v. dict_get (dict_of key val xs) (key x) = Some v"
  by (induction xs rule: rev_induct) (auto simp: dict_of_snoc)

subsection \<open>Lists\<close>

text \<open>\<open>xs[-1]\<close> guarded by \<open>if xs\<close>.\<close>

definition last_opt :: "'a list \<Rightarrow> 'a option" where
  "last_opt xs = (if xs = [] then None else Some (last xs))"

lemma last_opt_simps [simp]: "last_opt [] = None" "last_opt (xs @ [x]) = Some x"
  by (simp_all add: last_opt_def)

lemma last_opt_Some: "last_opt xs = Some x \<Longrightarrow> x \<in> set xs"
  by (auto simp: last_opt_def split: if_splits)

definition is_prefix_of :: "'a list \<Rightarrow> 'a list \<Rightarrow> bool" where
  "is_prefix_of xs ys \<longleftrightarrow> (\<exists>zs. ys = xs @ zs)"

lemma is_prefix_of_refl [simp]: "is_prefix_of xs xs"
  by (simp add: is_prefix_of_def)

lemma is_prefix_of_append [simp]: "is_prefix_of xs (xs @ ys)"
  by (auto simp: is_prefix_of_def)

lemma is_prefix_of_trans: "is_prefix_of xs ys \<Longrightarrow> is_prefix_of ys zs \<Longrightarrow> is_prefix_of xs zs"
  by (auto simp: is_prefix_of_def)

end
