(* ===== verification/PyText.thy ===== *)
theory PyText
  imports Prelude
begin

text \<open>
  The string methods the program uses, on ASCII strings (a character outside ASCII is left as
  it is): \<open>lower\<close>, \<open>upper\<close>, \<open>strip\<close>. \<open>falsy_or\<close> is Python's \<open>a or b\<close> on an optional string,
  which takes \<open>b\<close> for an empty \<open>a\<close> too.
\<close>

definition lower_char :: "char \<Rightarrow> char" where
  "lower_char c = (let n = (of_char c :: nat) in if 65 \<le> n \<and> n \<le> 90 then char_of (n + 32) else c)"

definition upper_char :: "char \<Rightarrow> char" where
  "upper_char c = (let n = (of_char c :: nat) in if 97 \<le> n \<and> n \<le> 122 then char_of (n - 32) else c)"

definition is_space :: "char \<Rightarrow> bool" where
  "is_space c \<longleftrightarrow> (let n = (of_char c :: nat) in (9 \<le> n \<and> n \<le> 13) \<or> (28 \<le> n \<and> n \<le> 32))"

definition py_lower :: "string \<Rightarrow> string" where
  "py_lower s = map lower_char s"

definition py_upper :: "string \<Rightarrow> string" where
  "py_upper s = map upper_char s"

definition py_strip :: "string \<Rightarrow> string" where
  "py_strip s = rev (dropWhile is_space (rev (dropWhile is_space s)))"

definition falsy_or :: "string option \<Rightarrow> string \<Rightarrow> string" where
  "falsy_or a b = (case a of None \<Rightarrow> b | Some s \<Rightarrow> if s = [] then b else s)"

text \<open>\<open>f(s) if s else None\<close>\<close>

definition map_truthy :: "(string \<Rightarrow> 'a) \<Rightarrow> string option \<Rightarrow> 'a option" where
  "map_truthy f a = (case a of None \<Rightarrow> None | Some s \<Rightarrow> if s = [] then None else Some (f s))"

subsection \<open>Lemmas\<close>

lemma lower_char_idem [simp]: "lower_char (lower_char c) = lower_char c"
  by (auto simp: lower_char_def Let_def)

lemma py_lower_idem [simp]: "py_lower (py_lower s) = py_lower s"
  by (simp add: py_lower_def)

lemma py_lower_Nil [simp]: "py_lower s = [] \<longleftrightarrow> s = []" "py_lower [] = []"
  by (simp_all add: py_lower_def)

lemma falsy_or_simps [simp]:
  "falsy_or None b = b" "falsy_or (Some []) b = b" "s \<noteq> [] \<Longrightarrow> falsy_or (Some s) b = s"
  by (simp_all add: falsy_or_def)

lemma map_truthy_simps [simp]:
  "map_truthy f None = None" "map_truthy f (Some []) = None" "s \<noteq> [] \<Longrightarrow> map_truthy f (Some s) = Some (f s)"
  by (simp_all add: map_truthy_def)

lemma lower_space: "is_space c \<Longrightarrow> lower_char c = c"
  by (auto simp: is_space_def lower_char_def Let_def)

lemma blank_strip:
  assumes "py_strip w = []"
  shows "\<forall>c \<in> set w. is_space c"
proof (rule ccontr)
  assume "\<not> ?thesis"
  then have ne: "dropWhile is_space w \<noteq> []" by (simp add: dropWhile_eq_Nil_conv)
  then have "\<not> is_space (hd (dropWhile is_space w))" by (rule hd_dropWhile)
  moreover have "\<forall>c \<in> set (dropWhile is_space w). is_space c"
    using assms by (simp add: py_strip_def dropWhile_eq_Nil_conv)
  ultimately show False using ne by simp
qed

lemma blank_lower: "py_strip w = [] \<Longrightarrow> \<forall>c \<in> set (py_lower w). is_space c"
  using blank_strip by (auto simp: py_lower_def lower_space)

text \<open>The words of the strategy language in both cases.\<close>

lemma word_cases:
  "py_upper ''bullish'' = ''BULLISH''" "py_upper ''bearish'' = ''BEARISH''"
  "py_lower ''BULLISH'' = ''bullish''" "py_lower ''BEARISH'' = ''bearish''"
  "py_lower ''bullish'' = ''bullish''" "py_lower ''bearish'' = ''bearish''"
  "py_upper ''buy'' = ''BUY''" "py_upper ''sell'' = ''SELL''"
  "py_upper ''bos'' = ''BOS''" "py_upper ''mss'' = ''MSS''" "py_upper ''choch'' = ''CHOCH''"
  "py_upper ''premium'' = ''PREMIUM''" "py_upper ''discount'' = ''DISCOUNT''"
  "py_upper ''equilibrium'' = ''EQUILIBRIUM''"
  "py_lower ''PREMIUM'' = ''premium''" "py_lower ''DISCOUNT'' = ''discount''"
  "py_lower ''EQUILIBRIUM'' = ''equilibrium''"
  "py_lower ''premium'' = ''premium''" "py_lower ''discount'' = ''discount''"
  "py_lower ''equilibrium'' = ''equilibrium''"
  by (simp_all add: py_upper_def py_lower_def upper_char_def lower_char_def char_of_def bit_0)

end
