(* ===== verification/StrategyDsl.thy ===== *)
theory StrategyDsl
  imports PyText
begin

text \<open>
  The strategy language (\<open>strategy/dsl.py\<close>): the documents and the validators that decide which
  of them are accepted. A validator's complaint is a constructor; pydantic collects the
  complaints of a document's fields in their order and runs the model validators of a condition
  only when its fields passed, the first failing one ending them. Whether pydantic's \<open>gt\<close> and
  \<open>le\<close> bounds let a \<open>NaN\<close> through is that library's decision: the argument \<open>nan_ok\<close>.
  \<open>EntryConfig.params\<close>, which nothing reads, is left out.
\<close>

subsection \<open>Documents\<close>

datatype condition_type =
    CT_TREND | CT_BOS | CT_MSS | CT_CHOCH | CT_LIQUIDITY_SWEEP | CT_FVG | CT_ORDER_BLOCK
  | CT_PREMIUM_DISCOUNT | CT_VOLUME | CT_VOLATILITY | CT_SESSION | CT_INDICATOR
  | CT_OPTIONS_IV | CT_OPTIONS_OI | CT_OPTIONS_GREEKS

fun condition_type_value :: "condition_type \<Rightarrow> string" where
  "condition_type_value CT_TREND = ''trend''"
| "condition_type_value CT_BOS = ''bos''"
| "condition_type_value CT_MSS = ''mss''"
| "condition_type_value CT_CHOCH = ''choch''"
| "condition_type_value CT_LIQUIDITY_SWEEP = ''liquidity_sweep''"
| "condition_type_value CT_FVG = ''fvg''"
| "condition_type_value CT_ORDER_BLOCK = ''order_block''"
| "condition_type_value CT_PREMIUM_DISCOUNT = ''premium_discount''"
| "condition_type_value CT_VOLUME = ''volume''"
| "condition_type_value CT_VOLATILITY = ''volatility''"
| "condition_type_value CT_SESSION = ''session''"
| "condition_type_value CT_INDICATOR = ''indicator''"
| "condition_type_value CT_OPTIONS_IV = ''options_iv''"
| "condition_type_value CT_OPTIONS_OI = ''options_oi''"
| "condition_type_value CT_OPTIONS_GREEKS = ''options_greeks''"

datatype condition_operator =
    OP_AND | OP_OR | OP_NOT | OP_GREATER_THAN | OP_LESS_THAN | OP_CROSSES | OP_TOUCHES | OP_WITHIN

text \<open>A condition: its lookback is optional in a document and filled in an accepted one.\<close>

record 'l condition_of =
  cd_type :: condition_type
  cd_direction :: "string option"
  cd_side :: "string option"
  cd_zone :: "string option"
  cd_name :: "string option"
  cd_operator :: "condition_operator option"
  cd_value :: "pyfloat option"
  cd_min_value :: "pyfloat option"
  cd_max_value :: "pyfloat option"
  cd_lookback :: 'l

type_synonym condition_doc = "int option condition_of"
type_synonym condition = "int condition_of"

record risk_config =
  rk_risk_percent :: pyfloat
  rk_minimum_rr :: pyfloat
  rk_max_risk_percent :: "pyfloat option"

definition default_risk :: risk_config where
  "default_risk = \<lparr>rk_risk_percent = rnd64 (1 / 2), rk_minimum_rr = Fin 2, rk_max_risk_percent = None\<rparr>"

record 'l strategy_of =
  sd_name :: string
  sd_market :: string
  sd_timeframe :: string
  sd_direction :: "string option"
  sd_conditions :: "'l condition_of list"
  sd_entry_type :: string
  sd_risk :: risk_config
  sd_score_weights :: "(string, pyfloat) dict option"

type_synonym strategy_doc = "int option strategy_of"
type_synonym strategy = "int strategy_of"

definition default_entry_type :: string where
  "default_entry_type = ''market''"

subsection \<open>Field validators\<close>

datatype dsl_error =
    Unfed_type condition_type
  | Bad_bias string
  | Unimplemented_operator condition_operator
  | Dead_lookback int
  | Missing_zone
  | Bad_entry_type string
  | Out_of_bounds string
  | Bad_length string

definition bias_values :: "string list" where
  "bias_values = [''bullish'', ''bearish'']"

definition validate_bias :: "string option \<Rightarrow> dsl_error list + string option" where
  "validate_bias value =
     (case value of
        None \<Rightarrow> Inr None
      | Some v \<Rightarrow>
          let normalized = py_lower (py_strip v)
          in if normalized \<notin> set bias_values then Inl [Bad_bias v] else Inr (Some normalized))"

definition unfed_condition_types :: "condition_type list" where
  "unfed_condition_types =
     [CT_VOLUME, CT_VOLATILITY, CT_INDICATOR, CT_OPTIONS_IV, CT_OPTIONS_OI, CT_OPTIONS_GREEKS]"

definition reject_unfed_condition_types :: "condition_type \<Rightarrow> dsl_error list" where
  "reject_unfed_condition_types ty = (if ty \<in> set unfed_condition_types then [Unfed_type ty] else [])"

definition reject_unimplemented_boolean_operators :: "condition_operator option \<Rightarrow> dsl_error list" where
  "reject_unimplemented_boolean_operators oper =
     (case oper of
        None \<Rightarrow> []
      | Some o' \<Rightarrow> if o' \<in> {OP_AND, OP_OR, OP_NOT} then [Unimplemented_operator o'] else [])"

definition errors_of :: "'e list + 'a \<Rightarrow> 'e list" where
  "errors_of r = (case r of Inl es \<Rightarrow> es | Inr _ \<Rightarrow> [])"

definition value_or :: "'a \<Rightarrow> 'e + 'a \<Rightarrow> 'a" where
  "value_or d r = (case r of Inl _ \<Rightarrow> d | Inr x \<Rightarrow> x)"

subsection \<open>A condition\<close>

definition default_lookback_by_type :: "condition_type \<Rightarrow> int" where
  "default_lookback_by_type ty =
     (if ty \<in> {CT_MSS, CT_CHOCH, CT_BOS, CT_LIQUIDITY_SWEEP} then 30
      else if ty = CT_ORDER_BLOCK then 20 else 5)"

definition with_lookback :: "'l condition_of \<Rightarrow> int \<Rightarrow> condition" where
  "with_lookback c n =
     \<lparr>cd_type = cd_type c, cd_direction = cd_direction c, cd_side = cd_side c, cd_zone = cd_zone c,
      cd_name = cd_name c, cd_operator = cd_operator c, cd_value = cd_value c,
      cd_min_value = cd_min_value c, cd_max_value = cd_max_value c, cd_lookback = n\<rparr>"

definition default_lookback_per_condition_type :: "condition_doc \<Rightarrow> condition" where
  "default_lookback_per_condition_type c =
     with_lookback c (case cd_lookback c of None \<Rightarrow> default_lookback_by_type (cd_type c) | Some n \<Rightarrow> n)"

definition reject_dead_lookback :: "condition \<Rightarrow> dsl_error list + condition" where
  "reject_dead_lookback c = (if cd_lookback c < 1 then Inl [Dead_lookback (cd_lookback c)] else Inr c)"

definition reject_premium_discount_without_a_zone :: "condition \<Rightarrow> dsl_error list + condition" where
  "reject_premium_discount_without_a_zone c =
     (if cd_type c = CT_PREMIUM_DISCOUNT \<and> py_strip (falsy_or (cd_zone c) []) = []
      then Inl [Missing_zone] else Inr c)"

definition build_condition :: "condition_doc \<Rightarrow> dsl_error list + condition" where
  "build_condition c =
     (let direction = validate_bias (cd_direction c);
          field_errors = reject_unfed_condition_types (cd_type c) @ errors_of direction
                         @ reject_unimplemented_boolean_operators (cd_operator c)
      in if field_errors \<noteq> [] then Inl field_errors
         else bind_res (reject_dead_lookback (default_lookback_per_condition_type
                          (c\<lparr>cd_direction := value_or None direction\<rparr>)))
                reject_premium_discount_without_a_zone)"

subsection \<open>A strategy\<close>

definition entry_types :: "string list" where
  "entry_types = [''market'', ''fvg_retest'', ''order_block_retest'']"

definition reject_unknown_entry_types :: "string \<Rightarrow> dsl_error list + string" where
  "reject_unknown_entry_types v =
     (let normalized = py_lower (py_strip v)
      in if normalized \<notin> set entry_types then Inl [Bad_entry_type v] else Inr normalized)"

definition max_minimum_rr :: pyfloat where
  "max_minimum_rr = Fin 1000000000000"

definition max_name :: nat where "max_name = 255"

definition max_timeframe :: nat where "max_timeframe = 8"

definition in_bounds :: "bool \<Rightarrow> pyfloat \<Rightarrow> pyfloat \<Rightarrow> pyfloat \<Rightarrow> bool" where
  "in_bounds nan_ok gt le x \<longleftrightarrow> (if x = NaN then nan_ok else gt < x \<and> x \<le> le)"

definition validate_risk :: "bool \<Rightarrow> risk_config \<Rightarrow> dsl_error list" where
  "validate_risk nan_ok r =
     (if in_bounds nan_ok (Fin 0) (Fin 100) (rk_risk_percent r) then [] else [Out_of_bounds ''risk_percent''])
     @ (if in_bounds nan_ok (Fin 0) max_minimum_rr (rk_minimum_rr r) then [] else [Out_of_bounds ''minimum_rr''])"

definition validate_length :: "string \<Rightarrow> nat \<Rightarrow> string \<Rightarrow> dsl_error list" where
  "validate_length field bound s = (if 1 \<le> length s \<and> length s \<le> bound then [] else [Bad_length field])"

definition build_strategy :: "bool \<Rightarrow> strategy_doc \<Rightarrow> dsl_error list + strategy" where
  "build_strategy nan_ok s =
     (let direction = validate_bias (sd_direction s);
          conditions = map build_condition (sd_conditions s);
          entry = reject_unknown_entry_types (sd_entry_type s);
          errors = validate_length ''name'' max_name (sd_name s)
                   @ validate_length ''timeframe'' max_timeframe (sd_timeframe s)
                   @ errors_of direction @ concat (map errors_of conditions) @ errors_of entry
                   @ validate_risk nan_ok (sd_risk s)
      in if errors \<noteq> [] then Inl errors
         else Inr \<lparr>sd_name = sd_name s, sd_market = sd_market s, sd_timeframe = sd_timeframe s,
                   sd_direction = value_or None direction,
                   sd_conditions = concat (map (\<lambda>r. case r of Inl _ \<Rightarrow> [] | Inr c \<Rightarrow> [c]) conditions),
                   sd_entry_type = value_or [] entry, sd_risk = sd_risk s,
                   sd_score_weights = sd_score_weights s\<rparr>)"

subsection \<open>Lemmas\<close>

text \<open>A complaint always says something.\<close>

lemma validate_bias_complains [simp]: "validate_bias d \<noteq> Inl []"
  by (simp add: validate_bias_def Let_def split: option.split)

lemma validate_bias_values:
  "validate_bias d = Inr dir \<Longrightarrow> dir \<in> {None, Some ''bullish'', Some ''bearish''}"
  by (auto simp: validate_bias_def Let_def bias_values_def split: option.splits if_splits)

end
