(* ===== verification/FloatBounds.thy ===== *)
theory FloatBounds
  imports Prelude
begin

text \<open>
  What rounding keeps: a result of an operation is a binary64 number (\<open>b64\<close>), adding a
  non-negative number never goes below a binary64 summand, and the operations are monotone.
  Proofs about prices and money take their inequalities from here.
\<close>

subsection \<open>Results are binary64 numbers\<close>

lemma representable_rnd_pos:
  assumes q: "0 < q" and small: "rnd_pos q \<noteq> 0 \<Longrightarrow> ilog2 (rnd_pos q) < 1024"
  shows "representable (rnd_pos q)"
proof -
  define e n where "e = ulp_exp q" and "n = rhe (q / p2 e)"
  have r: "rnd_pos q = of_int n * p2 e" by (simp add: rnd_pos_def e_def n_def)
  have e: "- 1074 \<le> e" "ilog2 q < e + 53" by (auto simp: e_def ulp_exp_def)
  have n0: "0 \<le> n" using q by (auto simp: n_def intro!: rhe_ge_int)
  have "q \<le> p2 (e + 53)" using e(2) ilog2_less_iff [OF q, of "e + 53"] by simp
  then have "q / p2 e \<le> of_int (2 ^ 53)" by (simp add: p2_add p2_53 field_simps)
  then have n53: "n \<le> 2 ^ 53" unfolding n_def by (rule rhe_le_int)
  have big: "p2 (e + 52) \<le> rnd_pos q \<and> rnd_pos q \<noteq> 0" if "2 ^ 52 \<le> n"
  proof -
    have "(of_int (2 ^ 52) :: rat) \<le> of_int n" using that by (simp only: of_int_le_iff)
    then have "of_int (2 ^ 52) * p2 e \<le> of_int n * p2 e" by (rule mult_right_mono) simp
    then have "p2 (e + 52) \<le> rnd_pos q" by (simp add: r p2_add p2_52 mult.commute)
    then show ?thesis using p2_not_neg [of "e + 52"] by auto
  qed
  have e971: "e \<le> 971" if "2 ^ 52 \<le> n"
  proof -
    have "0 < rnd_pos q" "ilog2 (rnd_pos q) < 1024" using big [OF that] small rnd_pos_nonneg [OF q] by auto
    then have "rnd_pos q < p2 1024" using ilog2_less_iff by blast
    with big [OF that] have "p2 (e + 52) < p2 1024" by linarith
    then show ?thesis by simp
  qed
  show ?thesis
  proof (cases "n = 2 ^ 53")
    case True
    then have eq: "rnd_pos q = of_int (2 ^ 52) * p2 (e + 1)"
      using p2_add [of e 1] by (simp add: r p2_def)
    have "0 < rnd_pos q" "ilog2 (rnd_pos q) < 1024" using big True small rnd_pos_nonneg [OF q] by auto
    then have "rnd_pos q < p2 1024" using ilog2_less_iff by blast
    moreover have "rnd_pos q = p2 (e + 53)" by (simp add: r True p2_add p2_53)
    ultimately have "e + 1 \<le> 971" by simp
    with eq e(1) show ?thesis unfolding representable_def by (intro exI [of _ "2 ^ 52"] exI [of _ "e + 1"]) simp
  next
    case False
    with n53 have n: "\<bar>n\<bar> < 2 ^ 53" using n0 by simp
    show ?thesis
    proof (cases "2 ^ 52 \<le> n")
      case True
      with e971 e n r show ?thesis unfolding representable_def by blast
    next
      case False
      have "e \<le> 971 \<or> n = 0"
      proof (rule ccontr)
        assume "\<not> ?thesis"
        then have "971 < e" "n \<noteq> 0" by auto
        then have eq: "e = ilog2 q - 52" by (auto simp: e_def ulp_exp_def)
        have "p2 (e + 52) \<le> q" using ilog2_lower [OF q] by (simp add: eq)
        then have "of_int (2 ^ 52) \<le> q / p2 e" by (simp add: p2_add p2_52 field_simps)
        then have "2 ^ 52 \<le> n" unfolding n_def by (rule rhe_ge_int)
        with False show False by simp
      qed
      then show ?thesis
      proof
        assume "e \<le> 971"
        with e n r show ?thesis unfolding representable_def by blast
      next
        assume "n = 0"
        then show ?thesis by (simp add: r)
      qed
    qed
  qed
qed

definition b64 :: "pyfloat \<Rightarrow> bool" where
  "b64 x \<longleftrightarrow> (case x of Fin q \<Rightarrow> representable q | _ \<Rightarrow> True)"

lemma b64_simps [simp]: "b64 (Fin q) \<longleftrightarrow> representable q" "b64 PInf" "b64 NInf" "b64 NaN"
  by (simp_all add: b64_def)

lemma b64_rnd64 [simp]: "b64 (rnd64 q)"
proof -
  have "representable (rnd_rat q)" if small: "ilog2 \<bar>rnd_rat q\<bar> < 1024"
  proof (cases "q = 0")
    case False
    then show ?thesis
    proof (cases "0 < q")
      case True
      with small show ?thesis
        using representable_rnd_pos [OF True] rnd_pos_nonneg [OF True] by (simp add: rnd_rat_def)
    next
      case neg: False
      with False have p: "0 < - q" by simp
      with small neg False have "representable (rnd_pos (- q))"
        using representable_rnd_pos [OF p] rnd_pos_nonneg [OF p] by (simp add: rnd_rat_def)
      then show ?thesis using neg False by (simp add: rnd_rat_def)
    qed
  qed simp
  then show ?thesis by (simp add: rnd64_def Let_def)
qed

lemma b64_inf_of [simp]: "b64 (inf_of q)"
  by (simp add: inf_of_def)

lemma b64_ops [simp]: "b64 (x + y)" "b64 (x - y)" "b64 (x * y)" "b64 (x / y)"
  by (cases x; cases y; simp add: plus_pyfloat_def minus_pyfloat_def times_pyfloat_def divide_pyfloat_def)+

lemma b64_uminus [simp]: "b64 (- x) \<longleftrightarrow> b64 x"
  by (cases x) (simp_all add: uminus_pyfloat_def)

lemma b64_abs [simp]: "b64 x \<Longrightarrow> b64 \<bar>x\<bar>"
  by (cases x) (auto simp: abs_pyfloat_def abs_if)

lemma b64_pymax [simp]: "b64 x \<Longrightarrow> b64 y \<Longrightarrow> b64 (pymax x y)"
  and b64_pymin [simp]: "b64 x \<Longrightarrow> b64 y \<Longrightarrow> b64 (pymin x y)"
  by (simp_all add: pymax_def pymin_def)

lemma b64_pyround [simp]: "b64 x \<Longrightarrow> b64 (pyround n x)"
  by (cases x) simp_all

subsection \<open>Order and arithmetic\<close>

lemma fle_inf [simp]: "x \<le> PInf \<longleftrightarrow> x \<noteq> NaN" "NInf \<le> x \<longleftrightarrow> x \<noteq> NaN"
  by (cases x; simp add: less_eq_pyfloat_def)+

lemma flt_inf [simp]: "PInf < x \<longleftrightarrow> False" "x < NInf \<longleftrightarrow> False"
  by (cases x; simp add: less_pyfloat_def)+

lemma fadd_commute: "x + y = y + (x :: pyfloat)"
  by (cases x; cases y; simp add: plus_pyfloat_def add.commute)

lemma fminus_eq: "x - y = x + (- y :: pyfloat)"
  by (simp add: minus_pyfloat_def plus_pyfloat_def uminus_pyfloat_def)

lemma fadd_mono:
  "x \<le> y \<Longrightarrow> x + z \<noteq> NaN \<Longrightarrow> y + z \<noteq> NaN \<Longrightarrow> x + z \<le> y + (z :: pyfloat)"
  by (cases x; cases y; cases z) (simp_all add: rnd64_mono plus_pyfloat_def)

lemma fadd_ge: "b64 x \<Longrightarrow> Fin 0 \<le> y \<Longrightarrow> x + y \<noteq> NaN \<Longrightarrow> x \<le> x + (y :: pyfloat)"
proof (cases x; cases y)
  fix a b
  assume "b64 x" "Fin 0 \<le> y" and x: "x = Fin a" "y = Fin b"
  then have "rnd64 a = Fin a" "rnd64 a \<le> rnd64 (a + b)"
    by (auto intro: rnd64_representable rnd64_mono simp del: b64_rnd64)
  with x show "x \<le> x + y" by (simp add: plus_pyfloat_def)
qed (simp_all add: plus_pyfloat_def)

lemma fneg_nonpos: "Fin 0 \<le> y \<Longrightarrow> - y \<le> (Fin 0 :: pyfloat)"
  by (cases y) (simp_all add: uminus_pyfloat_def)

lemma fadd_le: "b64 x \<Longrightarrow> y \<le> Fin 0 \<Longrightarrow> x + y \<noteq> NaN \<Longrightarrow> x + y \<le> (x :: pyfloat)"
proof (cases x; cases y)
  fix a b
  assume "b64 x" "y \<le> Fin 0" and x: "x = Fin a" "y = Fin b"
  then have "rnd64 a = Fin a" "rnd64 (a + b) \<le> rnd64 a"
    by (auto intro: rnd64_representable rnd64_mono simp del: b64_rnd64)
  with x show "x + y \<le> x" by (simp add: plus_pyfloat_def)
qed (simp_all add: plus_pyfloat_def)

lemma fsub_le: "b64 x \<Longrightarrow> Fin 0 \<le> y \<Longrightarrow> x - y \<noteq> NaN \<Longrightarrow> x - y \<le> (x :: pyfloat)"
  unfolding fminus_eq by (intro fadd_le fneg_nonpos)

lemma fabs_nonneg: "x \<noteq> NaN \<Longrightarrow> Fin 0 \<le> \<bar>x\<bar>"
  by (cases x) (simp_all add: abs_pyfloat_def)

lemma fabs_NaN [simp]: "\<bar>x\<bar> = NaN \<longleftrightarrow> x = NaN"
  by (cases x) (simp_all add: abs_pyfloat_def)

lemma fmul_nonneg: "Fin 0 \<le> x \<Longrightarrow> Fin 0 \<le> y \<Longrightarrow> x * y \<noteq> NaN \<Longrightarrow> Fin 0 \<le> x * (y :: pyfloat)"
  by (cases x; cases y) (auto simp: times_pyfloat_def inf_of_def rnd64_nonneg)

lemma fdiv_nonneg: "Fin 0 \<le> x \<Longrightarrow> Fin 0 < y \<Longrightarrow> x / y \<noteq> NaN \<Longrightarrow> Fin 0 \<le> x / (y :: pyfloat)"
  by (cases x; cases y) (auto simp: divide_pyfloat_def inf_of_def rnd64_nonneg)

lemma fadd_nonneg: "Fin 0 \<le> x \<Longrightarrow> Fin 0 \<le> y \<Longrightarrow> Fin 0 \<le> x + (y :: pyfloat)"
  by (cases x; cases y) (auto simp: plus_pyfloat_def rnd64_nonneg)

lemma fsub_nonneg: "y \<le> x \<Longrightarrow> x - y \<noteq> NaN \<Longrightarrow> Fin 0 \<le> x - (y :: pyfloat)"
  by (cases x; cases y) (auto simp: minus_pyfloat_def rnd64_nonneg)

lemma flt_Fin0_imp [simp]: "Fin 0 < x \<Longrightarrow> Fin 0 \<le> x"
  by (rule flt_imp_fle)

lemma flt_linear: "x \<noteq> NaN \<Longrightarrow> y \<noteq> NaN \<Longrightarrow> x < y \<or> x = y \<or> y < (x :: pyfloat)"
  by (cases x; cases y) (auto simp: less_pyfloat_def)

lemma inf_of_pos [simp]: "0 < c \<Longrightarrow> inf_of c = PInf" "0 < c \<Longrightarrow> inf_of (- c) = NInf"
  by (simp_all add: inf_of_def)

lemma fmul_const_mono: "x \<le> y \<Longrightarrow> 0 < c \<Longrightarrow> x * Fin c \<le> y * Fin c"
  by (cases x; cases y) (simp_all add: times_pyfloat_def rnd64_mono mult_right_mono)

lemma fdiv_const_mono: "x \<le> y \<Longrightarrow> 0 < c \<Longrightarrow> x / Fin c \<le> y / Fin c"
  by (cases x; cases y) (simp_all add: divide_pyfloat_def rnd64_mono divide_right_mono)

lemma pyround_mono: "x \<le> y \<Longrightarrow> pyround n x \<le> pyround n y"
proof (cases x; cases y)
  fix a b
  assume "x \<le> y" and x: "x = Fin a" "y = Fin b"
  then have "a * 10 ^ n \<le> b * 10 ^ n" by (simp add: mult_right_mono)
  then have "rhe (a * 10 ^ n) \<le> rhe (b * 10 ^ n)" by (rule rhe_mono)
  with x show "pyround n x \<le> pyround n y" by (simp add: rnd64_mono divide_right_mono)
qed simp_all

end
