(* ===== verification/Candles.thy ===== *)
theory Candles
  imports Prelude
begin

text \<open>
  Candles and what every detector over them shares (\<open>smc/types.py\<close>). A \<open>datetime\<close> is its
  calendar day (the proleptic ordinal of \<open>toordinal\<close>), the microseconds since its own
  midnight, and its UTC offset in microseconds, \<open>None\<close> for a naive one. The locale
  \<open>causal_detector\<close> states look-ahead safety: what a detector reports over a history is a
  prefix of what it reports once more candles have arrived.
\<close>

subsection \<open>Time\<close>

record datetime =
  dt_day :: int
  dt_us :: int
  dt_offset :: "int option"

definition us_per_minute :: int where
  "us_per_minute = 60000000"

definition us_per_day :: int where
  "us_per_day = 86400000000"

text \<open>The instant of a datetime, a naive one read as UTC, in microseconds.\<close>

definition instant :: "datetime \<Rightarrow> int" where
  "instant t = dt_day t * us_per_day + dt_us t - (case dt_offset t of None \<Rightarrow> 0 | Some off \<Rightarrow> off)"

subsection \<open>Candles\<close>

record candle =
  c_time :: datetime
  c_open :: pyfloat
  c_high :: pyfloat
  c_low :: pyfloat
  c_close :: pyfloat
  c_volume :: pyfloat

datatype trend = BULLISH | BEARISH

fun trend_value :: "trend \<Rightarrow> string" where
  "trend_value BULLISH = ''BULLISH''"
| "trend_value BEARISH = ''BEARISH''"

text \<open>A candle whose prices are binary64 numbers in the order a market gives them.\<close>

definition sane_candle :: "candle \<Rightarrow> bool" where
  "sane_candle c \<longleftrightarrow> c_low c \<le> c_open c \<and> c_low c \<le> c_close c \<and> c_open c \<le> c_high c \<and> c_close c \<le> c_high c"

subsection \<open>Folds\<close>

text \<open>\<open>max(xs)\<close> and \<open>min(xs)\<close> of a non-empty list.\<close>

fun pymax_list :: "pyfloat list \<Rightarrow> pyfloat" where
  "pymax_list [] = NaN"
| "pymax_list (x # xs) = foldl pymax x xs"

fun pymin_list :: "pyfloat list \<Rightarrow> pyfloat" where
  "pymin_list [] = NaN"
| "pymin_list (x # xs) = foldl pymin x xs"

definition count_eq :: "pyfloat list \<Rightarrow> pyfloat \<Rightarrow> nat" where
  "count_eq xs x = length (filter (\<lambda>y. py_eq y x) xs)"

lemma foldl_pymax_ge: "y \<in> set (a # xs) \<Longrightarrow> NaN \<notin> set (a # xs) \<Longrightarrow> y \<le> foldl pymax a xs"
proof (induction xs arbitrary: a y)
  case (Cons x xs)
  have nan: "pymax a x \<noteq> NaN" "a \<noteq> NaN" "x \<noteq> NaN" "NaN \<notin> set (pymax a x # xs)"
    using Cons.prems(2) pymax_cases [of a x] by auto
  have "y \<le> pymax a x \<or> y \<in> set xs"
    using Cons.prems(1) nan pymax_ge by auto
  then show ?case
    using Cons.IH [of "pymax a x" "pymax a x"] Cons.IH [of y "pymax a x"] nan(4) fle_trans by fastforce
qed simp

lemma foldl_pymin_le: "y \<in> set (a # xs) \<Longrightarrow> NaN \<notin> set (a # xs) \<Longrightarrow> foldl pymin a xs \<le> y"
proof (induction xs arbitrary: a y)
  case (Cons x xs)
  have nan: "a \<noteq> NaN" "x \<noteq> NaN" "NaN \<notin> set (pymin a x # xs)"
    using Cons.prems(2) pymin_cases [of a x] by auto
  have "pymin a x \<le> y \<or> y \<in> set xs"
    using Cons.prems(1) nan pymin_le by auto
  then show ?case
    using Cons.IH [of "pymin a x" "pymin a x"] Cons.IH [of y "pymin a x"] nan(3) fle_trans by fastforce
qed simp

lemma foldl_pymax_in: "foldl pymax a xs \<in> set (a # xs)"
proof (induction xs arbitrary: a)
  case (Cons x xs)
  show ?case using Cons.IH [of "pymax a x"] pymax_cases [of a x] by auto
qed simp

lemma foldl_pymin_in: "foldl pymin a xs \<in> set (a # xs)"
proof (induction xs arbitrary: a)
  case (Cons x xs)
  show ?case using Cons.IH [of "pymin a x"] pymin_cases [of a x] by auto
qed simp

lemma pymax_list_ge: "y \<in> set xs \<Longrightarrow> NaN \<notin> set xs \<Longrightarrow> y \<le> pymax_list xs"
  by (cases xs) (auto simp only: pymax_list.simps intro: foldl_pymax_ge, simp)

lemma pymin_list_le: "y \<in> set xs \<Longrightarrow> NaN \<notin> set xs \<Longrightarrow> pymin_list xs \<le> y"
  by (cases xs) (auto simp only: pymin_list.simps intro: foldl_pymin_le, simp)

lemma pymax_list_in: "xs \<noteq> [] \<Longrightarrow> pymax_list xs \<in> set xs"
  using foldl_pymax_in by (cases xs) (auto simp del: set_simps)

lemma pymin_list_in: "xs \<noteq> [] \<Longrightarrow> pymin_list xs \<in> set xs"
  using foldl_pymin_in by (cases xs) (auto simp del: set_simps)

subsection \<open>Look-ahead safety\<close>

locale causal_detector =
  fixes detect :: "candle list \<Rightarrow> 'a list"
  assumes extends: "is_prefix_of (detect xs) (detect (xs @ ys))"
begin

lemma never_retracts: "set (detect xs) \<subseteq> set (detect (xs @ ys))"
  using extends [of xs ys] by (auto simp: is_prefix_of_def)

lemma stable_nth: "i < length (detect xs) \<Longrightarrow> detect (xs @ ys) ! i = detect xs ! i"
  using extends [of xs ys] by (auto simp: is_prefix_of_def nth_append)

lemma grows: "length (detect xs) \<le> length (detect (xs @ ys))"
  using extends [of xs ys] by (auto simp: is_prefix_of_def)

lemma extends_take: "is_prefix_of (detect (take k xs)) (detect xs)"
  using extends [of "take k xs" "drop k xs"] by simp

lemma same_history: "take k xs = take k ys \<Longrightarrow> detect (take k xs) = detect (take k ys)"
  by simp

end

text \<open>A detector run on a causal one's output, and a map over it, are causal.\<close>

locale causal_stage = causal_detector detect for detect :: "candle list \<Rightarrow> 'a list" +
  fixes stage :: "'a list \<Rightarrow> 'b list"
  assumes stage_extends: "is_prefix_of us vs \<Longrightarrow> is_prefix_of (stage us) (stage vs)"

sublocale causal_stage \<subseteq> staged: causal_detector "\<lambda>xs. stage (detect xs)"
  by unfold_locales (intro stage_extends extends)

lemma is_prefix_of_map: "is_prefix_of us vs \<Longrightarrow> is_prefix_of (map f us) (map f vs)"
  by (auto simp: is_prefix_of_def)

lemma is_prefix_of_concat: "is_prefix_of us vs \<Longrightarrow> is_prefix_of (concat us) (concat vs)"
  by (auto simp: is_prefix_of_def)

end
