(* ===== verification/Swings.thy ===== *)
theory Swings
  imports Candles
begin

text \<open>
  Swing detection (\<open>smc/swings.py\<close>): a pivot is reported once \<open>swing_length\<close> candles exist on
  each side of it, with a label from the last swing of its kind.
\<close>

subsection \<open>Detection\<close>

datatype swing_type = HIGH | LOW

datatype swing_label = HH | HL | LH | LL | NONE

record swing =
  s_index :: nat
  s_confirmed_index :: nat
  s_time :: datetime
  s_price :: pyfloat
  s_type :: swing_type
  s_label :: swing_label

text \<open>\<open>candles[j].f for j in range(i - k, i + k + 1)\<close>\<close>

definition window :: "nat \<Rightarrow> nat \<Rightarrow> (candle \<Rightarrow> pyfloat) \<Rightarrow> candle list \<Rightarrow> pyfloat list" where
  "window k i f candles = map (\<lambda>j. f (candles ! j)) [i - k..<i + k + 1]"

definition swing_at :: "candle list \<Rightarrow> nat \<Rightarrow> nat \<Rightarrow> pyfloat \<Rightarrow> swing_type \<Rightarrow> swing" where
  "swing_at candles k i price ty =
     \<lparr>s_index = i, s_confirmed_index = i + k, s_time = c_time (candles ! i), s_price = price,
      s_type = ty, s_label = NONE\<rparr>"

text \<open>One turn of the loop.\<close>

definition swings_at :: "nat \<Rightarrow> candle list \<Rightarrow> nat \<Rightarrow> swing list" where
  "swings_at k candles i =
     (let window_highs = window k i c_high candles;
          window_lows = window k i c_low candles;
          pivot_high = c_high (candles ! i);
          pivot_low = c_low (candles ! i)
      in (if py_eq pivot_high (pymax_list window_highs) \<and> count_eq window_highs pivot_high = 1
          then [swing_at candles k i pivot_high HIGH] else [])
         @ (if py_eq pivot_low (pymin_list window_lows) \<and> count_eq window_lows pivot_low = 1
            then [swing_at candles k i pivot_low LOW] else []))"

definition raw_swings :: "nat \<Rightarrow> candle list \<Rightarrow> swing list" where
  "raw_swings k candles = concat (map (swings_at k candles) [k..<length candles - k])"

text \<open>\<open>_label_swings\<close>, with the prices of the last high and low so far.\<close>

fun label_swings :: "pyfloat option \<Rightarrow> pyfloat option \<Rightarrow> swing list \<Rightarrow> swing list" where
  "label_swings last_high last_low [] = []"
| "label_swings last_high last_low (s # rest) =
     (if s_type s = HIGH then
        s\<lparr>s_label := (case last_high of None \<Rightarrow> NONE | Some p \<Rightarrow> if p < s_price s then HH else LH)\<rparr>
          # label_swings (Some (s_price s)) last_low rest
      else
        s\<lparr>s_label := (case last_low of None \<Rightarrow> NONE | Some p \<Rightarrow> if p < s_price s then HL else LL)\<rparr>
          # label_swings last_high (Some (s_price s)) rest)"

definition detect_swings :: "candle list \<Rightarrow> int \<Rightarrow> py_error + swing list" where
  "detect_swings candles swing_length =
     (if swing_length < 1 then Inl (ValueError ''swing_length must be >= 1'')
      else Inr (label_swings None None
                  (sort_key s_index (raw_swings (nat swing_length) candles))))"

definition visible_swings :: "swing list \<Rightarrow> nat \<Rightarrow> swing list" where
  "visible_swings swings as_of_index = filter (\<lambda>s. s_confirmed_index s \<le> as_of_index) swings"

subsection \<open>Lemmas\<close>

lemma swings_at_index: "s \<in> set (swings_at k cs i) \<Longrightarrow> s_index s = i \<and> s_confirmed_index s = i + k"
  by (auto simp: swings_at_def swing_at_def Let_def split: if_splits)

lemma swings_at_price:
  "s \<in> set (swings_at k cs i) \<Longrightarrow> s_price s = (if s_type s = HIGH then c_high (cs ! i) else c_low (cs ! i))"
  by (auto simp: swings_at_def swing_at_def Let_def split: if_splits)

lemma raw_swings_mem:
  "s \<in> set (raw_swings k cs) \<longleftrightarrow> (\<exists>i. k \<le> i \<and> i < length cs - k \<and> s \<in> set (swings_at k cs i))"
  by (auto simp: raw_swings_def)

lemma raw_swings_sorted: "sorted (map s_index (raw_swings k cs))"
proof -
  have "sorted (map s_index (concat (map (swings_at k cs) is)))"
    if "sorted is" for "is"
    using that
  proof (induction "is")
    case (Cons i "is")
    have "sorted (map s_index (swings_at k cs i))"
      by (auto simp: swings_at_def swing_at_def Let_def)
    with Cons swings_at_index show ?case
      by (fastforce simp: sorted_append)
  qed simp
  from this [of "[k..<length cs - k]"] show ?thesis by (simp add: raw_swings_def)
qed

lemma detect_swings_eq:
  "1 \<le> k \<Longrightarrow> detect_swings cs k = Inr (label_swings None None (raw_swings (nat k) cs))"
  using raw_swings_sorted [of "nat k" cs]
  by (simp add: detect_swings_def sort_key_id_if_sorted)

lemma swings_at_prefix:
  assumes "i + k < length xs"
  shows "swings_at k (xs @ ys) i = swings_at k xs i"
proof -
  have w: "window k i f (xs @ ys) = window k i f xs" for f
    using assms by (auto simp: window_def nth_append)
  have n: "(xs @ ys) ! i = xs ! i" using assms by (simp add: nth_append)
  have a: "swing_at (xs @ ys) k i p t = swing_at xs k i p t" for p t by (simp add: swing_at_def n)
  show ?thesis unfolding swings_at_def w n a ..
qed

lemma raw_swings_split:
  "raw_swings k (xs @ ys) = raw_swings k xs
     @ concat (map (swings_at k (xs @ ys)) [max k (length xs - k)..<length (xs @ ys) - k])"
proof -
  have "[k..<length (xs @ ys) - k]
      = [k..<length xs - k] @ [max k (length xs - k)..<length (xs @ ys) - k]"
    using upt_add_eq_append [of k "length xs - k" "length ys"]
    by (cases "k \<le> length xs - k"; cases "k \<le> length xs") (auto simp: max_def)
  moreover have "map (swings_at k (xs @ ys)) [k..<length xs - k] = map (swings_at k xs) [k..<length xs - k]"
    by (auto intro!: swings_at_prefix)
  ultimately show ?thesis
    unfolding raw_swings_def by (simp only: map_append concat_append)
qed

lemma raw_swings_extends: "is_prefix_of (raw_swings k xs) (raw_swings k (xs @ ys))"
  by (simp only: raw_swings_split is_prefix_of_append)

lemma label_swings_append:
  "\<exists>h l. label_swings a b (us @ vs) = label_swings a b us @ label_swings h l vs"
proof (induction us arbitrary: a b)
  case (Cons u us)
  from Cons.IH [of "Some (s_price u)" b] Cons.IH [of a "Some (s_price u)"] show ?case by auto
qed auto

lemma label_swings_extends: "is_prefix_of us vs \<Longrightarrow> is_prefix_of (label_swings a b us) (label_swings a b vs)"
  using label_swings_append [of a b us] by (fastforce simp: is_prefix_of_def)

definition swings_of :: "int \<Rightarrow> candle list \<Rightarrow> swing list" where
  "swings_of k cs = (case detect_swings cs k of Inl _ \<Rightarrow> [] | Inr s \<Rightarrow> s)"

lemma swings_of_eq: "swings_of k cs = (if k < 1 then [] else label_swings None None (raw_swings (nat k) cs))"
  using detect_swings_eq [of k cs] by (simp add: swings_of_def detect_swings_def)

interpretation swings: causal_detector "swings_of k"
  by unfold_locales (simp add: swings_of_eq label_swings_extends raw_swings_extends)

lemma label_swings_fields:
  "map (\<lambda>s. (s_index s, s_confirmed_index s, s_time s, s_price s, s_type s)) (label_swings a b ss)
   = map (\<lambda>s. (s_index s, s_confirmed_index s, s_time s, s_price s, s_type s)) ss"
  by (induction a b ss rule: label_swings.induct) auto

lemma count_window:
  "count_eq (window k i f cs) p = card {j. i - k \<le> j \<and> j \<le> i + k \<and> py_eq (f (cs ! j)) p}"
proof -
  have "count_eq (window k i f cs) p = length (filter (\<lambda>j. py_eq (f (cs ! j)) p) [i - k..<i + k + 1])"
    by (simp add: count_eq_def window_def filter_map comp_def del: upt_Suc)
  also have "\<dots> = card ({j. py_eq (f (cs ! j)) p} \<inter> set [i - k..<i + k + 1])"
    by (rule distinct_length_filter) simp
  finally show ?thesis by (auto intro!: arg_cong [where f = card])
qed

lemma only_one:
  assumes "f (cs ! i) \<noteq> NaN"
  shows "count_eq (window k i f cs) (f (cs ! i)) = 1 \<longleftrightarrow>
     (\<forall>j. i - k \<le> j \<and> j \<le> i + k \<and> j \<noteq> i \<longrightarrow> f (cs ! j) \<noteq> f (cs ! i))"
proof -
  define S where "S = {j. i - k \<le> j \<and> j \<le> i + k \<and> py_eq (f (cs ! j)) (f (cs ! i))}"
  have i: "i \<in> S" using assms by (simp add: S_def py_eq_def)
  then have "card S = 1 \<longleftrightarrow> S = {i}"
  proof (intro iffI)
    assume "card S = 1"
    then obtain x where "S = {x}" by (rule card_1_singletonE)
    with i show "S = {i}" by simp
  qed simp
  also have "\<dots> \<longleftrightarrow> (\<forall>j. i - k \<le> j \<and> j \<le> i + k \<and> j \<noteq> i \<longrightarrow> f (cs ! j) \<noteq> f (cs ! i))"
  proof -
    have "py_eq x y \<longleftrightarrow> x = y" if "y \<noteq> NaN" for x y using that by (auto simp: py_eq_def)
    then have "j \<in> S \<longleftrightarrow> i - k \<le> j \<and> j \<le> i + k \<and> f (cs ! j) = f (cs ! i)" for j
      using assms by (simp add: S_def)
    with i show ?thesis by blast
  qed
  finally show ?thesis by (simp add: count_window S_def)
qed

lemma window_set: "set (window k i f cs) = (\<lambda>j. f (cs ! j)) ` {i - k..i + k}"
  by (auto simp: window_def)

lemma pivot_high_iff:
  assumes "\<And>j. i - k \<le> j \<Longrightarrow> j \<le> i + k \<Longrightarrow> f (cs ! j) \<noteq> NaN"
  shows "py_eq (f (cs ! i)) (pymax_list (window k i f cs)) \<and> count_eq (window k i f cs) (f (cs ! i)) = 1
     \<longleftrightarrow> (\<forall>j. i - k \<le> j \<and> j \<le> i + k \<and> j \<noteq> i \<longrightarrow> f (cs ! j) < f (cs ! i))" (is "?M \<and> ?C \<longleftrightarrow> ?R")
proof -
  have nan: "NaN \<notin> set (window k i f cs)" using assms by (force simp: window_set)
  have ne: "window k i f cs \<noteq> []" using window_set [of k i f cs] by auto
  have i: "f (cs ! i) \<noteq> NaN" using assms [of i] by simp
  have all: "f (cs ! j) \<le> pymax_list (window k i f cs)" if "i - k \<le> j" "j \<le> i + k" for j
    using that nan by (intro pymax_list_ge) (auto simp: window_set)
  obtain m where m: "i - k \<le> m" "m \<le> i + k" "pymax_list (window k i f cs) = f (cs ! m)"
    using pymax_list_in [OF ne] by (auto simp: window_set)
  show ?thesis
  proof
    assume l: "?M \<and> ?C"
    show ?R
    proof (intro allI impI)
      fix j assume j: "i - k \<le> j \<and> j \<le> i + k \<and> j \<noteq> i"
      then have "f (cs ! j) \<noteq> f (cs ! i)" using l only_one [of f cs i k, OF i] by blast
      moreover have "f (cs ! j) \<le> f (cs ! i)" using all [of j] j l by (simp add: py_eq_def)
      ultimately show "f (cs ! j) < f (cs ! i)"
        using assms [of j] i j by (meson fle_antisym not_flt_iff)
    qed
  next
    assume r: ?R
    have "m = i" using r m all [of i] flt_not_fle by fastforce
    then have ?M using m i by (simp add: py_eq_def)
    moreover have ?C unfolding only_one [of f cs i k, OF i] using r by fastforce
    ultimately show "?M \<and> ?C" by blast
  qed
qed

subsection \<open>Properties\<close>

text \<open>C9: a swing high is reported at a bar exactly when that bar's high is strictly above every
  other high within \<open>swing_length\<close> bars on each side and all those bars exist: it is missed
  nowhere, invented nowhere, and carries that high and its confirmation bar.\<close>

theorem swing_high_iff_strict_maximum:
  assumes "1 \<le> k" and "\<forall>c \<in> set cs. c_high c \<noteq> NaN" and "detect_swings cs k = Inr swings"
  shows "(\<exists>s \<in> set swings. s_index s = i \<and> s_type s = HIGH \<and> s_price s = c_high (cs ! i)
            \<and> s_confirmed_index s = i + nat k)
     \<longleftrightarrow> nat k \<le> i \<and> i + nat k < length cs
       \<and> (\<forall>j. i - nat k \<le> j \<and> j \<le> i + nat k \<and> j \<noteq> i \<longrightarrow> c_high (cs ! j) < c_high (cs ! i))"
    (is "?L \<longleftrightarrow> ?B1 \<and> ?B2 \<and> ?R")
proof -
  have eq: "swings = label_swings None None (raw_swings (nat k) cs)"
    using assms(1,3) detect_swings_eq by simp
  let ?g = "\<lambda>s. (s_index s, s_confirmed_index s, s_time s, s_price s, s_type s)"
  have fields: "?g ` set swings = ?g ` set (raw_swings (nat k) cs)"
    using label_swings_fields [of None None "raw_swings (nat k) cs"] unfolding eq
    by (metis (no_types) list.set_map)
  have proj: "(\<exists>s \<in> set ss. s_index s = i \<and> s_type s = HIGH \<and> s_price s = c_high (cs ! i)
        \<and> s_confirmed_index s = i + nat k)
      \<longleftrightarrow> (\<exists>t \<in> ?g ` set ss. fst t = i \<and> fst (snd t) = i + nat k
             \<and> fst (snd (snd (snd t))) = c_high (cs ! i) \<and> snd (snd (snd (snd t))) = HIGH)" for ss
    by auto
  have "?L \<longleftrightarrow> (\<exists>s \<in> set (raw_swings (nat k) cs). s_index s = i \<and> s_type s = HIGH
      \<and> s_price s = c_high (cs ! i) \<and> s_confirmed_index s = i + nat k)"
    unfolding proj fields ..
  also have "\<dots> \<longleftrightarrow> nat k \<le> i \<and> i < length cs - nat k
      \<and> (\<exists>s \<in> set (swings_at (nat k) cs i). s_type s = HIGH)"
  proof -
    have "(s \<in> set (raw_swings (nat k) cs) \<and> s_index s = i \<and> s_type s = HIGH \<and> s_price s = c_high (cs ! i)
        \<and> s_confirmed_index s = i + nat k)
      \<longleftrightarrow> nat k \<le> i \<and> i < length cs - nat k \<and> s \<in> set (swings_at (nat k) cs i) \<and> s_type s = HIGH" for s
      unfolding raw_swings_mem
      using swings_at_index [of s "nat k" cs] swings_at_price [of s "nat k" cs i] by auto
    then show ?thesis by blast
  qed
  also have "\<dots> \<longleftrightarrow> nat k \<le> i \<and> i + nat k < length cs
      \<and> (\<exists>s \<in> set (swings_at (nat k) cs i). s_type s = HIGH)"
    by auto
  also have "\<dots> \<longleftrightarrow> ?B1 \<and> ?B2 \<and> ?R"
  proof (intro conj_cong refl)
    assume b: ?B1 ?B2
    have "c_high (cs ! j) \<noteq> NaN" if "j \<le> i + nat k" for j
      using that b(2) assms(2) by auto
    from pivot_high_iff [of i "nat k" c_high cs, OF this]
    show "(\<exists>s \<in> set (swings_at (nat k) cs i). s_type s = HIGH) \<longleftrightarrow> ?R"
      by (auto simp: swings_at_def swing_at_def Let_def)
  qed
  finally show ?thesis .
qed

definition demo_candle :: "int \<Rightarrow> rat \<Rightarrow> rat \<Rightarrow> candle" where
  "demo_candle m lo hi =
     \<lparr>c_time = \<lparr>dt_day = 739256, dt_us = m * us_per_minute, dt_offset = Some 0\<rparr>, c_open = Fin lo,
      c_high = Fin hi, c_low = Fin lo, c_close = Fin hi, c_volume = Fin 100\<rparr>"

definition demo_candles :: "candle list" where
  "demo_candles = [demo_candle 225 10 20, demo_candle 240 12 25, demo_candle 255 9 22,
     demo_candle 270 8 18, demo_candle 285 11 30]"

lemma swing_high_iff_strict_maximum_witness:
  "\<exists>swings. detect_swings demo_candles 1 = Inr swings
     \<and> (\<exists>s \<in> set swings. s_index s = 1 \<and> s_type s = HIGH \<and> s_price s = Fin 25)"
proof -
  have d: "detect_swings demo_candles 1
      = Inr (label_swings None None (raw_swings (nat 1) demo_candles))"
    by (rule detect_swings_eq) simp
  have nan: "\<forall>c \<in> set demo_candles. c_high c \<noteq> NaN"
    by (simp add: demo_candles_def demo_candle_def)
  have "c_high (demo_candles ! j) < c_high (demo_candles ! 1)" if "0 \<le> j" "j \<le> 2" "j \<noteq> 1" for j
    using that by (auto simp: demo_candles_def demo_candle_def le_Suc_eq numeral_2_eq_2)
  with swing_high_iff_strict_maximum [OF _ nan d, of 1] d show ?thesis
    by (auto simp: demo_candles_def demo_candle_def)
qed

lemma label_swings_confirmed:
  "s \<in> set (label_swings a b ss) \<Longrightarrow> \<exists>s' \<in> set ss. s_confirmed_index s' = s_confirmed_index s"
  by (induction a b ss rule: label_swings.induct) (auto split: if_splits)

text \<open>No look-ahead: whatever candles come later, the swings a decision at a bar may use
  (those confirmed by it) are exactly the swings detected on the history cut at that bar,
  labels included. Nothing reported is ever retracted or relabelled.\<close>

theorem visible_swings_need_no_future:
  assumes "detect_swings (xs @ ys) k = Inr full" and "detect_swings xs k = Inr now" and "xs \<noteq> []"
  shows "visible_swings full (length xs - 1) = now"
proof -
  have k: "1 \<le> k" using assms(1) by (simp add: detect_swings_def split: if_splits)
  let ?rest = "concat (map (swings_at (nat k) (xs @ ys))
      [max (nat k) (length xs - nat k)..<length (xs @ ys) - nat k])"
  obtain h l where full: "full = now @ label_swings h l ?rest"
    using assms(1,2) label_swings_append [of None None "raw_swings (nat k) xs" ?rest]
    by (auto simp: detect_swings_eq [OF k] raw_swings_split)
  have "s_confirmed_index s \<le> length xs - 1" if s: "s \<in> set now" for s
  proof -
    obtain s' where "s' \<in> set (raw_swings (nat k) xs)" "s_confirmed_index s' = s_confirmed_index s"
      using label_swings_confirmed [of s None None "raw_swings (nat k) xs"] s assms(2)
      by (auto simp: detect_swings_eq [OF k])
    then show ?thesis using swings_at_index [of s' "nat k" xs] by (auto simp: raw_swings_mem)
  qed
  moreover have "\<not> s_confirmed_index s \<le> length xs - 1" if s: "s \<in> set (label_swings h l ?rest)" for s
  proof -
    obtain s' where "s' \<in> set ?rest" "s_confirmed_index s' = s_confirmed_index s"
      using label_swings_confirmed [OF s] by blast
    then have "length xs \<le> s_confirmed_index s"
      using swings_at_index [of s' "nat k" "xs @ ys"] by auto
    moreover have "0 < length xs" using assms(3) by simp
    ultimately show ?thesis by linarith
  qed
  ultimately show ?thesis by (simp add: visible_swings_def full)
qed

lemma visible_swings_need_no_future_witness:
  "\<exists>full now. detect_swings demo_candles 1 = Inr full \<and> detect_swings (take 3 demo_candles) 1 = Inr now
     \<and> visible_swings full 2 = now"
proof -
  have split: "demo_candles = take 3 demo_candles @ drop 3 demo_candles" by simp
  obtain full now where d: "detect_swings (take 3 demo_candles @ drop 3 demo_candles) 1 = Inr full"
    "detect_swings (take 3 demo_candles) 1 = Inr now"
    using detect_swings_eq [of 1] by auto
  have "take 3 demo_candles \<noteq> []" "length (take 3 demo_candles) - 1 = 2"
    by (simp_all add: demo_candles_def)
  with visible_swings_need_no_future [OF d] d split show ?thesis by metis
qed

end
