(* ===== verification/Structure.thy ===== *)
theory Structure
  imports Swings
begin

text \<open>
  Market structure (\<open>smc/structure.py\<close>): breaks of structure, changes of character and their
  confirmed shifts. The loop over the candles is recursion on the list, with the swings not
  yet confirmed as a queue in place of the pointer into the sorted list.
\<close>

subsection \<open>Events\<close>

datatype structure_event_type = BOS | CHOCH | MSS

record structure_event =
  e_index :: nat
  e_time :: datetime
  e_type :: structure_event_type
  e_direction :: trend
  e_broken_swing_index :: nat
  e_broken_price :: pyfloat
  e_break_price :: pyfloat

record structure_state =
  st_trend :: "trend option"
  st_broken :: "nat set"
  st_highs :: "swing list"
  st_lows :: "swing list"
  st_queue :: "swing list"

text \<open>The \<open>while\<close> loop: every swing confirmed by this bar becomes visible.\<close>

definition reveal :: "nat \<Rightarrow> structure_state \<Rightarrow> structure_state" where
  "reveal i st =
     (let ready = takeWhile (\<lambda>s. s_confirmed_index s \<le> i) (st_queue st)
      in st\<lparr>st_highs := st_highs st @ filter (\<lambda>s. s_type s = HIGH) ready,
            st_lows := st_lows st @ filter (\<lambda>s. s_type s \<noteq> HIGH) ready,
            st_queue := dropWhile (\<lambda>s. s_confirmed_index s \<le> i) (st_queue st)\<rparr>)"

definition break_swing ::
  "trend \<Rightarrow> nat \<Rightarrow> candle \<Rightarrow> swing \<Rightarrow> structure_state \<Rightarrow> structure_event \<times> structure_state" where
  "break_swing dir i candle target st =
     (\<lparr>e_index = i, e_time = c_time candle,
       e_type = (if st_trend st \<in> {Some dir, None} then BOS else CHOCH),
       e_direction = dir, e_broken_swing_index = s_index target, e_broken_price = s_price target,
       e_break_price = c_close candle\<rparr>,
      st\<lparr>st_broken := insert (s_index target) (st_broken st), st_trend := Some dir\<rparr>)"

definition check_highs :: "nat \<Rightarrow> candle \<Rightarrow> structure_state \<Rightarrow> structure_event list \<times> structure_state" where
  "check_highs i candle st =
     (case last_opt (st_highs st) of
        None \<Rightarrow> ([], st)
      | Some target \<Rightarrow>
          if s_index target \<notin> st_broken st \<and> s_price target < c_close candle
          then (let (ev, st') = break_swing BULLISH i candle target st in ([ev], st'))
          else ([], st))"

definition check_lows :: "nat \<Rightarrow> candle \<Rightarrow> structure_state \<Rightarrow> structure_event list \<times> structure_state" where
  "check_lows i candle st =
     (case last_opt (st_lows st) of
        None \<Rightarrow> ([], st)
      | Some target \<Rightarrow>
          if s_index target \<notin> st_broken st \<and> c_close candle < s_price target
          then (let (ev, st') = break_swing BEARISH i candle target st in ([ev], st'))
          else ([], st))"

definition structure_step :: "nat \<Rightarrow> candle \<Rightarrow> structure_state \<Rightarrow> structure_event list \<times> structure_state" where
  "structure_step i candle st =
     (let (up, st1) = check_highs i candle (reveal i st);
          (down, st2) = check_lows i candle st1
      in (up @ down, st2))"

fun structure_loop :: "nat \<Rightarrow> structure_state \<Rightarrow> candle list \<Rightarrow> structure_event list" where
  "structure_loop i st [] = []"
| "structure_loop i st (c # cs) =
     (case structure_step i c st of (es, st') \<Rightarrow> es @ structure_loop (Suc i) st' cs)"

definition initial_structure :: "swing list \<Rightarrow> structure_state" where
  "initial_structure swings =
     \<lparr>st_trend = None, st_broken = {}, st_highs = [], st_lows = [],
      st_queue = sort_key s_confirmed_index swings\<rparr>"

definition detect_structure_events :: "candle list \<Rightarrow> swing list \<Rightarrow> structure_event list" where
  "detect_structure_events candles swings = structure_loop 0 (initial_structure swings) candles"

text \<open>\<open>promote_confirmed_shifts\<close>, with the pending CHoCH.\<close>

fun promote_from :: "structure_event option \<Rightarrow> structure_event list \<Rightarrow> structure_event list" where
  "promote_from pending [] = []"
| "promote_from pending (ev # rest) =
     (if e_type ev = CHOCH then promote_from (Some ev) rest
      else case pending of
             Some p \<Rightarrow>
               if e_type ev = BOS
               then (if e_direction ev = e_direction p
                     then ev\<lparr>e_type := MSS\<rparr> # promote_from None rest
                     else promote_from None rest)
               else promote_from pending rest
           | None \<Rightarrow> promote_from None rest)"

definition promote_confirmed_shifts :: "structure_event list \<Rightarrow> structure_event list" where
  "promote_confirmed_shifts events = promote_from None events"

subsection \<open>Look-ahead safety\<close>

lemma takeWhile_none: "\<forall>x \<in> set r. \<not> P x \<Longrightarrow> takeWhile P (q @ r) = takeWhile P q"
  by (induction q) (auto simp: takeWhile_eq_Nil_iff)

lemma dropWhile_none: "\<forall>x \<in> set r. \<not> P x \<Longrightarrow> dropWhile P (q @ r) = dropWhile P q @ r"
  by (induction q) (auto simp: dropWhile_eq_self_iff)

definition with_queue :: "swing list \<Rightarrow> structure_state \<Rightarrow> structure_state" where
  "with_queue r st = st\<lparr>st_queue := st_queue st @ r\<rparr>"

lemma with_queue_simps [simp]:
  "st_trend (with_queue r st) = st_trend st" "st_broken (with_queue r st) = st_broken st"
  "st_highs (with_queue r st) = st_highs st" "st_lows (with_queue r st) = st_lows st"
  by (simp_all add: with_queue_def)

lemma reveal_with_queue:
  "\<forall>s \<in> set r. i < s_confirmed_index s \<Longrightarrow> reveal i (with_queue r st) = with_queue r (reveal i st)"
  using takeWhile_none [of r "\<lambda>s. s_confirmed_index s \<le> i" "st_queue st"]
    dropWhile_none [of r "\<lambda>s. s_confirmed_index s \<le> i" "st_queue st"]
  by (simp add: reveal_def with_queue_def Let_def not_le)

lemma break_with_queue:
  "break_swing d i c t (with_queue r st) = map_prod id (with_queue r) (break_swing d i c t st)"
  by (simp add: break_swing_def with_queue_def)

lemma check_with_queue:
  "check_highs i c (with_queue r st) = map_prod id (with_queue r) (check_highs i c st)"
  "check_lows i c (with_queue r st) = map_prod id (with_queue r) (check_lows i c st)"
  by (auto simp: check_highs_def check_lows_def break_with_queue split: option.split prod.split)

lemma step_with_queue:
  assumes "\<forall>s \<in> set r. i < s_confirmed_index s"
  shows "structure_step i c (with_queue r st) = map_prod id (with_queue r) (structure_step i c st)"
  unfolding structure_step_def reveal_with_queue [OF assms] check_with_queue
  by (simp add: check_with_queue split: prod.split)

lemma structure_loop_extends:
  assumes "\<forall>s \<in> set r. i + length xs \<le> s_confirmed_index s"
  shows "is_prefix_of (structure_loop i st xs) (structure_loop i (with_queue r st) (xs @ ys))"
  using assms
proof (induction xs arbitrary: i st)
  case Nil
  then show ?case by (simp add: is_prefix_of_def)
next
  case (Cons c xs)
  obtain es st' where step: "structure_step i c st = (es, st')" by force
  have "\<forall>s \<in> set r. i < s_confirmed_index s" using Cons.prems by auto
  from step_with_queue [OF this, of c st] step
  have "structure_step i c (with_queue r st) = (es, with_queue r st')" by simp
  moreover have "is_prefix_of (structure_loop (Suc i) st' xs) (structure_loop (Suc i) (with_queue r st') (xs @ ys))"
    using Cons.IH [of "Suc i" st'] Cons.prems by auto
  ultimately show ?case using step by (auto simp: is_prefix_of_def)
qed

lemma swings_confirmed_sorted: "sorted (map s_confirmed_index (swings_of k cs))"
proof -
  have "sorted (map s_confirmed_index (concat (map (swings_at n cs) is)))" if "sorted is" for n "is"
    using that
  proof (induction "is")
    case (Cons i "is")
    have "sorted (map s_confirmed_index (swings_at n cs i))"
      by (auto simp: swings_at_def swing_at_def Let_def)
    with Cons swings_at_index show ?case by (fastforce simp: sorted_append)
  qed simp
  moreover have "map s_confirmed_index (label_swings a b ss) = map s_confirmed_index ss" for a b ss
    by (induction a b ss rule: label_swings.induct) auto
  ultimately show ?thesis by (simp add: swings_of_eq raw_swings_def)
qed

definition structure_of :: "int \<Rightarrow> candle list \<Rightarrow> structure_event list" where
  "structure_of k cs = detect_structure_events cs (swings_of k cs)"

lemma structure_of_eq:
  "structure_of k cs = structure_loop 0
     \<lparr>st_trend = None, st_broken = {}, st_highs = [], st_lows = [], st_queue = swings_of k cs\<rparr> cs"
  using swings_confirmed_sorted [of k cs]
  by (simp add: structure_of_def detect_structure_events_def initial_structure_def sort_key_id_if_sorted)

lemma swings_of_later:
  "\<exists>r. swings_of k (xs @ ys) = swings_of k xs @ r \<and> (\<forall>s \<in> set r. length xs \<le> s_confirmed_index s)"
proof (cases "k < 1")
  case True
  then show ?thesis by (simp add: swings_of_eq)
next
  case False
  let ?rest = "concat (map (swings_at (nat k) (xs @ ys))
      [max (nat k) (length xs - nat k)..<length (xs @ ys) - nat k])"
  obtain h l where "swings_of k (xs @ ys) = swings_of k xs @ label_swings h l ?rest"
    using False label_swings_append [of None None "raw_swings (nat k) xs" ?rest]
    by (auto simp: swings_of_eq raw_swings_split)
  moreover have "length xs \<le> s_confirmed_index s" if "s \<in> set (label_swings h l ?rest)" for s
    using label_swings_confirmed [OF that] swings_at_index [of _ "nat k" "xs @ ys"] by fastforce
  ultimately show ?thesis by blast
qed

lemma structure_of_extends: "is_prefix_of (structure_of k xs) (structure_of k (xs @ ys))"
proof -
  obtain r where r: "swings_of k (xs @ ys) = swings_of k xs @ r"
    "\<forall>s \<in> set r. length xs \<le> s_confirmed_index s"
    using swings_of_later by blast
  from structure_loop_extends [of r 0 xs "\<lparr>st_trend = None, st_broken = {}, st_highs = [],
      st_lows = [], st_queue = swings_of k xs\<rparr>" ys] r show ?thesis
    by (simp add: structure_of_eq with_queue_def)
qed

lemma promote_from_extends: "is_prefix_of us vs \<Longrightarrow> is_prefix_of (promote_from p us) (promote_from p vs)"
proof -
  have "\<exists>q. promote_from p (us @ zs) = promote_from p us @ promote_from q zs" for zs
    by (induction p us rule: promote_from.induct) (auto split: option.splits)
  then show "is_prefix_of us vs \<Longrightarrow> ?thesis" by (fastforce simp: is_prefix_of_def)
qed

interpretation structure_events: causal_stage "structure_of k" promote_confirmed_shifts
  by unfold_locales (simp_all add: structure_of_extends promote_confirmed_shifts_def promote_from_extends)

subsection \<open>What an event says\<close>

text \<open>Each event breaks its swing, and its type says whether it continues the last break.\<close>

fun breaks_from :: "trend option \<Rightarrow> structure_event list \<Rightarrow> bool" where
  "breaks_from t [] = True"
| "breaks_from t (ev # rest) =
     (e_type ev = (if t \<in> {None, Some (e_direction ev)} then BOS else CHOCH)
      \<and> (if e_direction ev = BULLISH then e_broken_price ev < e_break_price ev
         else e_break_price ev < e_broken_price ev)
      \<and> breaks_from (Some (e_direction ev)) rest)"

lemma breaks_from_append:
  "breaks_from t (us @ vs) \<longleftrightarrow> breaks_from t us
     \<and> breaks_from (if us = [] then t else Some (e_direction (last us))) vs"
  by (induction t us rule: breaks_from.induct) auto

lemma check_breaks:
  "check_highs i c st = (es, st') \<Longrightarrow>
     breaks_from (st_trend st) es \<and> st_trend st' = (if es = [] then st_trend st else Some (e_direction (last es)))"
  "check_lows i c st = (es, st') \<Longrightarrow>
     breaks_from (st_trend st) es \<and> st_trend st' = (if es = [] then st_trend st else Some (e_direction (last es)))"
  by (auto simp: check_highs_def check_lows_def break_swing_def split: option.splits if_splits)

lemma step_breaks:
  assumes "structure_step i c st = (es, st')"
  shows "breaks_from (st_trend st) es
     \<and> st_trend st' = (if es = [] then st_trend st else Some (e_direction (last es)))"
proof -
  obtain up st1 down where h: "check_highs i c (reveal i st) = (up, st1)"
    and l: "check_lows i c st1 = (down, st')" and es: "es = up @ down"
    using assms by (auto simp: structure_step_def split: prod.splits)
  have "st_trend (reveal i st) = st_trend st" by (simp add: reveal_def Let_def)
  with check_breaks(1) [OF h] check_breaks(2) [OF l] es show ?thesis
    by (auto simp: breaks_from_append)
qed

lemma loop_breaks: "breaks_from (st_trend st) (structure_loop i st cs)"
proof (induction i st cs rule: structure_loop.induct)
  case (2 i st c cs)
  obtain es st' where step: "structure_step i c st = (es, st')" by force
  from "2.IH" [of es st'] step_breaks [OF step] step show ?case by (simp add: breaks_from_append)
qed simp

text \<open>An MSS is a BOS directly after a CHoCH.\<close>

fun confirmations :: "structure_event option \<Rightarrow> structure_event list \<Rightarrow> structure_event list" where
  "confirmations prev [] = []"
| "confirmations prev (ev # rest) =
     (case prev of
        None \<Rightarrow> []
      | Some p \<Rightarrow> if e_type p = CHOCH \<and> e_type ev = BOS then [ev\<lparr>e_type := MSS\<rparr>] else [])
     @ confirmations (Some ev) rest"

lemma promote_is_confirmations:
  assumes "breaks_from t evs"
    and "p = None \<longrightarrow> (prev = None \<or> (\<exists>q. prev = Some q \<and> e_type q = BOS))"
    and "\<forall>q. p = Some q \<longrightarrow> e_type q = CHOCH \<and> prev = Some q \<and> t = Some (e_direction q)"
  shows "promote_from p evs = confirmations prev evs"
  using assms
proof (induction evs arbitrary: t p prev)
  case (Cons ev rest)
  have type: "e_type ev = (if t \<in> {None, Some (e_direction ev)} then BOS else CHOCH)"
    and rest: "breaks_from (Some (e_direction ev)) rest" using Cons.prems(1) by simp_all
  show ?case
  proof (cases "e_type ev = CHOCH")
    case True
    then have "promote_from (Some ev) rest = confirmations (Some ev) rest"
      by (intro Cons.IH [OF rest]) auto
    with True show ?thesis by (simp split: option.split)
  next
    case False
    then have bos: "e_type ev = BOS" using type by (simp split: if_splits)
    then have "promote_from None rest = confirmations (Some ev) rest"
      by (intro Cons.IH [OF rest]) auto
    with bos Cons.prems type show ?thesis by (cases p) (auto split: option.splits if_splits)
  qed
qed simp

subsection \<open>Properties\<close>

text \<open>Structure never repaints: the breaks of structure and the confirmed shifts reported
  on a history are a prefix of those reported when more candles have arrived; later candles
  only add events.\<close>

theorem structure_never_repaints:
  "is_prefix_of (structure_of k xs) (structure_of k (xs @ ys))
   \<and> is_prefix_of (promote_confirmed_shifts (structure_of k xs))
       (promote_confirmed_shifts (structure_of k (xs @ ys)))"
  using structure_events.extends structure_events.staged.extends by blast

text \<open>Every event is a real break, a close beyond the swing it names; it is a BOS when it
  continues the last break's direction or is the first, a CHoCH when it reverses it; and a
  confirmed shift is exactly a BOS that directly follows a CHoCH.\<close>

theorem structure_events_mean_breaks:
  "breaks_from None (detect_structure_events candles swings)
   \<and> promote_confirmed_shifts (detect_structure_events candles swings)
     = confirmations None (detect_structure_events candles swings)"
proof -
  have b: "breaks_from None (detect_structure_events candles swings)"
    using loop_breaks [of "initial_structure swings" 0 candles]
    by (simp add: detect_structure_events_def initial_structure_def)
  with promote_is_confirmations [OF b, of None None] show ?thesis
    by (simp add: promote_confirmed_shifts_def)
qed

definition outside_bar_candles :: "candle list" where
  "outside_bar_candles = [demo_candle 225 10 20, demo_candle 240 5 30, demo_candle 255 10 20,
     demo_candle 270 15 35,
     (demo_candle 285 3 25)\<lparr>c_close := Fin 3\<rparr>]"

text \<open>An outside bar hides a reversal: the set of broken swings holds bar indices, and one bar
  can be both a swing high and a swing low. Here the close at 35 breaks the high of bar 1;
  the later close at 3 is below the same bar's low of 5, the most recent swing low and never
  broken, and yet no CHoCH is reported.\<close>

theorem outside_bar_hides_break:
  "\<exists>swings. detect_swings outside_bar_candles 1 = Inr swings
     \<and> map (\<lambda>s. (s_index s, s_type s)) swings = [(1, HIGH), (1, LOW), (3, HIGH)]
     \<and> s_price (swings ! 1) = Fin 5 \<and> c_close (outside_bar_candles ! 4) < Fin 5
     \<and> map (\<lambda>e. (e_index e, e_type e, e_direction e)) (detect_structure_events outside_bar_candles swings)
         = [(3, BOS, BULLISH)]"
proof -
  have eq: "detect_swings outside_bar_candles 1
      = Inr (label_swings None None (raw_swings 1 outside_bar_candles))"
    using detect_swings_eq [of 1] by simp
  show ?thesis unfolding eq
    by (intro exI [of _ "label_swings None None (raw_swings 1 outside_bar_candles)"] conjI refl)
      code_simp+
qed

end
