(* ===== verification/Zones.thy ===== *)
theory Zones
  imports Structure
begin

text \<open>
  Price zones: fair value gaps (\<open>smc/fvg.py\<close>), order blocks (\<open>smc/order_blocks.py\<close>) and
  premium/discount (\<open>smc/premium_discount.py\<close>, \<open>PremiumDiscountZone\<close>). Both mitigation scans
  stop at the bar that settles a zone; \<open>full_scan\<close> is the scan that does not stop, against
  which the early exit is proved exact.
\<close>

subsection \<open>Fair value gaps\<close>

record fvg =
  g_direction :: trend
  g_top :: pyfloat
  g_bottom :: pyfloat
  g_created_index :: nat
  g_created_at :: datetime
  g_timeframe :: string
  g_mitigated :: bool
  g_invalidated :: bool
  g_filled_percentage :: pyfloat

definition zone_size :: "pyfloat \<Rightarrow> pyfloat \<Rightarrow> pyfloat" where
  "zone_size upper lower = pymax (upper - lower) (Fin 0)"

definition new_gap :: "trend \<Rightarrow> pyfloat \<Rightarrow> pyfloat \<Rightarrow> nat \<Rightarrow> datetime \<Rightarrow> string \<Rightarrow> fvg" where
  "new_gap dir upper lower i t tf =
     \<lparr>g_direction = dir, g_top = upper, g_bottom = lower, g_created_index = i, g_created_at = t,
      g_timeframe = tf, g_mitigated = False, g_invalidated = False, g_filled_percentage = Fin 0\<rparr>"

text \<open>One turn of the detection loop.\<close>

definition gaps_at :: "pyfloat \<Rightarrow> string \<Rightarrow> candle list \<Rightarrow> nat \<Rightarrow> fvg list" where
  "gaps_at min_gap_pct tf candles i =
     (let c0 = candles ! (i - 2); c2 = candles ! i; t = c_time (candles ! (i - 1))
      in (if c_high c0 < c_low c2 then
            (let size_pct = (if truthy (c_high c0)
                             then (c_low c2 - c_high c0) / c_high c0 * Fin 100 else Fin 0)
             in if min_gap_pct \<le> size_pct then [new_gap BULLISH (c_low c2) (c_high c0) i t tf] else [])
          else [])
         @ (if c_high c2 < c_low c0 then
              (let size_pct = (if truthy (c_high c2)
                               then (c_low c0 - c_high c2) / c_high c2 * Fin 100 else Fin 0)
               in if min_gap_pct \<le> size_pct then [new_gap BEARISH (c_low c0) (c_high c2) i t tf] else [])
            else []))"

definition raw_fvgs :: "pyfloat \<Rightarrow> string \<Rightarrow> candle list \<Rightarrow> fvg list" where
  "raw_fvgs min_gap_pct tf candles =
     concat (map (gaps_at min_gap_pct tf candles) [2..<length candles])"

text \<open>What one candle does to a zone: nothing when it does not overlap it, otherwise how deep it
  fills and whether it engulfs it.\<close>

definition touch :: "trend \<Rightarrow> pyfloat \<Rightarrow> pyfloat \<Rightarrow> candle \<Rightarrow> pyfloat \<times> bool \<Rightarrow> (pyfloat \<times> bool) option" where
  "touch dir upper lower candle st =
     (let overlap_high = pymin (c_high candle) upper;
          overlap_low = pymax (c_low candle) lower
      in if overlap_high \<le> overlap_low then None
         else
           let fill = (if dir = BULLISH then upper - overlap_low else overlap_high - lower)
           in Some (pymax (fst st) fill,
                    snd st \<or> (c_low candle \<le> lower \<and> upper \<le> c_high candle)))"

definition settled :: "pyfloat \<Rightarrow> pyfloat \<times> bool \<Rightarrow> bool" where
  "settled sz st \<longleftrightarrow> snd st \<or> (truthy sz \<and> sz \<le> fst st)"

text \<open>The scan, with the index of the bar that settled the zone.\<close>

fun zone_scan ::
  "trend \<Rightarrow> pyfloat \<Rightarrow> pyfloat \<Rightarrow> nat \<Rightarrow> pyfloat \<times> bool \<Rightarrow> candle list \<Rightarrow> (pyfloat \<times> bool) \<times> nat option" where
  "zone_scan dir upper lower i st [] = (st, None)"
| "zone_scan dir upper lower i st (c # cs) =
     (case touch dir upper lower c st of
        None \<Rightarrow> zone_scan dir upper lower (Suc i) st cs
      | Some st' \<Rightarrow>
          if settled (zone_size upper lower) st' then (st', Some i)
          else zone_scan dir upper lower (Suc i) st' cs)"

definition filled_of :: "pyfloat \<Rightarrow> pyfloat \<Rightarrow> pyfloat" where
  "filled_of sz deepest = (if truthy sz then pymin (deepest / sz) (Fin 1) else Fin 0)"

definition update_gap :: "candle list \<Rightarrow> fvg \<Rightarrow> fvg" where
  "update_gap candles g =
     (let (st, _) = zone_scan (g_direction g) (g_top g) (g_bottom g) (Suc (g_created_index g))
                      (Fin 0, g_invalidated g) (drop (Suc (g_created_index g)) candles);
          filled = filled_of (zone_size (g_top g) (g_bottom g)) (fst st)
      in g\<lparr>g_invalidated := snd st, g_filled_percentage := filled,
           g_mitigated := (Fin 1 \<le> filled \<or> snd st)\<rparr>)"

definition detect_fvgs :: "candle list \<Rightarrow> pyfloat \<Rightarrow> string \<Rightarrow> fvg list" where
  "detect_fvgs candles min_gap_pct tf = map (update_gap candles) (raw_fvgs min_gap_pct tf candles)"

subsection \<open>Order blocks\<close>

record order_block =
  b_direction :: trend
  b_top :: pyfloat
  b_bottom :: pyfloat
  b_created_index :: nat
  b_created_at :: datetime
  b_strength :: pyfloat
  b_caused_event_index :: nat
  b_mitigated :: bool
  b_mitigated_index :: "nat option"
  b_invalidated :: bool
  b_filled_percentage :: pyfloat

text \<open>\<open>candles[start:end] or candles[:end + 1]\<close>, averaged; 0.0 when that is empty too.\<close>

definition average_of :: "(candle \<Rightarrow> pyfloat) \<Rightarrow> candle list \<Rightarrow> nat \<Rightarrow> nat \<Rightarrow> pyfloat" where
  "average_of f candles end_index lookback =
     (let part = drop (end_index - lookback) (take end_index candles);
          window = (if part = [] then take (Suc end_index) candles else part)
      in if window = [] then Fin 0 else pysum (map f window) / of_len window)"

definition average_range :: "candle list \<Rightarrow> nat \<Rightarrow> pyfloat" where
  "average_range candles end_index = average_of (\<lambda>c. c_high c - c_low c) candles end_index 14"

definition average_volume :: "candle list \<Rightarrow> nat \<Rightarrow> pyfloat" where
  "average_volume candles end_index = average_of c_volume candles end_index 14"

definition or_tiny :: "pyfloat \<Rightarrow> pyfloat" where
  "or_tiny x = (if truthy x then x else rnd64 (1 / 10 ^ 9))"

text \<open>The last candle of the opposite colour, looking back from the break.\<close>

definition opposes :: "trend \<Rightarrow> candle \<Rightarrow> bool" where
  "opposes dir c = (if dir = BULLISH then c_close c < c_open c else c_open c < c_close c)"

definition origin_of :: "candle list \<Rightarrow> trend \<Rightarrow> nat \<Rightarrow> nat \<Rightarrow> nat option" where
  "origin_of candles dir index lookback =
     find (\<lambda>j. opposes dir (candles ! j)) (rev [index - lookback..<index])"

definition half_capped :: "pyfloat \<Rightarrow> pyfloat" where
  "half_capped x = pymin x (Fin 2) / Fin 2"

definition block_strength :: "candle list \<Rightarrow> fvg list \<Rightarrow> structure_event \<Rightarrow> pyfloat" where
  "block_strength candles fvgs ev =
     (let breakout = candles ! e_index ev;
          avg_range = or_tiny (average_range candles (e_index ev));
          displacement_score = half_capped ((c_high breakout - c_low breakout) / avg_range);
          has_adjacent_fvg = list_ex (\<lambda>g. g_direction g = e_direction ev
             \<and> e_index ev \<le> g_created_index g + 2 \<and> g_created_index g \<le> e_index ev + 2) fvgs;
          fvg_score = (if has_adjacent_fvg then Fin 1 else Fin 0);
          avg_volume = or_tiny (average_volume candles (e_index ev));
          volume_score = (if rnd64 (1 / 10 ^ 9) < avg_volume
                          then half_capped (c_volume breakout / avg_volume) else rnd64 (1 / 2))
      in pyround 4 (rnd64 (1 / 2) * displacement_score + rnd64 (3 / 10) * fvg_score
                      + rnd64 (2 / 10) * volume_score))"

definition block_of :: "candle list \<Rightarrow> fvg list \<Rightarrow> nat \<Rightarrow> structure_event \<Rightarrow> py_error + order_block list" where
  "block_of candles fvgs lookback ev =
     (if 0 < e_index ev \<and> 0 < lookback \<and> length candles < e_index ev then Inl IndexError
      else case origin_of candles (e_direction ev) (e_index ev) lookback of
             None \<Rightarrow> Inr []
           | Some j \<Rightarrow>
               if length candles \<le> e_index ev then Inl IndexError
               else Inr [\<lparr>b_direction = e_direction ev, b_top = c_high (candles ! j),
                          b_bottom = c_low (candles ! j), b_created_index = j,
                          b_created_at = c_time (candles ! j),
                          b_strength = block_strength candles fvgs ev,
                          b_caused_event_index = e_index ev, b_mitigated = False,
                          b_mitigated_index = None, b_invalidated = False,
                          b_filled_percentage = Fin 0\<rparr>])"

fun raw_blocks :: "candle list \<Rightarrow> fvg list \<Rightarrow> nat \<Rightarrow> structure_event list \<Rightarrow> py_error + order_block list" where
  "raw_blocks candles fvgs lookback [] = Inr []"
| "raw_blocks candles fvgs lookback (ev # rest) =
     bind_res (block_of candles fvgs lookback ev)
       (\<lambda>bs. bind_res (raw_blocks candles fvgs lookback rest) (\<lambda>rs. Inr (bs @ rs)))"

text \<open>The scan of a block the detection just made: its \<open>mitigated_index\<close> is still \<open>None\<close>.\<close>

definition update_block :: "candle list \<Rightarrow> order_block \<Rightarrow> order_block" where
  "update_block candles b =
     (let (st, hit) = zone_scan (b_direction b) (b_top b) (b_bottom b) (Suc (b_caused_event_index b))
                        (Fin 0, b_invalidated b) (drop (Suc (b_caused_event_index b)) candles);
          filled = filled_of (zone_size (b_top b) (b_bottom b)) (fst st);
          mitigated = (Fin 1 \<le> filled \<or> snd st)
      in b\<lparr>b_invalidated := snd st, b_filled_percentage := filled, b_mitigated := mitigated,
           b_mitigated_index := (if mitigated then hit else None)\<rparr>)"

definition detect_order_blocks ::
  "candle list \<Rightarrow> structure_event list \<Rightarrow> fvg list \<Rightarrow> nat \<Rightarrow> py_error + order_block list" where
  "detect_order_blocks candles events fvgs lookback =
     bind_res (raw_blocks candles fvgs lookback events) (\<lambda>bs. Inr (map (update_block candles) bs))"

subsection \<open>Premium and discount\<close>

record dealing_range =
  dr_high :: pyfloat
  dr_low :: pyfloat

definition midpoint :: "dealing_range \<Rightarrow> pyfloat" where
  "midpoint z = (dr_high z + dr_low z) / Fin 2"

definition zone_for :: "dealing_range \<Rightarrow> pyfloat \<Rightarrow> string" where
  "zone_for z price =
     (if midpoint z < price then ''PREMIUM''
      else if price < midpoint z then ''DISCOUNT'' else ''EQUILIBRIUM'')"

definition dealing_range_from_swings :: "swing list \<Rightarrow> dealing_range option" where
  "dealing_range_from_swings swings =
     (case (last_opt (filter (\<lambda>s. s_type s = HIGH) swings), last_opt (filter (\<lambda>s. s_type s = LOW) swings)) of
        (Some h, Some l) \<Rightarrow> Some \<lparr>dr_high = s_price h, dr_low = s_price l\<rparr>
      | _ \<Rightarrow> None)"

subsection \<open>Detection never looks ahead\<close>

lemma gaps_at_prefix: "i < length xs \<Longrightarrow> gaps_at m tf (xs @ ys) i = gaps_at m tf xs i"
proof -
  assume i: "i < length xs"
  have "(xs @ ys) ! i = xs ! i" "(xs @ ys) ! (i - 1) = xs ! (i - 1)" "(xs @ ys) ! (i - 2) = xs ! (i - 2)"
    using i by (simp_all add: nth_append)
  then show ?thesis by (simp only: gaps_at_def)
qed

lemma raw_fvgs_extends: "is_prefix_of (raw_fvgs m tf xs) (raw_fvgs m tf (xs @ ys))"
proof -
  have "[2..<length (xs @ ys)] = [2..<length xs] @ [max 2 (length xs)..<length (xs @ ys)]"
    using upt_add_eq_append [of 2 "length xs" "length ys"]
    by (cases "2 \<le> length xs") (auto simp: max_def)
  moreover have "map (gaps_at m tf (xs @ ys)) [2..<length xs] = map (gaps_at m tf xs) [2..<length xs]"
    by (auto intro!: gaps_at_prefix)
  ultimately show ?thesis
    unfolding raw_fvgs_def by (simp only: map_append concat_append is_prefix_of_append)
qed

interpretation fvgs: causal_detector "raw_fvgs m tf"
  by unfold_locales (rule raw_fvgs_extends)

subsection \<open>The early exit is exact\<close>

fun full_scan :: "trend \<Rightarrow> pyfloat \<Rightarrow> pyfloat \<Rightarrow> pyfloat \<times> bool \<Rightarrow> candle list \<Rightarrow> pyfloat \<times> bool" where
  "full_scan dir upper lower st [] = st"
| "full_scan dir upper lower st (c # cs) =
     full_scan dir upper lower (case touch dir upper lower c st of None \<Rightarrow> st | Some st' \<Rightarrow> st') cs"

definition finite_candle :: "candle \<Rightarrow> bool" where
  "finite_candle c \<longleftrightarrow> py_isfinite (c_high c) \<and> py_isfinite (c_low c)"

lemma py_isfinite_iff: "py_isfinite x \<longleftrightarrow> (\<exists>a. x = Fin a)"
  by (cases x) (auto simp: py_isfinite_def)

lemma fill_not_NaN:
  assumes "finite_candle c"
  shows "Fin u - pymax (c_low c) (Fin l) \<noteq> NaN" "pymin (c_high c) (Fin u) - Fin l \<noteq> NaN"
  using assms by (auto simp: finite_candle_def py_isfinite_iff pymax_def pymin_def)

lemma touch_grows:
  assumes "touch dir (Fin u) (Fin l) c st = Some st'" and "finite_candle c" and "fst st \<noteq> NaN"
  shows "fst st \<le> fst st' \<and> fst st' \<noteq> NaN \<and> (snd st \<longrightarrow> snd st')"
  using assms fill_not_NaN [OF assms(2), of u l]
  by (auto simp: touch_def Let_def pymax_ge pymax_not_NaN split: if_splits)

text \<open>A candle that engulfs the zone fills it in the same bar.\<close>

lemma engulf_fills:
  assumes "touch dir (Fin u) (Fin l) c st = Some st'" and "snd st'" and "\<not> snd st"
    and "finite_candle c" and "fst st \<noteq> NaN" and "l \<le> u"
  shows "zone_size (Fin u) (Fin l) \<le> fst st'"
proof -
  have eng: "c_low c \<le> Fin l" "Fin u \<le> c_high c" using assms(1-3)
    by (auto simp: touch_def Let_def split: if_splits)
  have "pymax (c_low c) (Fin l) = Fin l" "pymin (c_high c) (Fin u) = Fin u"
    using eng assms(4) by (auto simp: pymax_def pymin_def finite_candle_def py_isfinite_iff)
  then have "fst st' = pymax (fst st) (rnd64 (u - l))"
    using assms(1) by (auto simp: touch_def Let_def split: if_splits)
  moreover have "zone_size (Fin u) (Fin l) = rnd64 (u - l)"
    using assms(6) rnd64_nonneg [of "u - l"] flt_not_fle
    by (auto simp: zone_size_def pymax_def intro: fle_antisym flt_imp_fle)
  ultimately show ?thesis using assms(5) by (simp add: pymax_ge)
qed

lemma full_scan_grows:
  assumes "\<forall>c \<in> set cs. finite_candle c" and "fst st \<noteq> NaN"
  shows "fst st \<le> fst (full_scan dir (Fin u) (Fin l) st cs)
     \<and> fst (full_scan dir (Fin u) (Fin l) st cs) \<noteq> NaN
     \<and> (snd st \<longrightarrow> snd (full_scan dir (Fin u) (Fin l) st cs))"
  using assms
proof (induction cs arbitrary: st)
  case (Cons c cs)
  show ?case
  proof (cases "touch dir (Fin u) (Fin l) c st")
    case None
    with Cons show ?thesis by simp
  next
    case (Some st')
    have g: "fst st \<le> fst st'" "fst st' \<noteq> NaN" "snd st \<longrightarrow> snd st'"
      using touch_grows [OF Some] Cons.prems by auto
    then show ?thesis using Cons.IH [of st'] Cons.prems(1) Some fle_trans by auto
  qed
qed simp

text \<open>What a caller reads off the scan: the filled share and whether the zone is spent.\<close>

definition verdict :: "pyfloat \<Rightarrow> pyfloat \<times> bool \<Rightarrow> pyfloat \<times> bool" where
  "verdict sz st = (filled_of sz (fst st), Fin 1 \<le> filled_of sz (fst st) \<or> snd st)"

lemma filled_settled:
  assumes "sz = Fin s" "0 < s" "sz \<le> d"
  shows "filled_of sz d = Fin 1"
proof -
  have "Fin 1 \<le> d / sz"
  proof (cases d)
    case (Fin a)
    with assms have "1 \<le> a / s" by simp
    then have "rnd64 1 \<le> rnd64 (a / s)" by (rule rnd64_mono)
    with Fin assms show ?thesis by simp
  qed (use assms in \<open>auto simp: divide_pyfloat_def inf_of_def\<close>)
  then have "\<not> d / sz < Fin 1" using flt_not_fle by blast
  then show ?thesis using assms \<open>Fin 1 \<le> d / sz\<close>
    by (auto simp: filled_of_def truthy_def pymin_def intro: fle_antisym)
      (metis fle_not_NaN not_flt_iff fle_antisym)
qed

lemma zone_size_nonneg: "zone_size (Fin u) (Fin l) = Fin s \<Longrightarrow> 0 \<le> s"
  using rnd64_not_lt(1) by (auto simp: zone_size_def pymax_def split: if_splits)

lemma early_exit_verdict:
  assumes "\<forall>c \<in> set cs. finite_candle c" and "l \<le> u" and "zone_size (Fin u) (Fin l) = Fin s"
    and "fst st \<noteq> NaN" and "\<not> snd st"
  shows "verdict (Fin s) (fst (zone_scan dir (Fin u) (Fin l) i st cs))
       = verdict (Fin s) (full_scan dir (Fin u) (Fin l) st cs)"
  using assms
proof (induction cs arbitrary: st i)
  case (Cons c cs)
  show ?case
  proof (cases "touch dir (Fin u) (Fin l) c st")
    case None
    with Cons show ?thesis by simp
  next
    case (Some st')
    have c: "finite_candle c" using Cons.prems(1) by simp
    have g: "fst st' \<noteq> NaN" using touch_grows [OF Some c Cons.prems(4)] by simp
    let ?full = "full_scan dir (Fin u) (Fin l) st' cs"
    have f: "fst st' \<le> fst ?full" "snd st' \<longrightarrow> snd ?full"
      using full_scan_grows [of cs st' dir u l] Cons.prems(1) g by auto
    show ?thesis
    proof (cases "settled (Fin s) st'")
      case False
      then have "\<not> snd st'" by (simp add: settled_def)
      with Cons.IH [of st' "Suc i"] Cons.prems g False Some show ?thesis by simp
    next
      case True
      have "verdict (Fin s) st' = verdict (Fin s) ?full"
      proof (cases "s = 0")
        case True
        with \<open>settled (Fin s) st'\<close> f show ?thesis
          by (auto simp: verdict_def filled_of_def truthy_def settled_def)
      next
        case False
        then have s: "0 < s" using zone_size_nonneg [OF Cons.prems(3)] by simp
        have "Fin s \<le> fst st'"
        proof (cases "snd st'")
          case True
          from engulf_fills [OF Some True Cons.prems(5) c Cons.prems(4,2)] show ?thesis
            by (simp add: Cons.prems(3))
        next
          case False
          with \<open>settled (Fin s) st'\<close> show ?thesis by (simp add: settled_def)
        qed
        moreover from this f have "Fin s \<le> fst ?full" using fle_trans by blast
        ultimately show ?thesis using filled_settled [OF refl s] by (simp add: verdict_def)
      qed
      with True Some show ?thesis by (simp add: Cons.prems(3))
    qed
  qed
qed simp

lemma full_scan_append:
  "full_scan dir u l st (xs @ ys) = full_scan dir u l (full_scan dir u l st xs) ys"
  by (induction dir u l st xs rule: full_scan.induct) simp_all

lemma filled_mono:
  assumes "d \<le> d'" and "0 \<le> s"
  shows "filled_of (Fin s) d \<le> filled_of (Fin s) d'"
proof (cases "s = 0")
  case True
  then show ?thesis by (simp add: filled_of_def truthy_def)
next
  case False
  then have s: "0 < s" using assms(2) by simp
  have "d / Fin s \<le> d' / Fin s"
  proof (cases d; cases d')
    fix a b assume "d = Fin a" "d' = Fin b"
    with assms s show ?thesis by (simp add: rnd64_mono divide_right_mono)
  qed (use assms s in \<open>auto simp: divide_pyfloat_def inf_of_def\<close>)
  then have "pymin (d / Fin s) (Fin 1) \<le> pymin (d' / Fin s) (Fin 1)" by (rule pymin_mono) simp
  with s show ?thesis by (simp add: filled_of_def truthy_def)
qed

subsection \<open>Properties\<close>

definition gap_ok :: "fvg \<Rightarrow> bool" where
  "gap_ok g \<longleftrightarrow> (\<exists>u l. g_top g = Fin u \<and> g_bottom g = Fin l \<and> l \<le> u
     \<and> py_isfinite (zone_size (Fin u) (Fin l))) \<and> \<not> g_invalidated g"

lemma gap_okE:
  assumes "gap_ok g"
  obtains u l s where "g_top g = Fin u" "g_bottom g = Fin l" "l \<le> u"
    "zone_size (Fin u) (Fin l) = Fin s" "\<not> g_invalidated g"
  using assms by (auto simp: gap_ok_def py_isfinite_iff)

lemma update_gap_verdict:
  assumes "gap_ok g" and "\<forall>c \<in> set cs. finite_candle c"
  shows "(g_filled_percentage (update_gap cs g), g_mitigated (update_gap cs g))
     = verdict (zone_size (g_top g) (g_bottom g))
         (full_scan (g_direction g) (g_top g) (g_bottom g) (Fin 0, False)
            (drop (Suc (g_created_index g)) cs))"
proof -
  obtain u l s where g: "g_top g = Fin u" "g_bottom g = Fin l" "l \<le> u"
    "zone_size (Fin u) (Fin l) = Fin s" "\<not> g_invalidated g" using assms(1) by (rule gap_okE)
  have fin: "\<forall>c \<in> set (drop (Suc (g_created_index g)) cs). finite_candle c"
    using assms(2) in_set_dropD by fastforce
  have "(g_filled_percentage (update_gap cs g), g_mitigated (update_gap cs g))
      = verdict (Fin s) (fst (zone_scan (g_direction g) (Fin u) (Fin l) (Suc (g_created_index g))
          (Fin 0, False) (drop (Suc (g_created_index g)) cs)))"
    using g by (simp add: update_gap_def verdict_def Let_def split: prod.split)
  with early_exit_verdict [OF fin g(3,4), of "(Fin 0, False)"] g show ?thesis by simp
qed

text \<open>C10: stopping the mitigation scan at the bar that settles a gap changes nothing anyone
  reads: on finite prices the filled share and the mitigated flag are those of scanning the
  whole remaining history.\<close>

theorem mitigation_early_exit_exact:
  assumes "\<forall>c \<in> set cs. finite_candle c" and "\<not> g_invalidated g"
    and "g_top g = Fin u" and "g_bottom g = Fin l" and "l \<le> u" and "py_isfinite (zone_size (Fin u) (Fin l))"
  shows "g_filled_percentage (update_gap cs g)
       = filled_of (zone_size (Fin u) (Fin l))
           (fst (full_scan (g_direction g) (Fin u) (Fin l) (Fin 0, False) (drop (Suc (g_created_index g)) cs)))
     \<and> (g_mitigated (update_gap cs g) \<longleftrightarrow>
          Fin 1 \<le> g_filled_percentage (update_gap cs g)
          \<or> snd (full_scan (g_direction g) (Fin u) (Fin l) (Fin 0, False) (drop (Suc (g_created_index g)) cs)))"
proof -
  have "gap_ok g" using assms by (simp add: gap_ok_def)
  from update_gap_verdict [OF this assms(1)] assms(3,4) show ?thesis by (simp add: verdict_def)
qed

definition demo_gap :: fvg where
  "demo_gap = new_gap BULLISH (Fin 12) (Fin 10) 0 \<lparr>dt_day = 1, dt_us = 0, dt_offset = None\<rparr> []"

lemma mitigation_early_exit_exact_witness:
  "g_mitigated (update_gap [demo_candle 0 1 2, demo_candle 1 9 14, demo_candle 2 11 15] demo_gap)"
proof -
  have z: "zone_size (Fin 12) (Fin 10) = Fin 2" by code_simp
  have fin: "\<forall>c \<in> set [demo_candle 0 1 2, demo_candle 1 9 14, demo_candle 2 11 15]. finite_candle c"
    by (simp add: finite_candle_def demo_candle_def py_isfinite_def)
  have f: "full_scan BULLISH (Fin 12) (Fin 10) (Fin 0, False) [demo_candle 1 9 14, demo_candle 2 11 15]
      = (Fin 2, True)" by code_simp
  show ?thesis
    using mitigation_early_exit_exact [OF fin, of demo_gap 12 10] z f
    by (simp add: demo_gap_def new_gap_def py_isfinite_def)
qed

text \<open>A spent gap stays spent: as candles arrive the filled share never falls and a
  mitigated gap is never offered again.\<close>

theorem spent_gap_stays_spent:
  assumes "\<forall>c \<in> set (xs @ ys). finite_candle c" and "gap_ok g" and "g_created_index g < length xs"
  shows "g_filled_percentage (update_gap xs g) \<le> g_filled_percentage (update_gap (xs @ ys) g)
     \<and> (g_mitigated (update_gap xs g) \<longrightarrow> g_mitigated (update_gap (xs @ ys) g))"
proof -
  obtain u l s where g: "g_top g = Fin u" "g_bottom g = Fin l" "l \<le> u"
    "zone_size (Fin u) (Fin l) = Fin s" "\<not> g_invalidated g" using assms(2) by (rule gap_okE)
  let ?n = "Suc (g_created_index g)"
  let ?scan = "\<lambda>cs. full_scan (g_direction g) (Fin u) (Fin l) (Fin 0, False) (drop ?n cs)"
  have fin: "\<forall>c \<in> set xs. finite_candle c" using assms(1) by simp
  have "drop ?n (xs @ ys) = drop ?n xs @ ys" using assms(3) by simp
  then have app: "?scan (xs @ ys) = full_scan (g_direction g) (Fin u) (Fin l) (?scan xs) ys"
    by (simp add: full_scan_append)
  have fin_drop: "\<forall>c \<in> set (drop ?n xs). finite_candle c" using fin in_set_dropD by fastforce
  have "fst (?scan xs) \<noteq> NaN"
    using full_scan_grows [OF fin_drop, of "(Fin 0, False)"] by simp
  then have grow: "fst (?scan xs) \<le> fst (?scan (xs @ ys))" "snd (?scan xs) \<longrightarrow> snd (?scan (xs @ ys))"
    unfolding app using full_scan_grows [of ys "?scan xs" "g_direction g" u l] assms(1) by auto
  have "filled_of (Fin s) (fst (?scan xs)) \<le> filled_of (Fin s) (fst (?scan (xs @ ys)))"
    by (rule filled_mono [OF grow(1) zone_size_nonneg [OF g(4)]])
  then show ?thesis
    using update_gap_verdict [OF assms(2) fin] update_gap_verdict [OF assms(2,1)] g(1,2,4) grow(2) fle_trans
    by (auto simp: verdict_def)
qed

lemma spent_gap_stays_spent_witness:
  "g_mitigated (update_gap [demo_candle 0 1 2, demo_candle 1 9 14, demo_candle 2 30 35] demo_gap)"
proof -
  have z: "zone_size (Fin 12) (Fin 10) = Fin 2" by code_simp
  have ok: "gap_ok demo_gap"
    by (simp add: gap_ok_def demo_gap_def new_gap_def z py_isfinite_def)
  have m: "g_mitigated (update_gap [demo_candle 0 1 2, demo_candle 1 9 14] demo_gap)" by code_simp
  show ?thesis
    using spent_gap_stays_spent [of "[demo_candle 0 1 2, demo_candle 1 9 14]" "[demo_candle 2 30 35]" demo_gap]
      ok m
    by (simp add: finite_candle_def demo_candle_def py_isfinite_def demo_gap_def new_gap_def)
qed

end
