(* ===== verification/Liquidity.thy ===== *)
theory Liquidity
  imports Zones
begin

text \<open>
  Liquidity pools (\<open>smc/liquidity.py\<close>): equal highs and lows, previous-day and previous-week
  levels, and their sweeps. A day's key is its ordinal; a week's key is the number of its
  Monday-to-Sunday block, which names the same weeks as ISO (year, week): the code only tests
  keys for equality. Python sorts floats with \<open><\<close>; on prices that are numbers the stable sort
  is the one below.
\<close>

subsection \<open>Pools\<close>

datatype liquidity_side = BUY_SIDE | SELL_SIDE

fun side_value :: "liquidity_side \<Rightarrow> string" where
  "side_value BUY_SIDE = ''BUY_SIDE''"
| "side_value SELL_SIDE = ''SELL_SIDE''"

datatype liquidity_source =
    EQUAL_HIGHS | EQUAL_LOWS | PREVIOUS_DAY_HIGH | PREVIOUS_DAY_LOW | PREVIOUS_WEEK_HIGH
  | PREVIOUS_WEEK_LOW | SESSION_HIGH | SESSION_LOW

record pool =
  lp_side :: liquidity_side
  lp_source :: liquidity_source
  lp_price :: pyfloat
  lp_formed_index :: nat
  lp_formed_time :: datetime
  lp_members :: "nat list"
  lp_swept :: bool
  lp_swept_index :: "nat option"
  lp_swept_time :: "datetime option"
  lp_rejected :: bool

definition new_pool :: "liquidity_side \<Rightarrow> liquidity_source \<Rightarrow> pyfloat \<Rightarrow> nat \<Rightarrow> datetime \<Rightarrow> nat list \<Rightarrow> pool" where
  "new_pool side source price i t members =
     \<lparr>lp_side = side, lp_source = source, lp_price = price, lp_formed_index = i,
      lp_formed_time = t, lp_members = members, lp_swept = False, lp_swept_index = None,
      lp_swept_time = None, lp_rejected = False\<rparr>"

subsection \<open>Equal levels\<close>

text \<open>Stable insertion sort by price.\<close>

fun insert_price :: "swing \<Rightarrow> swing list \<Rightarrow> swing list" where
  "insert_price s [] = [s]"
| "insert_price s (x # xs) = (if s_price x < s_price s then x # insert_price s xs else s # x # xs)"

definition sort_by_price :: "swing list \<Rightarrow> swing list" where
  "sort_by_price ss = foldr insert_price ss []"

text \<open>\<open>bisect\<close> on a sorted list: how many entries lie below, and not above, a value.\<close>

definition bisect_left :: "pyfloat list \<Rightarrow> pyfloat \<Rightarrow> nat" where
  "bisect_left ps x = length (takeWhile (\<lambda>p. p < x) ps)"

definition bisect_right :: "pyfloat list \<Rightarrow> pyfloat \<Rightarrow> nat" where
  "bisect_right ps x = length (takeWhile (\<lambda>p. \<not> x < p) ps)"

definition level_tolerance :: "pyfloat \<Rightarrow> swing \<Rightarrow> pyfloat" where
  "level_tolerance tolerance_pct anchor = s_price anchor * (tolerance_pct / Fin 100)"

text \<open>The group of an anchor, searched in its price band.\<close>

definition level_group :: "swing list \<Rightarrow> nat list \<Rightarrow> pyfloat \<Rightarrow> swing \<Rightarrow> swing list" where
  "level_group candidates used tolerance_pct anchor =
     (let prices = map s_price candidates;
          tol = level_tolerance tolerance_pct anchor;
          lo = bisect_left prices (s_price anchor - tol) - 1;
          hi = min (length candidates) (bisect_right prices (s_price anchor + tol) + 1)
      in filter (\<lambda>s. s_index s \<notin> set used \<and> \<bar>s_price s - s_price anchor\<bar> \<le> tol)
           (drop lo (take hi candidates)))"

text \<open>\<open>max(grp, key=index)\<close>: the first of the largest.\<close>

definition last_member :: "swing list \<Rightarrow> swing" where
  "last_member grp = foldl (\<lambda>m s. if s_index m < s_index s then s else m) (hd grp) (tl grp)"

fun equal_levels ::
  "liquidity_side \<Rightarrow> liquidity_source \<Rightarrow> pyfloat \<Rightarrow> swing list \<Rightarrow> nat list \<Rightarrow> swing list \<Rightarrow> pool list" where
  "equal_levels side source tol candidates used [] = []"
| "equal_levels side source tol candidates used (anchor # rest) =
     (if s_index anchor \<in> set used then equal_levels side source tol candidates used rest
      else
        let grp = level_group candidates used tol anchor
        in if length grp < 2 then equal_levels side source tol candidates used rest
           else
             let final = last_member grp
             in new_pool side source (pysum (map s_price grp) / of_len grp)
                  (s_index final) (s_time final) (sort (map s_index grp))
                # equal_levels side source tol candidates (map s_index grp @ used) rest)"

definition detect_equal_levels :: "swing list \<Rightarrow> pyfloat \<Rightarrow> pool list" where
  "detect_equal_levels swings tol =
     (let highs = sort_by_price (filter (\<lambda>s. s_type s = HIGH) swings);
          lows = sort_by_price (filter (\<lambda>s. s_type s = LOW) swings)
      in equal_levels BUY_SIDE EQUAL_HIGHS tol highs [] highs
         @ equal_levels SELL_SIDE EQUAL_LOWS tol lows [] lows)"

subsection \<open>Session levels\<close>

datatype period = Day | Week

definition bucket_key :: "period \<Rightarrow> datetime \<Rightarrow> int" where
  "bucket_key p t = (case p of Day \<Rightarrow> dt_day t | Week \<Rightarrow> (dt_day t - 1) div 7)"

definition high_source :: "period \<Rightarrow> liquidity_source" where
  "high_source p = (case p of Day \<Rightarrow> PREVIOUS_DAY_HIGH | Week \<Rightarrow> PREVIOUS_WEEK_HIGH)"

definition low_source :: "period \<Rightarrow> liquidity_source" where
  "low_source p = (case p of Day \<Rightarrow> PREVIOUS_DAY_LOW | Week \<Rightarrow> PREVIOUS_WEEK_LOW)"

fun session_loop :: "period \<Rightarrow> nat \<Rightarrow> int \<Rightarrow> pyfloat \<Rightarrow> pyfloat \<Rightarrow> candle list \<Rightarrow> pool list" where
  "session_loop p i key hi lo [] = []"
| "session_loop p i key hi lo (c # cs) =
     (if bucket_key p (c_time c) \<noteq> key then
        new_pool BUY_SIDE (high_source p) hi i (c_time c) []
        # new_pool SELL_SIDE (low_source p) lo i (c_time c) []
        # session_loop p (Suc i) (bucket_key p (c_time c)) (c_high c) (c_low c) cs
      else session_loop p (Suc i) key (pymax hi (c_high c)) (pymin lo (c_low c)) cs)"

definition session_levels :: "period \<Rightarrow> candle list \<Rightarrow> pool list" where
  "session_levels p candles =
     (case candles of
        [] \<Rightarrow> []
      | c # _ \<Rightarrow> session_loop p 0 (bucket_key p (c_time c)) (c_high c) (c_low c) candles)"

definition detect_session_levels :: "candle list \<Rightarrow> string \<Rightarrow> py_error + pool list" where
  "detect_session_levels candles p =
     (if p = ''day'' then Inr (session_levels Day candles)
      else if p = ''week'' then Inr (session_levels Week candles)
      else Inl (ValueError (''period must be '' @ [CHR 0x27] @ ''day'' @ [CHR 0x27] @ '' or ''
                 @ [CHR 0x27] @ ''week'' @ [CHR 0x27])))"

subsection \<open>Sweeps\<close>

definition swept_at :: "nat \<Rightarrow> candle \<Rightarrow> pool \<Rightarrow> bool \<Rightarrow> pool" where
  "swept_at i c p rejected =
     p\<lparr>lp_swept := True, lp_swept_index := Some i, lp_swept_time := Some (c_time c),
       lp_rejected := rejected\<rparr>"

fun sweep_loop :: "nat \<Rightarrow> candle list \<Rightarrow> pool \<Rightarrow> pool" where
  "sweep_loop i [] p = p"
| "sweep_loop i (c # cs) p =
     (if i \<in> set (lp_members p) then sweep_loop (Suc i) cs p
      else if lp_side p = BUY_SIDE \<and> lp_price p < c_high c
      then swept_at i c p (c_close c < lp_price p)
      else if lp_side p = SELL_SIDE \<and> c_low c < lp_price p
      then swept_at i c p (lp_price p < c_close c)
      else sweep_loop (Suc i) cs p)"

definition detect_sweeps :: "candle list \<Rightarrow> pool list \<Rightarrow> pool list" where
  "detect_sweeps candles pools =
     map (\<lambda>p. sweep_loop (lp_formed_index p) (drop (lp_formed_index p) candles) p) pools"

subsection \<open>Lemmas\<close>

lemma session_loop_extends:
  "is_prefix_of (session_loop p i key hi lo xs) (session_loop p i key hi lo (xs @ ys))"
  by (induction p i key hi lo xs rule: session_loop.induct) (auto simp: is_prefix_of_def)

lemma session_levels_extends: "is_prefix_of (session_levels p xs) (session_levels p (xs @ ys))"
proof (cases xs)
  case Nil
  then show ?thesis by (simp add: session_levels_def is_prefix_of_def)
next
  case (Cons c cs)
  have "session_levels p (xs @ ys) = session_loop p 0 (bucket_key p (c_time c)) (c_high c) (c_low c) (xs @ ys)"
    by (simp add: session_levels_def Cons)
  moreover have "session_levels p xs = session_loop p 0 (bucket_key p (c_time c)) (c_high c) (c_low c) xs"
    by (simp add: session_levels_def Cons)
  ultimately show ?thesis by (simp only: session_loop_extends)
qed

interpretation sessions: causal_detector "session_levels p"
  by unfold_locales (rule session_levels_extends)

definition crosses :: "pool \<Rightarrow> candle \<Rightarrow> bool" where
  "crosses p c \<longleftrightarrow> (if lp_side p = BUY_SIDE then lp_price p < c_high c else c_low c < lp_price p)"

lemma sweep_loop_spec:
  assumes "\<not> lp_swept p"
  shows "(lp_swept (sweep_loop i cs p) \<longleftrightarrow>
            (\<exists>n < length cs. i + n \<notin> set (lp_members p) \<and> crosses p (cs ! n)))
     \<and> (\<forall>n. n < length cs \<and> i + n \<notin> set (lp_members p) \<and> crosses p (cs ! n)
           \<and> (\<forall>m < n. \<not> (i + m \<notin> set (lp_members p) \<and> crosses p (cs ! m))) \<longrightarrow>
          lp_swept_index (sweep_loop i cs p) = Some (i + n)
          \<and> (lp_rejected (sweep_loop i cs p) \<longleftrightarrow>
               (if lp_side p = BUY_SIDE then c_close (cs ! n) < lp_price p else lp_price p < c_close (cs ! n))))"
  using assms
proof (induction i cs p rule: sweep_loop.induct)
  case (2 i c cs p)
  let ?hit = "i \<notin> set (lp_members p) \<and> crosses p c"
  have ex: "(\<exists>n < length (c # cs). i + n \<notin> set (lp_members p) \<and> crosses p ((c # cs) ! n)) \<longleftrightarrow>
      ?hit \<or> (\<exists>n < length cs. Suc i + n \<notin> set (lp_members p) \<and> crosses p (cs ! n))"
    by (auto simp: less_Suc_eq_0_disj nth_Cons')
  show ?case
  proof (cases ?hit)
    case True
    then have step: "sweep_loop i (c # cs) p = swept_at i c p
        (if lp_side p = BUY_SIDE then c_close c < lp_price p else lp_price p < c_close c)"
      by (cases "lp_side p") (auto simp: crosses_def)
    have zero: "n = 0" if "\<forall>m < n. \<not> (i + m \<notin> set (lp_members p) \<and> crosses p ((c # cs) ! m))" for n
      using that True by (cases n) auto
    show ?thesis unfolding step ex
    proof (intro conjI allI impI)
      show "lp_swept (swept_at i c p
          (if lp_side p = BUY_SIDE then c_close c < lp_price p else lp_price p < c_close c))
        \<longleftrightarrow> ?hit \<or> (\<exists>n < length cs. Suc i + n \<notin> set (lp_members p) \<and> crosses p (cs ! n))"
        using True by (simp add: swept_at_def)
    next
      fix n
      assume n: "n < length (c # cs) \<and> i + n \<notin> set (lp_members p) \<and> crosses p ((c # cs) ! n)
         \<and> (\<forall>m < n. \<not> (i + m \<notin> set (lp_members p) \<and> crosses p ((c # cs) ! m)))"
      then have "n = 0" using zero by blast
      then show "lp_swept_index (swept_at i c p
          (if lp_side p = BUY_SIDE then c_close c < lp_price p else lp_price p < c_close c)) = Some (i + n)"
        "lp_rejected (swept_at i c p
          (if lp_side p = BUY_SIDE then c_close c < lp_price p else lp_price p < c_close c))
         \<longleftrightarrow> (if lp_side p = BUY_SIDE then c_close ((c # cs) ! n) < lp_price p
              else lp_price p < c_close ((c # cs) ! n))"
        by (simp_all add: swept_at_def)
    qed
  next
    case False
    then have step: "sweep_loop i (c # cs) p = sweep_loop (Suc i) cs p"
      by (cases "lp_side p") (auto simp: crosses_def)
    have ih: "(lp_swept (sweep_loop (Suc i) cs p) \<longleftrightarrow>
            (\<exists>n < length cs. Suc i + n \<notin> set (lp_members p) \<and> crosses p (cs ! n)))
     \<and> (\<forall>n. n < length cs \<and> Suc i + n \<notin> set (lp_members p) \<and> crosses p (cs ! n)
           \<and> (\<forall>m < n. \<not> (Suc i + m \<notin> set (lp_members p) \<and> crosses p (cs ! m))) \<longrightarrow>
          lp_swept_index (sweep_loop (Suc i) cs p) = Some (Suc i + n)
          \<and> (lp_rejected (sweep_loop (Suc i) cs p) \<longleftrightarrow>
               (if lp_side p = BUY_SIDE then c_close (cs ! n) < lp_price p else lp_price p < c_close (cs ! n))))"
      using 2 False by (cases "i \<in> set (lp_members p)"; cases "lp_side p") (simp_all add: crosses_def)
    show ?thesis unfolding step ex
    proof (intro conjI allI impI)
      show "lp_swept (sweep_loop (Suc i) cs p) \<longleftrightarrow>
          ?hit \<or> (\<exists>n < length cs. Suc i + n \<notin> set (lp_members p) \<and> crosses p (cs ! n))"
        using ih False by blast
    next
      fix n
      assume n: "n < length (c # cs) \<and> i + n \<notin> set (lp_members p) \<and> crosses p ((c # cs) ! n)
         \<and> (\<forall>m < n. \<not> (i + m \<notin> set (lp_members p) \<and> crosses p ((c # cs) ! m)))"
      then obtain k where k: "n = Suc k" using False by (cases n) auto
      have "\<forall>m < k. \<not> (Suc i + m \<notin> set (lp_members p) \<and> crosses p (cs ! m))"
        using n k by (metis Suc_mono add_Suc_right add_Suc nth_Cons_Suc)
      with n k ih show "lp_swept_index (sweep_loop (Suc i) cs p) = Some (i + n)"
        "lp_rejected (sweep_loop (Suc i) cs p) \<longleftrightarrow>
           (if lp_side p = BUY_SIDE then c_close ((c # cs) ! n) < lp_price p
            else lp_price p < c_close ((c # cs) ! n))"
        by auto
    qed
  qed
qed simp

subsection \<open>Properties\<close>

text \<open>C11: a pool is swept exactly when some later bar that is not one of its own swings trades
  through its level, the sweep is pinned to the first such bar, and it counts as a rejection
  exactly when that bar closes back on the origin side. The opening bar of the next session
  counts for a previous-day level.\<close>

theorem sweep_is_first_crossing:
  assumes "\<not> lp_swept p" and "lp_formed_index p \<le> length cs"
    and "p' = sweep_loop (lp_formed_index p) (drop (lp_formed_index p) cs) p"
  shows "(lp_swept p' \<longleftrightarrow> (\<exists>i. lp_formed_index p \<le> i \<and> i < length cs \<and> i \<notin> set (lp_members p)
                             \<and> crosses p (cs ! i)))
     \<and> (\<forall>i. lp_formed_index p \<le> i \<and> i < length cs \<and> i \<notin> set (lp_members p) \<and> crosses p (cs ! i)
           \<and> (\<forall>j. lp_formed_index p \<le> j \<and> j < i \<longrightarrow> j \<in> set (lp_members p) \<or> \<not> crosses p (cs ! j)) \<longrightarrow>
          lp_swept_index p' = Some i
          \<and> (lp_rejected p' \<longleftrightarrow> (if lp_side p = BUY_SIDE then c_close (cs ! i) < lp_price p
                                else lp_price p < c_close (cs ! i))))"
proof -
  let ?f = "lp_formed_index p"
  have nth: "drop ?f cs ! n = cs ! (?f + n)" for n using assms(2) by simp
  have spec: "(lp_swept p' \<longleftrightarrow>
            (\<exists>n < length cs - ?f. ?f + n \<notin> set (lp_members p) \<and> crosses p (cs ! (?f + n))))
     \<and> (\<forall>n. n < length cs - ?f \<and> ?f + n \<notin> set (lp_members p) \<and> crosses p (cs ! (?f + n))
           \<and> (\<forall>m < n. \<not> (?f + m \<notin> set (lp_members p) \<and> crosses p (cs ! (?f + m)))) \<longrightarrow>
          lp_swept_index p' = Some (?f + n)
          \<and> (lp_rejected p' \<longleftrightarrow> (if lp_side p = BUY_SIDE then c_close (cs ! (?f + n)) < lp_price p
                                else lp_price p < c_close (cs ! (?f + n)))))"
    using sweep_loop_spec [OF assms(1), of ?f "drop ?f cs"] unfolding nth assms(3) [symmetric] by simp
  show ?thesis
  proof (intro conjI allI impI)
    show "lp_swept p' \<longleftrightarrow> (\<exists>i. ?f \<le> i \<and> i < length cs \<and> i \<notin> set (lp_members p) \<and> crosses p (cs ! i))"
    proof -
      have "(\<exists>i. ?f \<le> i \<and> i < length cs \<and> i \<notin> set (lp_members p) \<and> crosses p (cs ! i)) \<longleftrightarrow>
          (\<exists>n < length cs - ?f. ?f + n \<notin> set (lp_members p) \<and> crosses p (cs ! (?f + n)))"
        by (metis add.commute le_add1 le_add_diff_inverse less_diff_conv)
      with spec show ?thesis by blast
    qed
  next
    fix i
    assume i: "?f \<le> i \<and> i < length cs \<and> i \<notin> set (lp_members p) \<and> crosses p (cs ! i)
           \<and> (\<forall>j. ?f \<le> j \<and> j < i \<longrightarrow> j \<in> set (lp_members p) \<or> \<not> crosses p (cs ! j))"
    define n where "n = i - ?f"
    have n: "i = ?f + n" "n < length cs - ?f" using i by (auto simp: n_def)
    have "\<forall>m < n. \<not> (?f + m \<notin> set (lp_members p) \<and> crosses p (cs ! (?f + m)))"
      using i n by auto
    with spec n i have "lp_swept_index p' = Some (?f + n) \<and> (lp_rejected p' \<longleftrightarrow>
        (if lp_side p = BUY_SIDE then c_close (cs ! (?f + n)) < lp_price p
         else lp_price p < c_close (cs ! (?f + n))))" by blast
    with n show "lp_swept_index p' = Some i"
      "lp_rejected p' \<longleftrightarrow> (if lp_side p = BUY_SIDE then c_close (cs ! i) < lp_price p
                          else lp_price p < c_close (cs ! i))" by simp_all
  qed
qed

lemma sweep_is_first_crossing_witness:
  "let p = new_pool BUY_SIDE PREVIOUS_DAY_HIGH (Fin 20) 1 \<lparr>dt_day = 1, dt_us = 0, dt_offset = None\<rparr> [];
       cs = [demo_candle 0 10 20, (demo_candle 1 12 25)\<lparr>c_close := Fin 15\<rparr>];
       p' = sweep_loop (lp_formed_index p) (drop (lp_formed_index p) cs) p
   in lp_swept_index p' = Some 1 \<and> lp_rejected p'"
proof -
  let ?p = "new_pool BUY_SIDE PREVIOUS_DAY_HIGH (Fin 20) 1 \<lparr>dt_day = 1, dt_us = 0, dt_offset = None\<rparr> []"
  let ?cs = "[demo_candle 0 10 20, (demo_candle 1 12 25)\<lparr>c_close := Fin 15\<rparr>]"
  have s: "\<not> lp_swept ?p" "lp_formed_index ?p \<le> length ?cs"
    by (simp_all add: new_pool_def)
  from sweep_is_first_crossing [OF s refl] show ?thesis
    by (auto simp: Let_def new_pool_def crosses_def demo_candle_def dest!: spec [of _ 1])
qed

end
