(* ===== verification/SmcEngine.thy ===== *)
theory SmcEngine
  imports Liquidity
begin

text \<open>
  The SMC engine (\<open>smc/engine.py\<close>): one pass composing swings, structure, liquidity, gaps,
  order blocks and the dealing range into a context.
\<close>

subsection \<open>Configuration and context\<close>

record smc_config =
  sc_swing_length :: int
  sc_equal_level_tolerance_pct :: pyfloat
  sc_fvg_min_gap_pct :: pyfloat
  sc_order_block_lookback :: nat
  sc_detect_daily_levels :: bool
  sc_detect_weekly_levels :: bool

definition default_smc_config :: smc_config where
  "default_smc_config =
     \<lparr>sc_swing_length = 3, sc_equal_level_tolerance_pct = rnd64 (5 / 100),
      sc_fvg_min_gap_pct = Fin 0, sc_order_block_lookback = 10, sc_detect_daily_levels = True,
      sc_detect_weekly_levels = True\<rparr>"

record smc_context =
  cx_swings :: "swing list"
  cx_structure_events :: "structure_event list"
  cx_mss_events :: "structure_event list"
  cx_liquidity_pools :: "pool list"
  cx_fair_value_gaps :: "fvg list"
  cx_order_blocks :: "order_block list"
  cx_dealing_range :: "dealing_range option"
  cx_current_price :: "pyfloat option"
  cx_current_zone :: "string option"

definition bias :: "smc_context \<Rightarrow> string option" where
  "bias cx = map_option (\<lambda>ev. trend_value (e_direction ev)) (last_opt (cx_structure_events cx))"

text \<open>The queries take the direction or side as the string the enumeration's value is compared
  with; any other string matches nothing.\<close>

definition unmitigated_fvgs :: "smc_context \<Rightarrow> string option \<Rightarrow> fvg list" where
  "unmitigated_fvgs cx dir =
     filter (\<lambda>g. \<not> g_mitigated g \<and> (dir = None \<or> dir = Some (trend_value (g_direction g))))
       (cx_fair_value_gaps cx)"

definition active_order_blocks :: "smc_context \<Rightarrow> string option \<Rightarrow> order_block list" where
  "active_order_blocks cx dir =
     filter (\<lambda>b. \<not> b_mitigated b \<and> (dir = None \<or> dir = Some (trend_value (b_direction b))))
       (cx_order_blocks cx)"

definition recent_sweeps :: "smc_context \<Rightarrow> string option \<Rightarrow> pool list" where
  "recent_sweeps cx side =
     filter (\<lambda>p. lp_swept p \<and> (side = None \<or> side = Some (side_value (lp_side p))))
       (cx_liquidity_pools cx)"

subsection \<open>The pass\<close>

definition all_pools :: "smc_config \<Rightarrow> candle list \<Rightarrow> swing list \<Rightarrow> pool list" where
  "all_pools cfg candles swings =
     detect_equal_levels swings (sc_equal_level_tolerance_pct cfg)
     @ (if sc_detect_daily_levels cfg then session_levels Day candles else [])
     @ (if sc_detect_weekly_levels cfg then session_levels Week candles else [])"

definition analyze :: "smc_config \<Rightarrow> candle list \<Rightarrow> py_error + smc_context" where
  "analyze cfg candles =
     bind_res (detect_swings candles (sc_swing_length cfg)) (\<lambda>swings.
       let events = detect_structure_events candles swings;
           mss = promote_confirmed_shifts events;
           pools = detect_sweeps candles (all_pools cfg candles swings);
           fvgs = detect_fvgs candles (sc_fvg_min_gap_pct cfg) []
       in bind_res (detect_order_blocks candles events fvgs (sc_order_block_lookback cfg)) (\<lambda>blocks.
            let range = dealing_range_from_swings swings;
                price = map_option c_close (last_opt candles)
            in Inr \<lparr>cx_swings = swings, cx_structure_events = events, cx_mss_events = mss,
                    cx_liquidity_pools = pools, cx_fair_value_gaps = fvgs, cx_order_blocks = blocks,
                    cx_dealing_range = range, cx_current_price = price,
                    cx_current_zone = (case (range, price) of
                        (Some z, Some x) \<Rightarrow> Some (zone_for z x) | _ \<Rightarrow> None)\<rparr>))"

subsection \<open>The pass returns\<close>

lemma structure_loop_index: "ev \<in> set (structure_loop i st cs) \<Longrightarrow> i \<le> e_index ev \<and> e_index ev < i + length cs"
proof (induction i st cs rule: structure_loop.induct)
  case (2 i st c cs)
  obtain es st' where step: "structure_step i c st = (es, st')" by force
  have "\<forall>ev \<in> set es. e_index ev = i"
    using step by (auto simp: structure_step_def check_highs_def check_lows_def break_swing_def
        split: prod.splits option.splits if_splits)
  with "2.prems" "2.IH" [of es st'] step show ?case by fastforce
qed simp

lemma raw_blocks_total:
  "\<forall>ev \<in> set evs. e_index ev < length cs \<Longrightarrow> \<exists>bs. raw_blocks cs fvgs lb evs = Inr bs"
proof (induction evs)
  case (Cons ev evs)
  then have "\<exists>b. block_of cs fvgs lb ev = Inr b" "\<exists>bs. raw_blocks cs fvgs lb evs = Inr bs"
    by (auto simp: block_of_def split: option.split)
  then show ?case by auto
qed simp

lemma analyze_total:
  assumes "1 \<le> sc_swing_length cfg"
  shows "\<exists>cx. analyze cfg cs = Inr cx \<and> cx_swings cx = swings_of (sc_swing_length cfg) cs
     \<and> cx_structure_events cx = structure_of (sc_swing_length cfg) cs
     \<and> cx_mss_events cx = promote_confirmed_shifts (structure_of (sc_swing_length cfg) cs)
     \<and> cx_fair_value_gaps cx = map (update_gap cs) (raw_fvgs (sc_fvg_min_gap_pct cfg) [] cs)"
proof -
  obtain swings where sw: "detect_swings cs (sc_swing_length cfg) = Inr swings"
    using detect_swings_eq [OF assms] by blast
  then have of: "swings_of (sc_swing_length cfg) cs = swings" by (simp add: swings_of_def)
  have "\<forall>ev \<in> set (detect_structure_events cs swings). e_index ev < length cs"
    using structure_loop_index by (fastforce simp: detect_structure_events_def)
  then obtain bs where bs: "raw_blocks cs (detect_fvgs cs (sc_fvg_min_gap_pct cfg) [])
      (sc_order_block_lookback cfg) (detect_structure_events cs swings) = Inr bs"
    using raw_blocks_total by blast
  show ?thesis
    by (simp add: analyze_def Let_def detect_order_blocks_def structure_of_def sw of bs)
      (simp add: detect_fvgs_def)
qed

subsection \<open>Properties\<close>

definition gap_identity :: "fvg \<Rightarrow> trend \<times> pyfloat \<times> pyfloat \<times> nat \<times> datetime" where
  "gap_identity g = (g_direction g, g_top g, g_bottom g, g_created_index g, g_created_at g)"



end
