(* ===== verification/Ict.thy ===== *)
theory Ict
  imports Candles
begin

text \<open>
  The ICT engine (\<open>ict/killzones.py\<close>, \<open>ict/opening_range.py\<close>, \<open>ict/engine.py\<close>): kill zones by
  the UTC hour of the last candle and the opening range of each session. Two datetimes are
  compared by instant; comparing a naive one with an aware one is Python's \<open>TypeError\<close>.
\<close>

subsection \<open>Kill zones\<close>

record kill_zone =
  kz_name :: string
  kz_start_hour_utc :: pyfloat
  kz_end_hour_utc :: pyfloat

definition zone_contains :: "kill_zone \<Rightarrow> pyfloat \<Rightarrow> bool" where
  "zone_contains z hour_utc =
     (if kz_start_hour_utc z \<le> kz_end_hour_utc z
      then kz_start_hour_utc z \<le> hour_utc \<and> hour_utc < kz_end_hour_utc z
      else kz_start_hour_utc z \<le> hour_utc \<or> hour_utc < kz_end_hour_utc z)"

definition default_kill_zones :: "kill_zone list" where
  "default_kill_zones =
     [\<lparr>kz_name = ''ASIAN'', kz_start_hour_utc = Fin 0, kz_end_hour_utc = Fin 4\<rparr>,
      \<lparr>kz_name = ''LONDON'', kz_start_hour_utc = Fin 7, kz_end_hour_utc = Fin 10\<rparr>,
      \<lparr>kz_name = ''NEW_YORK'', kz_start_hour_utc = Fin 12, kz_end_hour_utc = Fin 15\<rparr>,
      \<lparr>kz_name = ''LONDON_CLOSE'', kz_start_hour_utc = Fin 15, kz_end_hour_utc = Fin 16\<rparr>]"

text \<open>\<open>utc.hour + utc.minute / 60\<close>\<close>

definition utc_hour :: "datetime \<Rightarrow> pyfloat" where
  "utc_hour t =
     (let us = instant t mod us_per_day;
          hour = us div (60 * us_per_minute);
          minute = us div us_per_minute mod 60
      in Fin (of_int hour) + rnd64 (of_int minute / 60))"

definition active_kill_zones :: "candle \<Rightarrow> kill_zone list option \<Rightarrow> string list" where
  "active_kill_zones c zones =
     (let zs = (case zones of None \<Rightarrow> default_kill_zones | Some z \<Rightarrow> z)
      in map kz_name (filter (\<lambda>z. zone_contains z (utc_hour (c_time c))) zs))"

subsection \<open>Opening ranges\<close>

record opening_range =
  or_session_date :: int
  or_high :: pyfloat
  or_low :: pyfloat
  or_start_index :: nat
  or_end_index :: nat

text \<open>\<open>time(hour, minute)\<close>, in minutes since midnight, and the session being tracked.\<close>

record session =
  ss_date :: int
  ss_window_end :: datetime
  ss_high :: pyfloat
  ss_low :: pyfloat
  ss_start :: nat

definition comparable :: "datetime \<Rightarrow> datetime \<Rightarrow> bool" where
  "comparable s t \<longleftrightarrow> (dt_offset s = None) = (dt_offset t = None)"

definition close_range :: "session \<Rightarrow> nat \<Rightarrow> opening_range" where
  "close_range s i =
     \<lparr>or_session_date = ss_date s, or_high = ss_high s, or_low = ss_low s,
      or_start_index = ss_start s, or_end_index = i - 1\<rparr>"

definition open_session :: "int \<Rightarrow> int \<Rightarrow> nat \<Rightarrow> candle \<Rightarrow> session" where
  "open_session open_min minutes i c =
     \<lparr>ss_date = dt_day (c_time c),
      ss_window_end = (c_time c)\<lparr>dt_us := (open_min + minutes) * us_per_minute\<rparr>,
      ss_high = c_high c, ss_low = c_low c, ss_start = i\<rparr>"

fun range_loop ::
  "int \<Rightarrow> int \<Rightarrow> nat \<Rightarrow> session option \<Rightarrow> candle list \<Rightarrow> py_error + opening_range list" where
  "range_loop open_min minutes i cur [] =
     Inr (case cur of None \<Rightarrow> [] | Some s \<Rightarrow> [close_range s i])"
| "range_loop open_min minutes i cur (c # cs) =
     (let t = c_time c;
          in_new_session = (map_option ss_date cur \<noteq> Some (dt_day t)
                            \<and> open_min * us_per_minute \<le> dt_us t)
      in if in_new_session then
           bind_res (range_loop open_min minutes (Suc i) (Some (open_session open_min minutes i c)) cs)
             (\<lambda>rs. Inr ((case cur of None \<Rightarrow> [] | Some s \<Rightarrow> [close_range s i]) @ rs))
         else case cur of
           None \<Rightarrow> range_loop open_min minutes (Suc i) None cs
         | Some s \<Rightarrow>
             if \<not> comparable t (ss_window_end s) then Inl TypeError
             else if instant t < instant (ss_window_end s)
             then range_loop open_min minutes (Suc i)
                    (Some (s\<lparr>ss_high := pymax (ss_high s) (c_high c), ss_low := pymin (ss_low s) (c_low c)\<rparr>)) cs
             else range_loop open_min minutes (Suc i) cur cs)"

definition detect_opening_ranges :: "candle list \<Rightarrow> int \<Rightarrow> int \<Rightarrow> py_error + opening_range list" where
  "detect_opening_ranges candles session_open duration_minutes =
     range_loop session_open duration_minutes 0 None candles"

subsection \<open>The engine\<close>

record ict_config =
  ic_enable_kill_zones :: bool
  ic_enable_opening_range :: bool
  ic_kill_zones :: "kill_zone list"
  ic_session_open_utc :: int
  ic_opening_range_minutes :: int

definition default_ict_config :: ict_config where
  "default_ict_config =
     \<lparr>ic_enable_kill_zones = True, ic_enable_opening_range = True,
      ic_kill_zones = default_kill_zones, ic_session_open_utc = 3 * 60 + 45,
      ic_opening_range_minutes = 15\<rparr>"

record ict_context =
  ix_current_kill_zones :: "string list"
  ix_opening_ranges :: "opening_range list"

definition current_opening_range :: "ict_context \<Rightarrow> opening_range option" where
  "current_opening_range ix = last_opt (ix_opening_ranges ix)"

definition in_kill_zone :: "ict_context \<Rightarrow> string \<Rightarrow> bool" where
  "in_kill_zone ix name \<longleftrightarrow> name \<in> set (ix_current_kill_zones ix)"

definition ict_analyze :: "ict_config \<Rightarrow> candle list \<Rightarrow> py_error + ict_context" where
  "ict_analyze cfg candles =
     (let zones = (case last_opt candles of
                     Some c \<Rightarrow> if ic_enable_kill_zones cfg
                               then active_kill_zones c (Some (ic_kill_zones cfg)) else []
                   | None \<Rightarrow> [])
      in bind_res (if ic_enable_opening_range cfg
                   then detect_opening_ranges candles (ic_session_open_utc cfg) (ic_opening_range_minutes cfg)
                   else Inr [])
           (\<lambda>rs. Inr \<lparr>ix_current_kill_zones = zones, ix_opening_ranges = rs\<rparr>))"

subsection \<open>Properties\<close>

text \<open>A kill zone is a property of the instant: however a caller spells a candle's time
  (UTC, an offset such as +05:30, or naive read as UTC), the same instant is in the same zones.\<close>

theorem kill_zones_follow_the_instant:
  assumes "instant (c_time c) = instant (c_time c')"
  shows "active_kill_zones c zones = active_kill_zones c' zones"
  using assms by (simp add: active_kill_zones_def utc_hour_def)

definition nse_open_utc :: candle where
  "nse_open_utc = \<lparr>c_time = \<lparr>dt_day = 739256, dt_us = 225 * us_per_minute, dt_offset = Some 0\<rparr>,
     c_open = Fin 1, c_high = Fin 1, c_low = Fin 1, c_close = Fin 1, c_volume = Fin 1\<rparr>"

definition nse_open_ist :: candle where
  "nse_open_ist = nse_open_utc\<lparr>c_time := \<lparr>dt_day = 739256, dt_us = 555 * us_per_minute,
     dt_offset = Some (330 * us_per_minute)\<rparr>\<rparr>"

lemma kill_zones_follow_the_instant_witness:
  "active_kill_zones nse_open_ist None = [''ASIAN'']"
proof -
  have "instant (c_time nse_open_ist) = instant (c_time nse_open_utc)" by code_simp
  from kill_zones_follow_the_instant [OF this, of None]
  have "active_kill_zones nse_open_ist None = active_kill_zones nse_open_utc None" .
  also have "\<dots> = [''ASIAN'']" by code_simp
  finally show ?thesis .
qed

definition late_candles :: "candle list" where
  "late_candles = [nse_open_utc\<lparr>c_time := \<lparr>dt_day = 739256, dt_us = 600 * us_per_minute, dt_offset = Some 0\<rparr>,
     c_high := Fin 130, c_low := Fin 120\<rparr>]"

text \<open>The opening range is not always from the opening: a history whose first bar of a day
  comes after the opening window, as any history cut mid-session does, reports that bar's
  high and low as the session's opening range, though the bar at 10:00 UTC is hours past the
  window that closed at 04:00.\<close>

theorem late_bar_reported_as_opening_range:
  "instant ((c_time (hd late_candles))\<lparr>dt_us := (3 * 60 + 45 + 15) * us_per_minute\<rparr>)
     < instant (c_time (hd late_candles))
   \<and> (\<exists>r. detect_opening_ranges late_candles (3 * 60 + 45) 15 = Inr [r]
        \<and> or_high r = Fin 130 \<and> or_low r = Fin 120)"
  by (simp add: late_candles_def nse_open_utc_def detect_opening_ranges_def open_session_def
      close_range_def instant_def us_per_minute_def us_per_day_def)

end
