(* ===== verification/StrategyEngine.thy ===== *)
theory StrategyEngine
  imports StrategyDsl FloatBounds SmcEngine Ict
begin

text \<open>
  Evaluating a strategy against what the SMC and ICT engines found: the context
  (\<open>strategy/context.py\<close>), the conditions (\<open>strategy/evaluator.py\<close>), the score
  (\<open>strategy/scoring.py\<close>) and the signal with its bracket (\<open>strategy/engine.py\<close>).
\<close>

subsection \<open>The context\<close>

record evaluation_context =
  ec_symbol :: string
  ec_timeframe :: string
  ec_timestamp :: datetime
  ec_current_price :: pyfloat
  ec_smc :: smc_context
  ec_ict :: ict_context
  ec_current_index :: int
  ec_indicators :: "(string, pyfloat) dict"

subsection \<open>Conditions\<close>

definition numeric_compare :: "pyfloat option \<Rightarrow> 'l condition_of \<Rightarrow> bool" where
  "numeric_compare actual c =
     (case actual of
        None \<Rightarrow> False
      | Some a \<Rightarrow>
          (case (case cd_operator c of None \<Rightarrow> OP_GREATER_THAN | Some oper \<Rightarrow> oper) of
             OP_GREATER_THAN \<Rightarrow> (case cd_value c of None \<Rightarrow> False | Some v \<Rightarrow> v < a)
           | OP_LESS_THAN \<Rightarrow> (case cd_value c of None \<Rightarrow> False | Some v \<Rightarrow> a < v)
           | OP_WITHIN \<Rightarrow>
               (case (cd_min_value c, cd_max_value c) of
                  (Some lo, Some hi) \<Rightarrow> lo \<le> a \<and> a \<le> hi | _ \<Rightarrow> False)
           | OP_TOUCHES \<Rightarrow> (case cd_value c of None \<Rightarrow> False | Some v \<Rightarrow> \<bar>a - v\<bar> \<le> \<bar>v\<bar> * rnd64 (1 / 1000))
           | OP_CROSSES \<Rightarrow> (case cd_value c of None \<Rightarrow> False | Some v \<Rightarrow> \<bar>a - v\<bar> \<le> \<bar>v\<bar> * rnd64 (1 / 1000))
           | _ \<Rightarrow> False))"

fun event_type_value :: "structure_event_type \<Rightarrow> string" where
  "event_type_value BOS = ''BOS''"
| "event_type_value CHOCH = ''CHOCH''"
| "event_type_value MSS = ''MSS''"

definition condition_label :: "'l condition_of \<Rightarrow> string" where
  "condition_label c = falsy_or (cd_name c) (condition_type_value (cd_type c))"

definition trend_matches :: "condition \<Rightarrow> smc_context \<Rightarrow> bool" where
  "trend_matches c smc =
     (case bias smc of
        None \<Rightarrow> False
      | Some b \<Rightarrow> (case cd_direction c of None \<Rightarrow> True | Some d \<Rightarrow> py_lower b = py_lower d))"

definition structure_matches :: "condition \<Rightarrow> evaluation_context \<Rightarrow> bool" where
  "structure_matches c ctx =
     (let event_name = py_upper (condition_type_value (cd_type c));
          events = (if cd_type c = CT_MSS then cx_mss_events (ec_smc ctx) else cx_structure_events (ec_smc ctx))
      in filter (\<lambda>e. event_type_value (e_type e) = event_name
             \<and> (case cd_direction c of None \<Rightarrow> True
                | Some d \<Rightarrow> py_lower (trend_value (e_direction e)) = py_lower d)
             \<and> ec_current_index ctx - int (e_index e) < cd_lookback c) events \<noteq> [])"

definition sweep_matches :: "condition \<Rightarrow> evaluation_context \<Rightarrow> bool" where
  "sweep_matches c ctx =
     (let side = map_truthy (\<lambda>s. py_upper s @ ''_SIDE'') (cd_side c)
      in filter (\<lambda>p. case lp_swept_index p of None \<Rightarrow> False
             | Some i \<Rightarrow> ec_current_index ctx - int i < cd_lookback c) (recent_sweeps (ec_smc ctx) side) \<noteq> [])"

definition zone_matches :: "condition \<Rightarrow> smc_context \<Rightarrow> bool" where
  "zone_matches c smc =
     (case cx_current_zone smc of
        None \<Rightarrow> False
      | Some z \<Rightarrow> (case cd_zone c of None \<Rightarrow> False | Some w \<Rightarrow> py_lower z = py_lower w))"

definition session_matches :: "condition \<Rightarrow> ict_context \<Rightarrow> bool" where
  "session_matches c ict =
     (case map_truthy py_upper (cd_name c) of
        Some n \<Rightarrow> n \<in> set (ix_current_kill_zones ict)
      | None \<Rightarrow> ix_current_kill_zones ict \<noteq> [])"

definition evaluate_condition :: "condition \<Rightarrow> evaluation_context \<Rightarrow> bool" where
  "evaluate_condition c ctx =
     (let smc = ec_smc ctx; ict = ec_ict ctx in
      if cd_type c = CT_TREND then trend_matches c smc
      else if cd_type c \<in> {CT_BOS, CT_MSS, CT_CHOCH} then structure_matches c ctx
      else if cd_type c = CT_LIQUIDITY_SWEEP then sweep_matches c ctx
      else if cd_type c = CT_FVG then unmitigated_fvgs smc (map_truthy py_upper (cd_direction c)) \<noteq> []
      else if cd_type c = CT_ORDER_BLOCK
      then active_order_blocks smc (map_truthy py_upper (cd_direction c)) \<noteq> []
      else if cd_type c = CT_PREMIUM_DISCOUNT then zone_matches c smc
      else if cd_type c = CT_SESSION then session_matches c ict
      else numeric_compare (dict_get (ec_indicators ctx) (condition_label c)) c)"

definition evaluate_conditions ::
  "condition list \<Rightarrow> evaluation_context \<Rightarrow> bool \<times> string list \<times> string list" where
  "evaluate_conditions conditions ctx =
     (let satisfied = map condition_label (filter (\<lambda>c. evaluate_condition c ctx) conditions);
          missing = map condition_label (filter (\<lambda>c. \<not> evaluate_condition c ctx) conditions)
      in (length missing = 0, satisfied, missing))"

subsection \<open>The score\<close>

definition default_weights :: "(string, pyfloat) dict" where
  "default_weights =
     [(''htf_alignment'', Fin 20), (''structure'', Fin 20), (''liquidity'', Fin 20), (''fvg'', Fin 15),
      (''risk_reward'', Fin 15)]"

definition structure_types :: "condition_type set" where
  "structure_types = {CT_BOS, CT_MSS, CT_CHOCH}"

definition weight_of :: "(string, pyfloat) dict \<Rightarrow> string \<Rightarrow> pyfloat" where
  "weight_of weights key = (case dict_get weights key of None \<Rightarrow> Fin 0 | Some w \<Rightarrow> w)"

definition add_if :: "bool \<Rightarrow> pyfloat \<Rightarrow> pyfloat \<Rightarrow> pyfloat" where
  "add_if b w score = (if b then score + w else score)"

definition rr_component :: "pyfloat \<Rightarrow> pyfloat \<Rightarrow> pyfloat" where
  "rr_component risk_reward minimum_rr = pymin (risk_reward / minimum_rr) (Fin (3 / 2)) / Fin (3 / 2)"

definition compute_strategy_score ::
  "condition_type list \<Rightarrow> pyfloat \<Rightarrow> pyfloat \<Rightarrow> (string, pyfloat) dict option \<Rightarrow> pyfloat" where
  "compute_strategy_score satisfied risk_reward minimum_rr weights0 =
     (let weights = (case weights0 of None \<Rightarrow> default_weights | Some w \<Rightarrow> if w = [] then default_weights else w);
          total = pysum (dict_values weights);
          total_weight = (if truthy total then total else Fin 1);
          w = weight_of weights;
          score = add_if (CT_TREND \<in> set satisfied) (w ''htf_alignment'') (Fin 0);
          score = add_if (set satisfied \<inter> structure_types \<noteq> {}) (w ''structure'') score;
          score = add_if (CT_LIQUIDITY_SWEEP \<in> set satisfied) (w ''liquidity'') score;
          score = add_if (CT_FVG \<in> set satisfied \<or> CT_ORDER_BLOCK \<in> set satisfied) (w ''fvg'') score;
          score = add_if (CT_VOLATILITY \<in> set satisfied) (w ''volatility'') score;
          score = (if Fin 0 < minimum_rr \<and> minimum_rr \<le> risk_reward
                   then score + w ''risk_reward'' * rr_component risk_reward minimum_rr else score)
      in pyround 2 (pymin score total_weight / total_weight * Fin 100))"

subsection \<open>The signal\<close>

record evaluation_result =
  er_matched :: bool
  er_satisfied :: "string list"
  er_missing :: "string list"
  er_direction :: "string option"
  er_entry :: "pyfloat option"
  er_stop :: "pyfloat option"
  er_target :: "pyfloat option"
  er_risk_reward :: "pyfloat option"
  er_score :: pyfloat

definition unmatched :: "string list \<Rightarrow> string list \<Rightarrow> evaluation_result" where
  "unmatched satisfied missing =
     \<lparr>er_matched = False, er_satisfied = satisfied, er_missing = missing, er_direction = None,
      er_entry = None, er_stop = None, er_target = None, er_risk_reward = None, er_score = Fin 0\<rparr>"

definition entry_buffer_pct :: pyfloat where "entry_buffer_pct = rnd64 (5 / 100)"

definition max_journalled_target :: pyfloat where "max_journalled_target = Fin 1000000000000"

definition is_journallable :: "pyfloat \<Rightarrow> bool" where
  "is_journallable price \<longleftrightarrow> \<bar>price\<bar> < max_journalled_target"

definition is_bullish :: "string \<Rightarrow> bool" where
  "is_bullish direction \<longleftrightarrow> py_lower direction = ''bullish''"

definition resolve_entry_and_stop ::
  "strategy \<Rightarrow> evaluation_context \<Rightarrow> string \<Rightarrow> pyfloat option \<times> pyfloat option" where
  "resolve_entry_and_stop st ctx direction =
     (let smc = ec_smc ctx in
      if sd_entry_type st = ''fvg_retest'' then
        (case last_opt (unmitigated_fvgs smc (Some (py_upper direction))) of
           None \<Rightarrow> (None, None)
         | Some gap \<Rightarrow>
             let entry = (g_top gap + g_bottom gap) / Fin 2;
                 buffer = zone_size (g_top gap) (g_bottom gap) * entry_buffer_pct
             in (Some entry, Some (if is_bullish direction then g_bottom gap - buffer else g_top gap + buffer)))
      else if sd_entry_type st = ''order_block_retest'' then
        (case last_opt (active_order_blocks smc (Some (py_upper direction))) of
           None \<Rightarrow> (None, None)
         | Some block \<Rightarrow>
             let entry = (b_top block + b_bottom block) / Fin 2;
                 buffer = (b_top block - b_bottom block) * entry_buffer_pct
             in (Some entry, Some (if is_bullish direction then b_bottom block - buffer else b_top block + buffer)))
      else
        (Some (ec_current_price ctx),
         map_option (\<lambda>r. if is_bullish direction then dr_low r else dr_high r) (cx_dealing_range smc)))"

text \<open>What follows once entry and stop are known (\<open>StrategyEngine.evaluate\<close> from the bracket
  check on).\<close>

definition bracket ::
  "strategy \<Rightarrow> string list \<Rightarrow> string list \<Rightarrow> string \<Rightarrow> pyfloat \<Rightarrow> pyfloat \<Rightarrow> evaluation_result" where
  "bracket st satisfied missing direction entry stop =
     (if (if is_bullish direction then entry < stop else stop < entry)
      then unmatched satisfied (missing @ [''stop_on_wrong_side_of_entry''])
      else
        let risk_per_unit = \<bar>entry - stop\<bar>;
            minimum_rr = rk_minimum_rr (sd_risk st);
            target = (if is_bullish direction then entry + risk_per_unit * minimum_rr
                      else entry - risk_per_unit * minimum_rr)
        in if \<not> is_journallable target then unmatched satisfied (missing @ [''target_out_of_range''])
           else
             let risk_reward = (if truthy risk_per_unit then \<bar>target - entry\<bar> / risk_per_unit else Fin 0);
                 types = map cd_type (filter (\<lambda>c. condition_label c \<in> set satisfied) (sd_conditions st))
             in \<lparr>er_matched = True, er_satisfied = satisfied, er_missing = missing,
                 er_direction = Some direction, er_entry = Some entry, er_stop = Some stop,
                 er_target = Some target, er_risk_reward = Some (pyround 4 risk_reward),
                 er_score = compute_strategy_score types risk_reward minimum_rr (sd_score_weights st)\<rparr>)"

definition evaluate_strategy :: "strategy \<Rightarrow> evaluation_context \<Rightarrow> evaluation_result" where
  "evaluate_strategy st ctx =
     (case evaluate_conditions (sd_conditions st) ctx of
        (all_satisfied, satisfied, missing) \<Rightarrow>
          if \<not> all_satisfied then unmatched satisfied missing
          else
            (case (case map_truthy id (sd_direction st) of Some d \<Rightarrow> Some d | None \<Rightarrow> bias (ec_smc ctx)) of
               None \<Rightarrow> unmatched satisfied (missing @ [''direction_undetermined''])
             | Some direction \<Rightarrow>
                 (case resolve_entry_and_stop st ctx direction of
                    (Some entry, Some stop) \<Rightarrow>
                      if py_eq entry stop then unmatched satisfied (missing @ [''no_valid_entry_zone''])
                      else bracket st satisfied missing direction entry stop
                  | _ \<Rightarrow> unmatched satisfied (missing @ [''no_valid_entry_zone'']))))"

subsection \<open>The bracket\<close>

lemma bracket_matched:
  assumes "er_matched (bracket st sat mis d entry stop)"
  shows "\<exists>target rr score. bracket st sat mis d entry stop =
       \<lparr>er_matched = True, er_satisfied = sat, er_missing = mis, er_direction = Some d,
        er_entry = Some entry, er_stop = Some stop, er_target = Some target,
        er_risk_reward = Some rr, er_score = score\<rparr>
     \<and> \<not> (if is_bullish d then entry < stop else stop < entry) \<and> is_journallable target
     \<and> target = (if is_bullish d then entry + \<bar>entry - stop\<bar> * rk_minimum_rr (sd_risk st)
                 else entry - \<bar>entry - stop\<bar> * rk_minimum_rr (sd_risk st))"
  using assms unfolding bracket_def Let_def by (auto simp: unmatched_def split: if_splits)

lemma unmatched_not [simp]: "\<not> er_matched (unmatched s m)"
  by (simp add: unmatched_def)

lemma matched_bracket:
  assumes "er_matched (evaluate_strategy st ctx)"
  obtains sat mis d entry stop where
    "evaluate_strategy st ctx = bracket st sat mis d entry stop"
    "resolve_entry_and_stop st ctx d = (Some entry, Some stop)" "\<not> py_eq entry stop"
    "\<forall>c \<in> set (sd_conditions st). evaluate_condition c ctx" "mis = []"
  using assms that
  by (auto simp: evaluate_strategy_def evaluate_conditions_def filter_empty_conv
      split: prod.splits option.splits if_splits)

lemma resolved_entry_b64:
  "resolve_entry_and_stop st ctx d = (Some entry, stop) \<Longrightarrow> b64 (ec_current_price ctx) \<Longrightarrow> b64 entry"
  by (auto simp: resolve_entry_and_stop_def Let_def split: if_splits option.splits)

lemma journallable_finite: "is_journallable x \<Longrightarrow> \<exists>q. x = Fin q"
  by (cases x) (simp_all add: is_journallable_def max_journalled_target_def abs_pyfloat_def)

text \<open>A sum or difference of a number and a product is finite only if each part is.\<close>

lemma finite_sum: "x + y = Fin q \<Longrightarrow> (\<exists>a. x = Fin a) \<and> (\<exists>b. y = Fin b)"
  and finite_diff: "x - y = Fin q \<Longrightarrow> (\<exists>a. x = Fin a) \<and> (\<exists>b. y = Fin b)"
  by (cases x; cases y; simp add: plus_pyfloat_def minus_pyfloat_def)+

lemma bracket_geometry:
  assumes j: "is_journallable target" and e: "b64 entry" and rr: "Fin 0 < rr" and dist: "\<not> py_eq entry stop"
    and side: "\<not> (if bull then entry < stop else stop < entry)"
    and t: "target = (if bull then entry + \<bar>entry - stop\<bar> * rr else entry - \<bar>entry - stop\<bar> * rr)"
  shows "if bull then stop < entry \<and> entry \<le> target else entry < stop \<and> target \<le> entry"
proof -
  obtain q where q: "target = Fin q" using journallable_finite [OF j] by blast
  then have fin: "(\<exists>a. entry = Fin a)" "(\<exists>b. \<bar>entry - stop\<bar> * rr = Fin b)"
    using t finite_sum finite_diff by (metis (full_types))+
  then have "\<bar>entry - stop\<bar> * rr \<noteq> NaN" by auto
  then have nan: "entry \<noteq> NaN" "stop \<noteq> NaN" "entry - stop \<noteq> NaN"
    using fin(1) by (auto simp: minus_pyfloat_def abs_pyfloat_def times_pyfloat_def)
  then have "Fin 0 \<le> \<bar>entry - stop\<bar> * rr"
    using fin(2) rr by (intro fmul_nonneg fabs_nonneg) auto
  moreover have "stop < entry \<or> entry < stop"
    using nan dist flt_linear [of stop entry] by (auto simp: py_eq_def)
  moreover have "target \<noteq> NaN" using q by simp
  ultimately show ?thesis
    using side fadd_ge [OF e, of "\<bar>entry - stop\<bar> * rr"] fsub_le [OF e, of "\<bar>entry - stop\<bar> * rr"]
    by (auto simp: t split: if_splits)
qed

lemma accepted_minimum_rr:
  assumes "build_strategy nan_ok doc = Inr st"
  shows "rk_minimum_rr (sd_risk st) = NaN \<or> Fin 0 < rk_minimum_rr (sd_risk st)"
  using assms
  by (auto simp: build_strategy_def Let_def validate_risk_def in_bounds_def split: if_splits)

subsection \<open>Properties\<close>


subsection \<open>Which conditions can match\<close>

text \<open>Contexts as the engines make them: nothing writes the indicators, nothing is dated after
  the current bar, and a zone is one \<open>zone_for\<close> answers.\<close>

definition honest :: "evaluation_context \<Rightarrow> bool" where
  "honest ctx \<longleftrightarrow>
     ec_indicators ctx = []
     \<and> (\<forall>e \<in> set (cx_structure_events (ec_smc ctx) @ cx_mss_events (ec_smc ctx)).
          int (e_index e) \<le> ec_current_index ctx)
     \<and> (\<forall>p \<in> set (cx_liquidity_pools (ec_smc ctx)). \<forall>i. lp_swept_index p = Some i \<longrightarrow> int i \<le> ec_current_index ctx)
     \<and> cx_current_zone (ec_smc ctx) \<in> {None, Some ''PREMIUM'', Some ''DISCOUNT'', Some ''EQUILIBRIUM''}"

definition probe_time :: datetime where
  "probe_time = \<lparr>dt_day = 739256, dt_us = 0, dt_offset = Some 0\<rparr>"

definition plain_smc :: smc_context where
  "plain_smc = \<lparr>cx_swings = [], cx_structure_events = [], cx_mss_events = [], cx_liquidity_pools = [],
     cx_fair_value_gaps = [], cx_order_blocks = [], cx_dealing_range = None, cx_current_price = None,
     cx_current_zone = None\<rparr>"

definition plain_context :: "smc_context \<Rightarrow> string list \<Rightarrow> evaluation_context" where
  "plain_context smc zones =
     \<lparr>ec_symbol = ''INFY'', ec_timeframe = ''15m'', ec_timestamp = probe_time, ec_current_price = Fin 100,
      ec_smc = smc, ec_ict = \<lparr>ix_current_kill_zones = zones, ix_opening_ranges = []\<rparr>,
      ec_current_index = 0, ec_indicators = []\<rparr>"

definition probe_event :: "trend \<Rightarrow> structure_event_type \<Rightarrow> structure_event" where
  "probe_event dir ty =
     \<lparr>e_index = 0, e_time = probe_time, e_type = ty, e_direction = dir, e_broken_swing_index = 0,
      e_broken_price = Fin 1, e_break_price = Fin 2\<rparr>"

definition probe_block :: "trend \<Rightarrow> order_block" where
  "probe_block dir =
     \<lparr>b_direction = dir, b_top = Fin 2, b_bottom = Fin 1, b_created_index = 0, b_created_at = probe_time,
      b_strength = Fin 1, b_caused_event_index = 0, b_mitigated = False, b_mitigated_index = None,
      b_invalidated = False, b_filled_percentage = Fin 0\<rparr>"

definition probe_pool :: "liquidity_side \<Rightarrow> pool" where
  "probe_pool side = swept_at 0 (demo_candle 225 1 2) (new_pool side EQUAL_HIGHS (Fin 1) 0 probe_time []) False"

definition probe_dir :: "condition \<Rightarrow> trend" where
  "probe_dir c = (if cd_direction c = Some ''bearish'' then BEARISH else BULLISH)"

definition probe_side :: "condition \<Rightarrow> liquidity_side" where
  "probe_side c = (if map_truthy py_upper (cd_side c) = Some ''SELL'' then SELL_SIDE else BUY_SIDE)"

text \<open>A context in which everything a condition can ask for has just happened.\<close>

definition probe_context :: "condition \<Rightarrow> evaluation_context" where
  "probe_context c =
     (let dir = probe_dir c
      in plain_context
           (plain_smc\<lparr>cx_structure_events := [probe_event dir (if cd_type c = CT_CHOCH then CHOCH else BOS)],
              cx_mss_events := [probe_event dir MSS], cx_liquidity_pools := [probe_pool (probe_side c)],
              cx_fair_value_gaps := [new_gap dir (Fin 2) (Fin 1) 0 probe_time []],
              cx_order_blocks := [probe_block dir],
              cx_current_zone := map_option py_upper (cd_zone c)\<rparr>)
           [case map_truthy py_upper (cd_name c) of None \<Rightarrow> ''ASIAN'' | Some n \<Rightarrow> n])"

definition event_types :: "condition_type set" where
  "event_types = {CT_BOS, CT_MSS, CT_CHOCH, CT_LIQUIDITY_SWEEP}"

lemma built_condition:
  assumes "build_condition doc = Inr c"
  shows "cd_type c = cd_type doc" "cd_side c = cd_side doc" "cd_zone c = cd_zone doc" "cd_name c = cd_name doc"
    "cd_type c \<notin> set unfed_condition_types" "1 \<le> cd_lookback c"
    "cd_direction c \<in> {None, Some ''bullish'', Some ''bearish''}"
    "cd_type c = CT_PREMIUM_DISCOUNT \<Longrightarrow> cd_zone c \<noteq> None"
proof -
  from assms obtain dir where dir: "validate_bias (cd_direction doc) = Inr dir"
    and fed: "cd_type doc \<notin> set unfed_condition_types"
    and c: "c = default_lookback_per_condition_type (doc\<lparr>cd_direction := dir\<rparr>)"
    and lb: "1 \<le> cd_lookback c"
    and zone: "cd_type c = CT_PREMIUM_DISCOUNT \<Longrightarrow> py_strip (falsy_or (cd_zone c) []) \<noteq> []"
    by (auto simp: build_condition_def Let_def bind_res_Inr reject_dead_lookback_def errors_of_def value_or_def
        reject_premium_discount_without_a_zone_def reject_unfed_condition_types_def
        split: if_splits sum.splits)
  show "cd_type c = cd_type doc" "cd_side c = cd_side doc" "cd_zone c = cd_zone doc" "cd_name c = cd_name doc"
    "cd_type c \<notin> set unfed_condition_types" "1 \<le> cd_lookback c"
    using c fed lb by (simp_all add: default_lookback_per_condition_type_def with_lookback_def)
  have "cd_direction c = dir" by (simp add: c default_lookback_per_condition_type_def with_lookback_def)
  then show "cd_direction c \<in> {None, Some ''bullish'', Some ''bearish''}"
    using validate_bias_values [OF dir] by simp
  show "cd_zone c \<noteq> None" if "cd_type c = CT_PREMIUM_DISCOUNT"
    using zone [OF that] by (cases "cd_zone c") (simp_all add: py_strip_def)
qed

lemma honest_probe:
  assumes "cd_zone c \<in> {None, Some ''premium'', Some ''discount'', Some ''equilibrium''}"
  shows "honest (probe_context c)"
proof -
  from assms show ?thesis
    by (auto simp: word_cases honest_def probe_context_def plain_context_def plain_smc_def probe_event_def probe_pool_def
        swept_at_def new_pool_def Let_def)
qed


text \<open>What the language refuses for being unable to fire really cannot: a condition refused for
  a reason other than its operator or its direction, whose lookback is read by its evaluator or
  valid, is false in every context the engines can produce.\<close>

theorem refused_conditions_never_match:
  assumes "build_condition doc = Inl errors"
    and "cd_operator doc = None" and "cd_direction doc \<in> {None, Some ''bullish'', Some ''bearish''}"
    and "cd_type doc \<in> event_types \<or> cd_lookback doc = None" and "honest ctx"
  shows "\<not> evaluate_condition (default_lookback_per_condition_type doc) ctx"
proof -
  let ?c = "default_lookback_per_condition_type doc"
  have same: "cd_type ?c = cd_type doc" "cd_zone ?c = cd_zone doc" "cd_operator ?c = cd_operator doc"
    "cd_lookback ?c = (case cd_lookback doc of None \<Rightarrow> default_lookback_by_type (cd_type doc) | Some n \<Rightarrow> n)"
    by (simp_all add: default_lookback_per_condition_type_def with_lookback_def)
  have dir: "validate_bias (cd_direction doc) = Inr (cd_direction doc)"
  proof -
    have "py_lower (py_strip ''bullish'') = ''bullish''" "py_lower (py_strip ''bearish'') = ''bearish''"
      by code_simp+
    with assms(3) show ?thesis by (auto simp: validate_bias_def Let_def bias_values_def)
  qed
  have pos: "1 \<le> default_lookback_by_type (cd_type doc)" by (simp add: default_lookback_by_type_def)
  from assms(1,2) dir consider
      "cd_type doc \<in> set unfed_condition_types"
    | "cd_lookback ?c < 1" "cd_type doc \<in> event_types"
    | "cd_type doc = CT_PREMIUM_DISCOUNT" "py_strip (falsy_or (cd_zone doc) []) = []"
    using assms(4) pos same
    by (auto simp: build_condition_def Let_def errors_of_def value_or_def reject_unfed_condition_types_def
        reject_unimplemented_boolean_operators_def reject_dead_lookback_def
        reject_premium_discount_without_a_zone_def split: if_splits)
  then show ?thesis
  proof cases
    case 1
    with assms(5) same show ?thesis
      by (auto simp: evaluate_condition_def honest_def numeric_compare_def unfed_condition_types_def)
  next
    case 2
    have old: "\<not> ec_current_index ctx - int i < cd_lookback ?c" if "int i \<le> ec_current_index ctx" for i
      using 2(1) that by simp
    have "\<not> structure_matches ?c ctx" "\<not> sweep_matches ?c ctx"
      using assms(5) old
      by (auto simp: structure_matches_def sweep_matches_def recent_sweeps_def honest_def Let_def
          filter_empty_conv split: option.splits)
    with 2 same show ?thesis by (auto simp: evaluate_condition_def event_types_def)
  next
    case 3
    have letters: "\<exists>x \<in> set (py_lower z). \<not> is_space x"
      if "z \<in> {''PREMIUM'', ''DISCOUNT'', ''EQUILIBRIUM''}" for z
    proof -
      have "\<not> is_space (CHR ''p'')" "\<not> is_space (CHR ''d'')" "\<not> is_space (CHR ''e'')"
        by (simp_all add: is_space_def)
      with that show ?thesis by (auto simp: word_cases)
    qed
    have "zone_matches ?c (ec_smc ctx) = False"
    proof (cases "cd_zone doc")
      case (Some w)
      with 3 have "py_strip w = []" by (cases "w = []") (simp_all add: py_strip_def)
      with letters Some assms(5) same blank_lower show ?thesis
        by (fastforce simp: zone_matches_def honest_def split: option.splits)
    qed (simp add: zone_matches_def same split: option.split)
    with 3 same show ?thesis by (simp add: evaluate_condition_def)
  qed
qed

subsection \<open>What the score can reach\<close>

lemma volatility_weight: "weight_of default_weights ''volatility'' = Fin 0"
  by code_simp

lemma target_component: "Fin 15 * rr_component (Fin r) (Fin r) = Fin 10" if "0 < r"
proof -
  have "rr_component (Fin r) (Fin r) = Fin 1 / Fin (3 / 2)"
    using that by (simp add: rr_component_def pymin_def divide_pyfloat_def)
  moreover have "Fin 15 * (Fin 1 / Fin (3 / 2)) = Fin 10" by code_simp
  ultimately show ?thesis by simp
qed

definition flag_score :: "bool \<Rightarrow> bool \<Rightarrow> bool \<Rightarrow> bool \<Rightarrow> pyfloat \<Rightarrow> pyfloat" where
  "flag_score t s l f r =
     pyround 2 (pymin (add_if f (Fin 15) (add_if l (Fin 20) (add_if s (Fin 20) (add_if t (Fin 20) (Fin 0)))) + r)
       (Fin 90) / Fin 90 * Fin 100)"

lemma score_at_target:
  assumes "0 < r"
  shows "compute_strategy_score types (Fin r) (Fin r) None =
     flag_score (CT_TREND \<in> set types) (set types \<inter> structure_types \<noteq> {}) (CT_LIQUIDITY_SWEEP \<in> set types)
       (CT_FVG \<in> set types \<or> CT_ORDER_BLOCK \<in> set types) (Fin 10)"
proof -
  have w: "weight_of default_weights ''htf_alignment'' = Fin 20" "weight_of default_weights ''structure'' = Fin 20"
    "weight_of default_weights ''liquidity'' = Fin 20" "weight_of default_weights ''fvg'' = Fin 15"
    "weight_of default_weights ''risk_reward'' = Fin 15" "pysum (dict_values default_weights) = Fin 90"
    by code_simp+
  have "truthy (Fin 90)" by (simp add: truthy_def)
  with assms show ?thesis
    by (simp add: compute_strategy_score_def flag_score_def w volatility_weight target_component Let_def
        add_if_def)
qed

lemma flag_scores: "flag_score t s l f (Fin 10) \<le> rnd64 (9444 / 100)"
proof -
  have "add_if f (Fin 15) (add_if l (Fin 20) (add_if s (Fin 20) (add_if t (Fin 20) (Fin 0)))) + Fin 10 \<le> Fin 85"
    by (simp add: add_if_def)
  then have "flag_score t s l f (Fin 10) \<le> pyround 2 (pymin (Fin 85) (Fin 90) / Fin 90 * Fin 100)"
    unfolding flag_score_def by (intro pyround_mono fmul_const_mono fdiv_const_mono pymin_mono) simp_all
  also have "pyround 2 (pymin (Fin 85) (Fin 90) / Fin 90 * Fin 100) = rnd64 (9444 / 100)" by code_simp
  finally show ?thesis .
qed

text \<open>The score's denominator is not reachable: a signal whose risk/reward is exactly the
  minimum its strategy asks for, which is the ratio the engine builds every target at, scores at
  most 94.44 of 100 whatever conditions it satisfied.\<close>

theorem score_at_target_never_full:
  assumes "0 < r"
  shows "compute_strategy_score types (Fin r) (Fin r) None \<le> rnd64 (9444 / 100)
     \<and> rnd64 (9444 / 100) < Fin 100"
proof
  show "compute_strategy_score types (Fin r) (Fin r) None \<le> rnd64 (9444 / 100)"
    unfolding score_at_target [OF assms] by (rule flag_scores)
  show "rnd64 (9444 / 100) < Fin 100" by code_simp
qed

lemma score_at_target_never_full_witness:
  "compute_strategy_score [CT_TREND, CT_BOS, CT_LIQUIDITY_SWEEP, CT_FVG] (Fin 2) (Fin 2) None \<le> rnd64 (9444 / 100)"
  using score_at_target_never_full [of 2 "[CT_TREND, CT_BOS, CT_LIQUIDITY_SWEEP, CT_FVG]"] by simp

definition gap_context :: "pyfloat \<Rightarrow> pyfloat \<Rightarrow> evaluation_context" where
  "gap_context lower upper =
     plain_context (plain_smc\<lparr>cx_fair_value_gaps := [new_gap BULLISH upper lower 0 probe_time []]\<rparr>) []"

definition gap_condition :: condition_doc where
  "gap_condition = \<lparr>cd_type = CT_FVG, cd_direction = None, cd_side = None, cd_zone = None, cd_name = None,
     cd_operator = None, cd_value = None, cd_min_value = None, cd_max_value = None, cd_lookback = None\<rparr>"

definition gap_doc :: strategy_doc where
  "gap_doc = \<lparr>sd_name = ''gap'', sd_market = ''NSE'', sd_timeframe = ''15m'', sd_direction = Some ''bullish'',
     sd_conditions = [gap_condition], sd_entry_type = ''fvg_retest'',
     sd_risk = default_risk\<lparr>rk_minimum_rr := Fin 3\<rparr>, sd_score_weights = None\<rparr>"

definition gap_strategy :: strategy where
  "gap_strategy = \<lparr>sd_name = ''gap'', sd_market = ''NSE'', sd_timeframe = ''15m'', sd_direction = Some ''bullish'',
     sd_conditions = [with_lookback gap_condition 5], sd_entry_type = ''fvg_retest'',
     sd_risk = default_risk\<lparr>rk_minimum_rr := Fin 3\<rparr>, sd_score_weights = None\<rparr>"

lemma gap_strategy_built: "build_strategy False gap_doc = Inr gap_strategy"
  by code_simp

lemma gap_signal_104:
  "evaluate_strategy gap_strategy (gap_context (Fin 104) (Fin 115)) =
     \<lparr>er_matched = True, er_satisfied = [''fvg''], er_missing = [], er_direction = Some ''bullish'',
      er_entry = Some (Fin (219 / 2)), er_stop = Some (Fin (7279646585179341 / 70368744177664)),
      er_target = Some (Fin (8982570194278809 / 70368744177664)), er_risk_reward = Some (Fin 3),
      er_score = Fin (977421856627753 / 35184372088832)\<rparr>"
  by code_simp

lemma gap_signal_105:
  "evaluate_strategy gap_strategy (gap_context (Fin 105) (Fin 116)) =
     \<lparr>er_matched = True, er_satisfied = [''fvg''], er_missing = [], er_direction = Some ''bullish'',
      er_entry = Some (Fin (221 / 2)), er_stop = Some (Fin (7350015329357005 / 70368744177664)),
      er_target = Some (Fin (1131617367307059 / 8796093022208)), er_risk_reward = Some (Fin 3),
      er_score = Fin (1173046965441659 / 70368744177664)\<rparr>"
  by code_simp

lemmas gap_signals = gap_signal_104 gap_signal_105



definition dead_condition :: condition_doc where
  "dead_condition = gap_condition\<lparr>cd_type := CT_BOS, cd_lookback := Some 0\<rparr>"

lemma refused_conditions_never_match_witness:
  "\<not> evaluate_condition (default_lookback_per_condition_type dead_condition) (plain_context plain_smc [])"
proof -
  have "build_condition dead_condition = Inl [Dead_lookback 0]" by code_simp
  then show ?thesis
    by (rule refused_conditions_never_match)
      (simp_all add: dead_condition_def gap_condition_def event_types_def honest_def plain_context_def plain_smc_def)
qed

text \<open>Rounding decides part of the score: two gaps of the same width, traded by the same
  strategy for the same risk/reward of 3, score differently, because the ratio the score compares
  with the minimum is recomputed from a rounded target and can come out just below it.\<close>

theorem rounding_loses_risk_reward:
  "er_risk_reward (evaluate_strategy gap_strategy (gap_context (Fin 104) (Fin 115))) = Some (Fin 3)
   \<and> er_risk_reward (evaluate_strategy gap_strategy (gap_context (Fin 105) (Fin 116))) = Some (Fin 3)
   \<and> er_score (evaluate_strategy gap_strategy (gap_context (Fin 104) (Fin 115))) = rnd64 (2778 / 100)
   \<and> er_score (evaluate_strategy gap_strategy (gap_context (Fin 105) (Fin 116))) = rnd64 (1667 / 100)"
proof -
  have "rnd64 (2778 / 100) = Fin (977421856627753 / 35184372088832)"
    "rnd64 (1667 / 100) = Fin (1173046965441659 / 70368744177664)" by code_simp+
  then show ?thesis by (simp add: gap_signals)
qed

text \<open>The lookback is read for exactly the structure and sweep conditions: the one the language
  fills in for an order block changes nothing.\<close>

lemma with_lookback_sel [simp]:
  "cd_type (with_lookback c n) = cd_type c" "cd_direction (with_lookback c n) = cd_direction c"
  "cd_side (with_lookback c n) = cd_side c" "cd_zone (with_lookback c n) = cd_zone c"
  "cd_name (with_lookback c n) = cd_name c" "cd_operator (with_lookback c n) = cd_operator c"
  "cd_value (with_lookback c n) = cd_value c" "cd_min_value (with_lookback c n) = cd_min_value c"
  "cd_max_value (with_lookback c n) = cd_max_value c" "cd_lookback (with_lookback c n) = n"
  by (simp_all add: with_lookback_def)

lemma numeric_compare_lookback: "numeric_compare a (with_lookback c n) = numeric_compare a c"
  unfolding numeric_compare_def with_lookback_sel ..

lemma lookback_read_by_events_only:
  assumes "cd_type c \<notin> event_types"
  shows "evaluate_condition (with_lookback c n) ctx = evaluate_condition (with_lookback c m) ctx"
  using assms unfolding evaluate_condition_def with_lookback_sel trend_matches_def zone_matches_def
    session_matches_def numeric_compare_lookback condition_label_def
  by (simp add: event_types_def)

end
