(* ===== verification/RiskLimits.thy ===== *)
theory RiskLimits
  imports Prelude
begin

text \<open>
  The kill switch (\<open>risk/kill_switch.py\<close>, its shared flags in \<open>core/redis.py\<close>) and the
  limits and decisions of the risk gates (\<open>risk/limits.py\<close>). A check's detail is its text,
  or, where the code formats numbers into it, the text with the numbers: what the gates do
  with a detail is test whether it is empty.
\<close>

subsection \<open>Kill switch\<close>

record kill_switch =
  ks_global_kill :: bool
  ks_killed_accounts :: "string set"
  ks_killed_strategies :: "string set"

definition no_kill :: kill_switch where
  "no_kill = \<lparr>ks_global_kill = False, ks_killed_accounts = {}, ks_killed_strategies = {}\<rparr>"

definition kill_global :: "kill_switch \<Rightarrow> kill_switch" where
  "kill_global ks = ks\<lparr>ks_global_kill := True\<rparr>"

definition resume_global :: "kill_switch \<Rightarrow> kill_switch" where
  "resume_global ks = ks\<lparr>ks_global_kill := False\<rparr>"

definition kill_account :: "string \<Rightarrow> kill_switch \<Rightarrow> kill_switch" where
  "kill_account a ks = ks\<lparr>ks_killed_accounts := insert a (ks_killed_accounts ks)\<rparr>"

definition resume_killed_account :: "string \<Rightarrow> kill_switch \<Rightarrow> kill_switch" where
  "resume_killed_account a ks = ks\<lparr>ks_killed_accounts := ks_killed_accounts ks - {a}\<rparr>"

definition kill_strategy :: "string \<Rightarrow> kill_switch \<Rightarrow> kill_switch" where
  "kill_strategy s ks = ks\<lparr>ks_killed_strategies := insert s (ks_killed_strategies ks)\<rparr>"

definition resume_strategy :: "string \<Rightarrow> kill_switch \<Rightarrow> kill_switch" where
  "resume_strategy s ks = ks\<lparr>ks_killed_strategies := ks_killed_strategies ks - {s}\<rparr>"

text \<open>\<open>name and name in killed\<close>: an absent or empty name is never killed.\<close>

definition named_in :: "string option \<Rightarrow> string set \<Rightarrow> bool" where
  "named_in name killed = (case name of None \<Rightarrow> False | Some n \<Rightarrow> n \<noteq> [] \<and> n \<in> killed)"

definition is_blocked :: "kill_switch \<Rightarrow> string option \<Rightarrow> string option \<Rightarrow> string option" where
  "is_blocked ks account strategy =
     (if ks_global_kill ks then Some ''Global kill switch is active''
      else if named_in account (ks_killed_accounts ks)
      then Some (''Account '' @ the account @ '' trading is stopped'')
      else if named_in strategy (ks_killed_strategies ks)
      then Some (''Strategy '' @ the strategy @ '' is stopped'')
      else None)"

subsection \<open>The shared flags\<close>

text \<open>The keys of Redis the kill switch uses, with the value the code writes.\<close>

type_synonym redis = "(string, string) dict"

definition kill_global_key :: string where
  "kill_global_key = ''kill:global''"

definition kill_account_key :: "string \<Rightarrow> string" where
  "kill_account_key a = ''kill:account:'' @ a"

definition kill_strategy_key :: "string \<Rightarrow> string" where
  "kill_strategy_key s = ''kill:strategy:'' @ s"

definition set_global_kill :: "redis \<Rightarrow> redis" where
  "set_global_kill r = dict_put kill_global_key ''1'' r"

definition clear_global_kill :: "redis \<Rightarrow> redis" where
  "clear_global_kill r = dict_pop kill_global_key r"

definition is_global_killed :: "redis \<Rightarrow> bool" where
  "is_global_killed r \<longleftrightarrow> dict_get r kill_global_key \<noteq> None"

definition set_account_kill :: "string \<Rightarrow> redis \<Rightarrow> redis" where
  "set_account_kill a r = dict_put (kill_account_key a) ''1'' r"

definition clear_account_kill :: "string \<Rightarrow> redis \<Rightarrow> redis" where
  "clear_account_kill a r = dict_pop (kill_account_key a) r"

definition is_account_killed :: "string \<Rightarrow> redis \<Rightarrow> bool" where
  "is_account_killed a r \<longleftrightarrow> dict_get r (kill_account_key a) \<noteq> None"

definition set_strategy_kill :: "string \<Rightarrow> redis \<Rightarrow> redis" where
  "set_strategy_kill s r = dict_put (kill_strategy_key s) ''1'' r"

definition clear_strategy_kill :: "string \<Rightarrow> redis \<Rightarrow> redis" where
  "clear_strategy_kill s r = dict_pop (kill_strategy_key s) r"

definition is_strategy_killed :: "string \<Rightarrow> redis \<Rightarrow> bool" where
  "is_strategy_killed s r \<longleftrightarrow> dict_get r (kill_strategy_key s) \<noteq> None"

definition load_kill_switch_state :: "redis \<Rightarrow> string option \<Rightarrow> string option \<Rightarrow> kill_switch" where
  "load_kill_switch_state r account strategy =
     \<lparr>ks_global_kill = is_global_killed r,
      ks_killed_accounts =
        (case account of None \<Rightarrow> {} | Some a \<Rightarrow> if a \<noteq> [] \<and> is_account_killed a r then {a} else {}),
      ks_killed_strategies =
        (case strategy of None \<Rightarrow> {} | Some s \<Rightarrow> if s \<noteq> [] \<and> is_strategy_killed s r then {s} else {})\<rparr>"

subsection \<open>Limits and decisions\<close>

record risk_limits =
  rl_risk_per_trade_pct :: pyfloat
  rl_max_daily_loss_pct :: pyfloat
  rl_max_weekly_loss_pct :: pyfloat
  rl_max_open_positions :: int
  rl_max_trades_per_day :: int
  rl_max_exposure_pct :: pyfloat
  rl_max_position_size :: "pyfloat option"
  rl_max_strategy_allocation_pct :: pyfloat
  rl_max_correlated_exposure_pct :: pyfloat
  rl_correlation_threshold :: pyfloat
  rl_max_participation_pct :: pyfloat
  rl_market_data_max_staleness_seconds :: pyfloat
  rl_max_repeated_rejections :: int
  rl_max_price_jump_pct :: pyfloat
  rl_max_entry_deviation_pct :: pyfloat
  rl_max_premium_deviation_pct :: pyfloat

definition default_limits :: risk_limits where
  "default_limits =
     \<lparr>rl_risk_per_trade_pct = rnd64 (1 / 2), rl_max_daily_loss_pct = Fin 2,
      rl_max_weekly_loss_pct = Fin 5, rl_max_open_positions = 5, rl_max_trades_per_day = 10,
      rl_max_exposure_pct = Fin 100, rl_max_position_size = None,
      rl_max_strategy_allocation_pct = Fin 100, rl_max_correlated_exposure_pct = Fin 100,
      rl_correlation_threshold = rnd64 (7 / 10), rl_max_participation_pct = Fin 10,
      rl_market_data_max_staleness_seconds = Fin 10, rl_max_repeated_rejections = 3,
      rl_max_price_jump_pct = Fin 5, rl_max_entry_deviation_pct = Fin 1,
      rl_max_premium_deviation_pct = Fin 5\<rparr>"

datatype risk_decision = APPROVE | REJECT

datatype detail = Txt string | Fmt string "pyfloat list" | FmtInt string "int list"

record risk_check =
  rc_name :: string
  rc_passed :: bool
  rc_detail :: detail

record risk_result =
  rr_decision :: risk_decision
  rr_checks :: "risk_check list"
  rr_reason :: "detail option"

definition new_check :: "string \<Rightarrow> bool \<Rightarrow> detail \<Rightarrow> risk_check" where
  "new_check name passed det = \<lparr>rc_name = name, rc_passed = passed, rc_detail = det\<rparr>"

definition approved :: "risk_result \<Rightarrow> bool" where
  "approved res \<longleftrightarrow> rr_decision res = APPROVE"

definition failed_checks :: "risk_result \<Rightarrow> risk_check list" where
  "failed_checks res = filter (\<lambda>c. \<not> rc_passed c) (rr_checks res)"

text \<open>\<open>failed[0].detail or failed[0].name\<close>\<close>

definition reason_of :: "risk_check \<Rightarrow> detail" where
  "reason_of c = (if rc_detail c = Txt [] then Txt (rc_name c) else rc_detail c)"

text \<open>How both gates end: reject with the first failure's reason, or approve.\<close>

definition conclude :: "risk_check list \<Rightarrow> risk_result" where
  "conclude checks =
     (case filter (\<lambda>c. \<not> rc_passed c) checks of
        [] \<Rightarrow> \<lparr>rr_decision = APPROVE, rr_checks = checks, rr_reason = None\<rparr>
      | c # _ \<Rightarrow> \<lparr>rr_decision = REJECT, rr_checks = checks, rr_reason = Some (reason_of c)\<rparr>)"

subsection \<open>Lemmas\<close>

lemma new_check_simps [simp]:
  "rc_name (new_check n b d) = n" "rc_passed (new_check n b d) = b" "rc_detail (new_check n b d) = d"
  by (simp_all add: new_check_def)

lemma conclude_approved: "approved (conclude cs) \<longleftrightarrow> (\<forall>c \<in> set cs. rc_passed c)"
  by (auto simp: conclude_def approved_def filter_empty_conv split: list.split)
    (metis (mono_tags, lifting) filter_empty_conv list.distinct(1))

lemma conclude_checks [simp]: "rr_checks (conclude cs) = cs"
  by (simp add: conclude_def split: list.split)

lemma conclude_reason:
  "rr_reason (conclude cs) = None \<longleftrightarrow> approved (conclude cs)"
  by (simp add: conclude_def approved_def split: list.split)

lemma is_blocked_None:
  "is_blocked ks a s = None \<longleftrightarrow> \<not> ks_global_kill ks \<and> \<not> named_in a (ks_killed_accounts ks)
     \<and> \<not> named_in s (ks_killed_strategies ks)"
  by (simp add: is_blocked_def)

lemma kill_keys_distinct [simp]:
  "kill_account_key a \<noteq> kill_global_key" "kill_strategy_key s \<noteq> kill_global_key"
  "kill_account_key a \<noteq> kill_strategy_key s"
  "kill_account_key a = kill_account_key b \<longleftrightarrow> a = b"
  "kill_strategy_key s = kill_strategy_key t \<longleftrightarrow> s = t"
  by (simp_all add: kill_account_key_def kill_strategy_key_def kill_global_key_def)

text \<open>What the flags say is what the loaded state blocks.\<close>

lemma loaded_blocks:
  "is_blocked (load_kill_switch_state r account strategy) account strategy = None \<longleftrightarrow>
     \<not> is_global_killed r \<and> (\<forall>a. account = Some a \<and> a \<noteq> [] \<longrightarrow> \<not> is_account_killed a r)
     \<and> (\<forall>s. strategy = Some s \<and> s \<noteq> [] \<longrightarrow> \<not> is_strategy_killed s r)"
  by (auto simp: is_blocked_None load_kill_switch_state_def named_in_def split: option.splits)

end
