(* ===== verification/RiskEngine.thy ===== *)
theory RiskEngine
  imports RiskLimits
begin

text \<open>
  The risk engine (\<open>risk/engine.py\<close>), the only authority that can veto a trade, and the
  options gate beside it (\<open>risk/options_risk.py\<close>): sizing, every check in the order the code
  appends it, and the decision. All numbers are binary64, so a \<open>NaN\<close> in a proposal behaves
  as it does in Python: every comparison with it is false.
\<close>

subsection \<open>Proposals\<close>

record trade_proposal =
  tp_account_id :: string
  tp_strategy_id :: "string option"
  tp_entry :: pyfloat
  tp_stop :: pyfloat
  tp_account_balance :: pyfloat
  tp_open_positions :: int
  tp_trades_today :: int
  tp_daily_pnl :: pyfloat
  tp_weekly_pnl :: pyfloat
  tp_current_exposure :: pyfloat
  tp_strategy_allocation :: pyfloat
  tp_market_data_age_seconds :: "pyfloat option"
  tp_broker_healthy :: bool
  tp_repeated_rejections :: int
  tp_recent_price_jump_pct :: pyfloat
  tp_entry_deviation_pct :: pyfloat
  tp_correlated_exposure :: pyfloat
  tp_liquidity_acceptable :: "bool option"
  tp_proposed_quantity :: "pyfloat option"
  tp_is_reducing :: bool

record risk_engine =
  re_limits :: risk_limits
  re_kill_switch :: kill_switch

definition new_risk_engine :: "risk_limits option \<Rightarrow> kill_switch option \<Rightarrow> risk_engine" where
  "new_risk_engine limits ks =
     \<lparr>re_limits = (case limits of None \<Rightarrow> default_limits | Some l \<Rightarrow> l),
      re_kill_switch = (case ks of None \<Rightarrow> no_kill | Some k \<Rightarrow> k)\<rparr>"

subsection \<open>Sizing\<close>

definition calculate_position_size ::
  "pyfloat \<Rightarrow> pyfloat \<Rightarrow> pyfloat \<Rightarrow> pyfloat \<Rightarrow> pyfloat option \<Rightarrow> pyfloat" where
  "calculate_position_size account_balance risk_percent entry stop max_position_size =
     (let risk_per_unit = \<bar>entry - stop\<bar>
      in if risk_per_unit \<le> Fin 0 then Fin 0
         else
           let risk_amount = account_balance * (risk_percent / Fin 100);
               quantity = risk_amount / risk_per_unit;
               quantity = (case max_position_size of None \<Rightarrow> quantity | Some m \<Rightarrow> pymin quantity m)
           in pymax quantity (Fin 0))"

definition sized_quantity :: "risk_limits \<Rightarrow> trade_proposal \<Rightarrow> pyfloat" where
  "sized_quantity lims p =
     (case tp_proposed_quantity p of
        Some q \<Rightarrow> q
      | None \<Rightarrow> calculate_position_size (tp_account_balance p) (rl_risk_per_trade_pct lims)
                  (tp_entry p) (tp_stop p) (rl_max_position_size lims))"

subsection \<open>The checks\<close>

text \<open>\<open>x / balance * 100 if balance else fallback\<close>\<close>

definition pct_of :: "pyfloat \<Rightarrow> pyfloat \<Rightarrow> pyfloat \<Rightarrow> pyfloat" where
  "pct_of x balance fallback = (if truthy balance then x / balance * Fin 100 else fallback)"

definition loss_pct :: "pyfloat \<Rightarrow> pyfloat \<Rightarrow> pyfloat" where
  "loss_pct pnl balance = pct_of (pymax (- pnl) (Fin 0)) balance (Fin 0)"

definition funded_checks :: "risk_limits \<Rightarrow> trade_proposal \<Rightarrow> pyfloat \<Rightarrow> risk_check list" where
  "funded_checks lims p position_notional =
     (let balance = tp_account_balance p;
          daily_loss_pct = loss_pct (tp_daily_pnl p) balance;
          weekly_loss_pct = loss_pct (tp_weekly_pnl p) balance;
          projected_exposure_pct =
            pct_of (tp_current_exposure p + position_notional) balance (Fin 100);
          strategy_allocation_pct =
            pct_of (tp_strategy_allocation p + position_notional) balance (Fin 100);
          signed_target_notional =
            (if tp_stop p < tp_entry p then position_notional else - position_notional);
          correlated_exposure_pct =
            pct_of \<bar>tp_correlated_exposure p + signed_target_notional\<bar> balance (Fin 100)
      in [new_check ''daily_loss_limit'' (daily_loss_pct < rl_max_daily_loss_pct lims)
            (Fmt ''Daily loss % vs limit %'' [daily_loss_pct, rl_max_daily_loss_pct lims]),
          new_check ''weekly_loss_limit'' (weekly_loss_pct < rl_max_weekly_loss_pct lims)
            (Fmt ''Weekly loss % vs limit %'' [weekly_loss_pct, rl_max_weekly_loss_pct lims]),
          new_check ''exposure_limit'' (projected_exposure_pct \<le> rl_max_exposure_pct lims)
            (Fmt ''Projected exposure % vs limit %'' [projected_exposure_pct, rl_max_exposure_pct lims]),
          new_check ''strategy_allocation_limit''
            (strategy_allocation_pct \<le> rl_max_strategy_allocation_pct lims)
            (Fmt ''Strategy allocation % vs limit %''
               [strategy_allocation_pct, rl_max_strategy_allocation_pct lims]),
          new_check ''correlated_exposure_limit''
            (correlated_exposure_pct \<le> rl_max_correlated_exposure_pct lims)
            (Fmt ''Correlated exposure % vs limit %''
               [correlated_exposure_pct, rl_max_correlated_exposure_pct lims])])"

definition account_funded_check :: "pyfloat \<Rightarrow> risk_check" where
  "account_funded_check balance =
     new_check ''account_funded'' False (Fmt ''Account balance cannot support a new position'' [balance])"

definition count_checks :: "risk_limits \<Rightarrow> int \<Rightarrow> int \<Rightarrow> risk_check list" where
  "count_checks lims open_pos trades =
     [new_check ''max_open_positions'' (open_pos < rl_max_open_positions lims)
        (FmtInt ''open vs limit'' [open_pos, rl_max_open_positions lims]),
      new_check ''max_trades_per_day'' (trades < rl_max_trades_per_day lims)
        (FmtInt ''trades today vs limit'' [trades, rl_max_trades_per_day lims])]"

definition entry_checks :: "risk_limits \<Rightarrow> trade_proposal \<Rightarrow> pyfloat \<Rightarrow> risk_check list" where
  "entry_checks lims p position_notional =
     (if tp_is_reducing p then []
      else (if tp_account_balance p \<le> Fin 0 then [account_funded_check (tp_account_balance p)]
            else funded_checks lims p position_notional)
           @ count_checks lims (tp_open_positions p) (tp_trades_today p))"

definition execution_checks :: "risk_limits \<Rightarrow> trade_proposal \<Rightarrow> risk_check list" where
  "execution_checks lims p =
     (case tp_liquidity_acceptable p of
        None \<Rightarrow> [] | Some ok \<Rightarrow> [new_check ''liquidity_acceptable'' ok (Txt [])])
     @ [new_check ''market_data_fresh''
          (case tp_market_data_age_seconds p of
             None \<Rightarrow> False | Some age \<Rightarrow> age \<le> rl_market_data_max_staleness_seconds lims)
          (case tp_market_data_age_seconds p of
             None \<Rightarrow> Txt ''No market data for this instrument''
           | Some age \<Rightarrow> Fmt ''Data age vs max'' [age, rl_market_data_max_staleness_seconds lims]),
        new_check ''broker_healthy'' (tp_broker_healthy p) (Txt []),
        new_check ''no_repeated_rejections''
          (tp_repeated_rejections p < rl_max_repeated_rejections lims) (Txt []),
        new_check ''no_abnormal_price_jump''
          (tp_recent_price_jump_pct p \<le> rl_max_price_jump_pct lims) (Txt [])]"

subsection \<open>The decision\<close>

definition rejected :: "risk_check list \<Rightarrow> string \<Rightarrow> risk_result" where
  "rejected checks reason =
     \<lparr>rr_decision = REJECT, rr_checks = checks, rr_reason = Some (Txt reason)\<rparr>"

definition kill_check :: "string option \<Rightarrow> risk_check" where
  "kill_check kill_reason =
     new_check ''kill_switch'' (kill_reason = None)
       (Txt (case kill_reason of None \<Rightarrow> [] | Some r \<Rightarrow> r))"

definition evaluate :: "risk_engine \<Rightarrow> trade_proposal \<Rightarrow> risk_result" where
  "evaluate eng p =
     (let lims = re_limits eng;
          kill_reason = is_blocked (re_kill_switch eng) (Some (tp_account_id p)) (tp_strategy_id p);
          checks = [kill_check kill_reason]
      in case kill_reason of
           Some r \<Rightarrow> rejected checks r
         | None \<Rightarrow>
             let risk_per_unit = \<bar>tp_entry p - tp_stop p\<bar>;
                 checks = checks @ [new_check ''valid_stop_distance'' (Fin 0 < risk_per_unit)
                                      (Txt ''Entry and stop must differ'')]
             in if risk_per_unit \<le> Fin 0 then rejected checks ''Entry and stop must differ''
                else
                  let deviation = new_check ''entry_matches_market''
                        (tp_entry_deviation_pct p \<le> rl_max_entry_deviation_pct lims)
                        (Fmt ''Entry deviates from the real quote vs limit''
                           [tp_entry_deviation_pct p, rl_max_entry_deviation_pct lims]);
                      position_notional = sized_quantity lims p * tp_entry p
                  in conclude (checks @ [deviation] @ entry_checks lims p position_notional
                                 @ execution_checks lims p))"

subsection \<open>The options gate\<close>

text \<open>Of \<open>PayoffResult\<close>, the three numbers the gate reads.\<close>

record options_proposal =
  op_account_id :: string
  op_account_balance :: pyfloat
  op_current_exposure :: pyfloat
  op_max_loss :: "pyfloat option"
  op_worst_sampled_loss :: pyfloat
  op_capital_requirement :: pyfloat
  op_broker_healthy :: bool
  op_open_positions :: int
  op_trades_today :: int
  op_daily_pnl :: pyfloat
  op_weekly_pnl :: pyfloat
  op_repeated_rejections :: int
  op_market_data_age_seconds :: "pyfloat option"
  op_liquidity_acceptable :: "bool option"
  op_premium_deviation_pct :: "pyfloat option"
  op_is_reducing :: bool

definition options_risk_amount :: "options_proposal \<Rightarrow> pyfloat" where
  "options_risk_amount p =
     (case op_max_loss p of
        Some l \<Rightarrow> \<bar>l\<bar>
      | None \<Rightarrow> pymax (- op_worst_sampled_loss p) (op_capital_requirement p))"

definition options_entry_checks :: "risk_limits \<Rightarrow> options_proposal \<Rightarrow> risk_check list" where
  "options_entry_checks lims p =
     (if op_is_reducing p then []
      else (if op_account_balance p \<le> Fin 0 then [account_funded_check (op_account_balance p)]
            else
              let balance = op_account_balance p;
                  projected_exposure_pct =
                    (op_current_exposure p + options_risk_amount p) / balance * Fin 100;
                  daily_loss_pct = pymax (- op_daily_pnl p) (Fin 0) / balance * Fin 100;
                  weekly_loss_pct = pymax (- op_weekly_pnl p) (Fin 0) / balance * Fin 100
              in [new_check ''exposure_limit'' (projected_exposure_pct \<le> rl_max_exposure_pct lims)
                    (Fmt ''Projected exposure % vs limit %'' [projected_exposure_pct, rl_max_exposure_pct lims]),
                  new_check ''daily_loss_limit'' (daily_loss_pct < rl_max_daily_loss_pct lims)
                    (Fmt ''Daily loss % vs limit %'' [daily_loss_pct, rl_max_daily_loss_pct lims]),
                  new_check ''weekly_loss_limit'' (weekly_loss_pct < rl_max_weekly_loss_pct lims)
                    (Fmt ''Weekly loss % vs limit %'' [weekly_loss_pct, rl_max_weekly_loss_pct lims])])
           @ count_checks lims (op_open_positions p) (op_trades_today p))"

definition options_execution_checks :: "risk_limits \<Rightarrow> options_proposal \<Rightarrow> risk_check list" where
  "options_execution_checks lims p =
     [new_check ''no_repeated_rejections''
        (op_repeated_rejections p < rl_max_repeated_rejections lims) (Txt [])]
     @ (case op_liquidity_acceptable p of
          None \<Rightarrow> [] | Some ok \<Rightarrow> [new_check ''liquidity_acceptable'' ok (Txt [])])
     @ (case op_premium_deviation_pct p of
          None \<Rightarrow> []
        | Some d \<Rightarrow> [new_check ''premium_matches_market'' (d \<le> rl_max_premium_deviation_pct lims)
                      (Fmt ''Premium deviates from the real quote vs limit''
                         [d, rl_max_premium_deviation_pct lims])])
     @ (case op_market_data_age_seconds p of
          None \<Rightarrow> []
        | Some age \<Rightarrow> [new_check ''market_data_fresh''
                        (age \<le> rl_market_data_max_staleness_seconds lims)
                        (Fmt ''Data age vs max'' [age, rl_market_data_max_staleness_seconds lims])])
     @ [new_check ''broker_healthy'' (op_broker_healthy p) (Txt [])]"

definition evaluate_options_risk ::
  "options_proposal \<Rightarrow> risk_limits option \<Rightarrow> kill_switch option \<Rightarrow> risk_result" where
  "evaluate_options_risk p limits ks =
     (let lims = (case limits of None \<Rightarrow> default_limits | Some l \<Rightarrow> l);
          k = (case ks of None \<Rightarrow> no_kill | Some k \<Rightarrow> k);
          kill_reason = is_blocked k (Some (op_account_id p)) None
      in case kill_reason of
           Some r \<Rightarrow> rejected [kill_check kill_reason] r
         | None \<Rightarrow> conclude ([kill_check kill_reason] @ options_entry_checks lims p
                               @ options_execution_checks lims p))"

subsection \<open>What a decision says\<close>

definition entry_limits_hold :: "risk_limits \<Rightarrow> trade_proposal \<Rightarrow> pyfloat \<Rightarrow> bool" where
  "entry_limits_hold lims p notional \<longleftrightarrow>
     Fin 0 < tp_account_balance p
     \<and> loss_pct (tp_daily_pnl p) (tp_account_balance p) < rl_max_daily_loss_pct lims
     \<and> loss_pct (tp_weekly_pnl p) (tp_account_balance p) < rl_max_weekly_loss_pct lims
     \<and> (tp_current_exposure p + notional) / tp_account_balance p * Fin 100 \<le> rl_max_exposure_pct lims
     \<and> (tp_strategy_allocation p + notional) / tp_account_balance p * Fin 100
         \<le> rl_max_strategy_allocation_pct lims
     \<and> \<bar>tp_correlated_exposure p + (if tp_stop p < tp_entry p then notional else - notional)\<bar>
         / tp_account_balance p * Fin 100 \<le> rl_max_correlated_exposure_pct lims
     \<and> tp_open_positions p < rl_max_open_positions lims
     \<and> tp_trades_today p < rl_max_trades_per_day lims"

definition execution_limits_hold :: "risk_limits \<Rightarrow> trade_proposal \<Rightarrow> bool" where
  "execution_limits_hold lims p \<longleftrightarrow>
     tp_liquidity_acceptable p \<noteq> Some False
     \<and> (\<exists>age. tp_market_data_age_seconds p = Some age \<and> age \<le> rl_market_data_max_staleness_seconds lims)
     \<and> tp_broker_healthy p \<and> tp_repeated_rejections p < rl_max_repeated_rejections lims
     \<and> tp_recent_price_jump_pct p \<le> rl_max_price_jump_pct lims"

lemma pct_of_NaN [simp]: "pct_of x NaN d = NaN" "balance \<noteq> Fin 0 \<Longrightarrow> pct_of NaN balance d = NaN"
  by (simp_all add: pct_of_def truthy_def)

lemma pct_of_pos: "Fin 0 < b \<Longrightarrow> pct_of x b d = x / b * Fin 100"
  by (auto simp: pct_of_def truthy_def)

lemma entry_checks_passed:
  "(\<forall>c \<in> set (entry_checks lims p n). rc_passed c) \<longleftrightarrow>
     tp_is_reducing p \<or> entry_limits_hold lims p n"
proof (cases "tp_is_reducing p")
  case False
  show ?thesis
  proof (cases "Fin 0 < tp_account_balance p")
    case True
    then have "\<not> tp_account_balance p \<le> Fin 0" by (rule flt_not_fle)
    with False True show ?thesis
      by (auto simp: entry_checks_def funded_checks_def count_checks_def entry_limits_hold_def
          Let_def pct_of_pos)
  next
    case NotPos: False
    show ?thesis
    proof (cases "tp_account_balance p = NaN")
      case True
      with False show ?thesis
        by (simp add: entry_checks_def funded_checks_def entry_limits_hold_def Let_def)
    next
      case NotNaN: False
      with NotPos have "tp_account_balance p \<le> Fin 0" by (simp add: not_flt_iff)
      with False NotPos show ?thesis
        by (simp add: entry_checks_def account_funded_check_def entry_limits_hold_def)
    qed
  qed
qed (simp add: entry_checks_def)

lemma execution_checks_passed:
  "(\<forall>c \<in> set (execution_checks lims p). rc_passed c) \<longleftrightarrow> execution_limits_hold lims p"
  by (cases "tp_liquidity_acceptable p"; cases "tp_market_data_age_seconds p")
    (auto simp: execution_checks_def execution_limits_hold_def)

lemma rejected_not_approved [simp]: "\<not> approved (rejected cs r)"
  by (simp add: rejected_def approved_def)

lemma evaluate_approved:
  "approved (evaluate eng p) \<longleftrightarrow>
     is_blocked (re_kill_switch eng) (Some (tp_account_id p)) (tp_strategy_id p) = None
     \<and> Fin 0 < \<bar>tp_entry p - tp_stop p\<bar>
     \<and> tp_entry_deviation_pct p \<le> rl_max_entry_deviation_pct (re_limits eng)
     \<and> (tp_is_reducing p \<or>
        entry_limits_hold (re_limits eng) p (sized_quantity (re_limits eng) p * tp_entry p))
     \<and> execution_limits_hold (re_limits eng) p"
proof (cases "is_blocked (re_kill_switch eng) (Some (tp_account_id p)) (tp_strategy_id p)")
  case None
  show ?thesis
  proof (cases "\<bar>tp_entry p - tp_stop p\<bar> \<le> Fin 0")
    case True
    then have "\<not> Fin 0 < \<bar>tp_entry p - tp_stop p\<bar>" using flt_not_fle by blast
    with True None show ?thesis by (simp add: evaluate_def)
  next
    case False
    with None show ?thesis
      by (simp add: evaluate_def Let_def conclude_approved ball_Un entry_checks_passed
          execution_checks_passed kill_check_def)
  qed
qed (simp add: evaluate_def)

lemma options_entry_checks_passed:
  "(\<forall>c \<in> set (options_entry_checks lims p). rc_passed c) \<longleftrightarrow> op_is_reducing p \<or>
     Fin 0 < op_account_balance p
     \<and> (op_current_exposure p + options_risk_amount p) / op_account_balance p * Fin 100
         \<le> rl_max_exposure_pct lims
     \<and> pymax (- op_daily_pnl p) (Fin 0) / op_account_balance p * Fin 100 < rl_max_daily_loss_pct lims
     \<and> pymax (- op_weekly_pnl p) (Fin 0) / op_account_balance p * Fin 100 < rl_max_weekly_loss_pct lims
     \<and> op_open_positions p < rl_max_open_positions lims \<and> op_trades_today p < rl_max_trades_per_day lims"
proof (cases "op_account_balance p = NaN")
  case True
  then show ?thesis by (simp add: options_entry_checks_def Let_def)
next
  case False
  then have "op_account_balance p \<le> Fin 0 \<longleftrightarrow> \<not> Fin 0 < op_account_balance p"
    by (simp add: not_flt_iff)
  then show ?thesis
    by (auto simp: options_entry_checks_def Let_def count_checks_def account_funded_check_def)
qed

subsection \<open>Relative error\<close>

lemma rnd_pos_rel:
  assumes "0 < q" and "p2 (- 1022) \<le> q"
  shows "\<bar>rnd_pos q - q\<bar> \<le> q / 2 ^ 53"
proof -
  have "- 1022 \<le> ilog2 q" using assms ilog2_less_iff [OF assms(1), of "- 1022"] by simp
  then have e: "ulp_exp q = ilog2 q - 52" by (simp add: ulp_exp_def)
  let ?u = "p2 (ulp_exp q)"
  have "rnd_pos q - q = (of_int (rhe (q / ?u)) - q / ?u) * ?u"
    by (simp add: rnd_pos_def left_diff_distrib)
  then have "\<bar>rnd_pos q - q\<bar> = \<bar>of_int (rhe (q / ?u)) - q / ?u\<bar> * ?u"
    by (simp add: abs_mult)
  also have "\<dots> \<le> 1 / 2 * ?u" by (intro mult_right_mono rhe_half) simp
  also have "\<dots> = p2 (ilog2 q) / 2 ^ 53" by (simp add: e p2_diff p2_52)
  also have "\<dots> \<le> q / 2 ^ 53" using ilog2_lower [OF assms(1)] by (intro divide_right_mono) auto
  finally show ?thesis .
qed

lemma rnd64_rel:
  assumes "rnd64 q = Fin r" and "p2 (- 1022) \<le> q"
  shows "r \<le> q * (1 + 1 / 2 ^ 53)"
proof -
  have q: "0 < q" using assms(2) p2_pos [of "- 1022"] by (rule less_le_trans [rotated])
  have "r = rnd_pos q" using assms(1) q by (auto simp: rnd64_def rnd_rat_def Let_def split: if_splits)
  moreover have "\<bar>rnd_pos q - q\<bar> \<le> q / 2 ^ 53" by (rule rnd_pos_rel [OF q assms(2)])
  then have "rnd_pos q - q \<le> q / 2 ^ 53" by (rule order_trans [OF abs_ge_self])
  ultimately show ?thesis by (simp add: algebra_simps)
qed

subsection \<open>Properties\<close>

text \<open>C7: approval is exactly the conjunction of the gates: the kill switch is off for this
  account and strategy, entry and stop differ, the entry matches the market, the order can be
  executed now, and, unless it only reduces a position, a positive balance carries it within
  the daily and weekly loss, exposure, allocation, correlation and count limits.\<close>

theorem approval_is_every_gate:
  "approved (evaluate eng p) \<longleftrightarrow>
     is_blocked (re_kill_switch eng) (Some (tp_account_id p)) (tp_strategy_id p) = None
     \<and> Fin 0 < \<bar>tp_entry p - tp_stop p\<bar>
     \<and> tp_entry_deviation_pct p \<le> rl_max_entry_deviation_pct (re_limits eng)
     \<and> (tp_is_reducing p \<or>
        entry_limits_hold (re_limits eng) p (sized_quantity (re_limits eng) p * tp_entry p))
     \<and> execution_limits_hold (re_limits eng) p"
  by (rule evaluate_approved)

definition demo_proposal :: trade_proposal where
  "demo_proposal =
     \<lparr>tp_account_id = ''acc'', tp_strategy_id = None, tp_entry = Fin 100, tp_stop = Fin 95,
      tp_account_balance = Fin 100000, tp_open_positions = 0, tp_trades_today = 0,
      tp_daily_pnl = Fin 0, tp_weekly_pnl = Fin 0, tp_current_exposure = Fin 0,
      tp_strategy_allocation = Fin 0, tp_market_data_age_seconds = Some (Fin 0),
      tp_broker_healthy = True, tp_repeated_rejections = 0, tp_recent_price_jump_pct = Fin 0,
      tp_entry_deviation_pct = Fin 0, tp_correlated_exposure = Fin 0,
      tp_liquidity_acceptable = None, tp_proposed_quantity = Some (Fin 10), tp_is_reducing = False\<rparr>"

text \<open>An account with no money has no room: with a balance that is zero, negative or not a
  number, no order that opens risk is approved, whatever its limits; and with a zero or
  negative balance none of the percentages it cannot compute is recorded as a check.\<close>

theorem unfunded_account_never_enters:
  assumes "\<not> tp_is_reducing p" and "\<not> Fin 0 < tp_account_balance p"
  shows "\<not> approved (evaluate eng p)
     \<and> (tp_account_balance p \<le> Fin 0 \<longrightarrow>
          rc_name ` set (rr_checks (evaluate eng p)) \<inter>
            {''daily_loss_limit'', ''weekly_loss_limit'', ''exposure_limit'',
             ''strategy_allocation_limit'', ''correlated_exposure_limit''} = {})"
proof -
  have "rc_name ` set (rr_checks (evaluate eng p)) \<subseteq>
      {''kill_switch'', ''valid_stop_distance'', ''entry_matches_market'', ''account_funded'',
       ''max_open_positions'', ''max_trades_per_day'', ''liquidity_acceptable'', ''market_data_fresh'',
       ''broker_healthy'', ''no_repeated_rejections'', ''no_abnormal_price_jump''}"
    if "tp_account_balance p \<le> Fin 0"
    using that assms(1)
    by (auto simp: evaluate_def Let_def rejected_def kill_check_def entry_checks_def count_checks_def
        account_funded_check_def execution_checks_def split: option.splits if_splits)
  moreover have "\<not> approved (evaluate eng p)"
    using assms by (simp add: evaluate_approved entry_limits_hold_def)
  ultimately show ?thesis by (cases "tp_account_balance p \<le> Fin 0") auto
qed

lemma unfunded_account_never_enters_witness:
  "\<not> approved (evaluate (new_risk_engine None None) (demo_proposal\<lparr>tp_account_balance := Fin 0\<rparr>))"
  using unfunded_account_never_enters [of "demo_proposal\<lparr>tp_account_balance := Fin 0\<rparr>"]
  by (simp add: demo_proposal_def)

text \<open>A number that is not a number never slips through a gate: a \<open>NaN\<close> in the entry, the
  stop, the deviation, the price jump or the data age of any order, or in the balance, the
  losses, the exposures or the quantity of one that opens risk, is a rejection.\<close>

theorem nan_fails_closed:
  assumes "tp_entry p = NaN \<or> tp_stop p = NaN \<or> tp_entry_deviation_pct p = NaN
      \<or> tp_recent_price_jump_pct p = NaN \<or> tp_market_data_age_seconds p = Some NaN
      \<or> (\<not> tp_is_reducing p \<and>
          (tp_account_balance p = NaN \<or> tp_daily_pnl p = NaN \<or> tp_weekly_pnl p = NaN
           \<or> tp_current_exposure p = NaN \<or> tp_strategy_allocation p = NaN
           \<or> tp_correlated_exposure p = NaN \<or> tp_proposed_quantity p = Some NaN))"
  shows "\<not> approved (evaluate eng p)"
proof -
  have max_nan: "pymax NaN (Fin 0) = NaN" by (simp add: pymax_def)
  have pct: "\<not> pct_of NaN b d < x" "\<not> pct_of NaN b d \<le> x" if "Fin 0 < b" for b d x
    using that by (auto simp: pct_of_pos)
  show ?thesis
    using assms
    by (auto simp: evaluate_approved entry_limits_hold_def execution_limits_hold_def loss_pct_def
        max_nan pct sized_quantity_def)
qed

lemma nan_fails_closed_witness:
  "\<not> approved (evaluate (new_risk_engine None None) (demo_proposal\<lparr>tp_daily_pnl := NaN\<rparr>))"
  using nan_fails_closed [of "demo_proposal\<lparr>tp_daily_pnl := NaN\<rparr>"] by (simp add: demo_proposal_def)

text \<open>A user can always get out: for an order that only reduces a position, the balance,
  the losses, the exposures, the counts and the sizing inputs do not enter the decision, so
  no loss or exposure limit can refuse an exit; every other gate still binds.\<close>

theorem exits_ignore_entry_limits:
  assumes "tp_is_reducing p"
  shows "evaluate eng (p\<lparr>tp_account_balance := balance, tp_daily_pnl := daily, tp_weekly_pnl := weekly,
           tp_current_exposure := exposure, tp_strategy_allocation := allocation,
           tp_correlated_exposure := correlated, tp_open_positions := open_pos,
           tp_trades_today := trades, tp_proposed_quantity := quantity\<rparr>) = evaluate eng p"
  using assms
  by (simp add: evaluate_def Let_def entry_checks_def execution_checks_def split: option.split)

lemma exits_ignore_entry_limits_witness:
  "evaluate (new_risk_engine None None) (demo_proposal\<lparr>tp_is_reducing := True,
      tp_account_balance := Fin (- 5000), tp_daily_pnl := Fin (- 90000), tp_weekly_pnl := Fin 0,
      tp_current_exposure := Fin 0, tp_strategy_allocation := Fin 0, tp_correlated_exposure := Fin 0,
      tp_open_positions := 99, tp_trades_today := 99, tp_proposed_quantity := None\<rparr>)
   = evaluate (new_risk_engine None None) (demo_proposal\<lparr>tp_is_reducing := True\<rparr>)"
  using exits_ignore_entry_limits [where p = "demo_proposal\<lparr>tp_is_reducing := True\<rparr>"
      and eng = "new_risk_engine None None" and balance = "Fin (- 5000)" and daily = "Fin (- 90000)"
      and weekly = "Fin 0" and exposure = "Fin 0" and allocation = "Fin 0" and correlated = "Fin 0"
      and open_pos = 99 and trades = 99 and quantity = None]
  by (simp add: demo_proposal_def)

lemma capped_below:
  assumes "Fin c < rnd64 x" and "rnd64 c = Fin c"
  shows "c \<le> x"
proof (rule ccontr)
  assume "\<not> c \<le> x"
  then have "rnd64 x \<le> rnd64 c" by (intro rnd64_mono) simp
  with assms show False using flt_not_fle by fastforce
qed

text \<open>C8: a sized position risks at most its budget. Whenever the engine's own quantity is a
  finite number in the normal range, losing the whole stop distance on it costs no more than
  the risk amount, up to one rounding of the division; a cap only lowers it, and no budget
  means no position.\<close>

theorem sized_position_within_budget:
  assumes "calculate_position_size balance pct entry stop cap = Fin q"
    and "\<bar>entry - stop\<bar> = Fin u" and "0 < u" and "balance * (pct / Fin 100) = Fin r"
    and "\<And>c. cap = Some c \<Longrightarrow> \<exists>x. c = Fin x \<and> rnd64 x = Fin x"
  shows "0 \<le> q \<and> (r \<le> 0 \<longrightarrow> q = 0)
     \<and> (p2 (- 1022) \<le> r / u \<longrightarrow> q * u \<le> r * (1 + 1 / 2 ^ 53))
     \<and> (\<forall>c. cap = Some (Fin c) \<and> 0 \<le> c \<longrightarrow> q \<le> c)"
proof -
  let ?raw = "rnd64 (r / u)"
  have e: "Fin r / Fin u = ?raw" using assms(3) by simp
  have "pymax (case cap of None \<Rightarrow> ?raw | Some m \<Rightarrow> pymin ?raw m) (Fin 0) = Fin q"
    using assms(1,3) unfolding calculate_position_size_def Let_def assms(2,4) e by simp
  then have cases: "q = 0 \<or> 0 < q \<and> (?raw = Fin q \<or> cap = Some (Fin q) \<and> Fin q < ?raw)"
    and cap: "cap = Some (Fin c) \<Longrightarrow> 0 \<le> c \<Longrightarrow> q \<le> c" for c
    by (auto simp: pymax_def pymin_def not_less split: option.splits if_splits)
  have bound: "q \<le> r / u * (1 + 1 / 2 ^ 53)" "0 < r" if "0 < q" "p2 (- 1022) \<le> r / u"
  proof -
    have pos: "0 < r / u" using that(2) p2_pos [of "- 1022"] by (rule less_le_trans [rotated])
    show "q \<le> r / u * (1 + 1 / 2 ^ 53)"
      using cases that(1)
    proof (elim disjE conjE)
      assume "?raw = Fin q"
      then show ?thesis by (rule rnd64_rel [OF _ that(2)])
    next
      assume c: "cap = Some (Fin q)" "Fin q < ?raw"
      then have "q \<le> r / u" using capped_below [OF c(2)] assms(5) [OF c(1)] by simp
      with pos show ?thesis by (simp add: distrib_left add_increasing2)
    qed simp
    show "0 < r" using pos assms(3) by (simp add: zero_less_divide_iff)
  qed
  have "q * u \<le> r * (1 + 1 / 2 ^ 53)" if n: "p2 (- 1022) \<le> r / u"
  proof (cases "0 < q")
    case True
    have "q * u \<le> r / u * (1 + 1 / 2 ^ 53) * u"
      using bound(1) [OF True n] assms(3) by (intro mult_right_mono) simp_all
    with assms(3) show ?thesis by simp
  next
    case False
    have "0 < r" using n assms(3) p2_pos [of "- 1022"]
      by (metis less_le_trans zero_less_divide_iff less_asym)
    with False cases show ?thesis by (simp add: add_nonneg_nonneg)
  qed
  moreover have "r \<le> 0 \<Longrightarrow> q = 0"
  proof -
    assume "r \<le> 0"
    then have "\<not> Fin 0 < ?raw" using assms(3) by (intro rnd64_not_lt) (simp add: divide_nonpos_pos)
    then show "q = 0" using cases flt_trans [of "Fin 0" "Fin q" ?raw] by auto
  qed
  ultimately show ?thesis using cases cap by auto
qed

lemma sized_position_within_budget_witness:
  "\<exists>q. calculate_position_size (Fin 100000) (Fin 1) (Fin 100) (Fin 97) (Some (Fin 250)) = Fin q
     \<and> q \<le> 250 \<and> 0 \<le> q"
proof -
  have r: "Fin 100000 * (Fin 1 / Fin 100) = Fin 1000" by code_simp
  have u: "\<bar>Fin 100 - Fin 97\<bar> = Fin 3" by simp
  have size: "calculate_position_size (Fin 100000) (Fin 1) (Fin 100) (Fin 97) (Some (Fin 250)) = Fin 250"
    by code_simp
  from sized_position_within_budget [OF size u _ r] show ?thesis by (simp add: size)
qed

definition looser :: "risk_limits \<Rightarrow> risk_limits \<Rightarrow> bool" where
  "looser tight loose \<longleftrightarrow>
     rl_risk_per_trade_pct loose = rl_risk_per_trade_pct tight
     \<and> rl_max_position_size loose = rl_max_position_size tight
     \<and> rl_max_daily_loss_pct tight \<le> rl_max_daily_loss_pct loose
     \<and> rl_max_weekly_loss_pct tight \<le> rl_max_weekly_loss_pct loose
     \<and> rl_max_open_positions tight \<le> rl_max_open_positions loose
     \<and> rl_max_trades_per_day tight \<le> rl_max_trades_per_day loose
     \<and> rl_max_exposure_pct tight \<le> rl_max_exposure_pct loose
     \<and> rl_max_strategy_allocation_pct tight \<le> rl_max_strategy_allocation_pct loose
     \<and> rl_max_correlated_exposure_pct tight \<le> rl_max_correlated_exposure_pct loose
     \<and> rl_market_data_max_staleness_seconds tight \<le> rl_market_data_max_staleness_seconds loose
     \<and> rl_max_repeated_rejections tight \<le> rl_max_repeated_rejections loose
     \<and> rl_max_price_jump_pct tight \<le> rl_max_price_jump_pct loose
     \<and> rl_max_entry_deviation_pct tight \<le> rl_max_entry_deviation_pct loose"

text \<open>Loosening a limit never revokes an approval: with the sizing inputs fixed, an order
  approved under tighter limits is approved under looser ones.\<close>

theorem looser_limits_keep_approvals:
  assumes "looser tight loose" and "approved (evaluate \<lparr>re_limits = tight, re_kill_switch = ks\<rparr> p)"
  shows "approved (evaluate \<lparr>re_limits = loose, re_kill_switch = ks\<rparr> p)"
proof -
  have size: "sized_quantity loose p = sized_quantity tight p"
    using assms(1) by (simp add: looser_def sized_quantity_def split: option.split)
  show ?thesis
    using assms unfolding evaluate_approved risk_engine.simps size
    by (auto simp: looser_def entry_limits_hold_def execution_limits_hold_def
        intro: fle_trans flt_fle_trans)
qed

lemma looser_limits_keep_approvals_witness:
  "approved (evaluate \<lparr>re_limits = default_limits\<lparr>rl_max_exposure_pct := Fin 150\<rparr>, re_kill_switch = no_kill\<rparr> demo_proposal)"
proof -
  have "looser default_limits (default_limits\<lparr>rl_max_exposure_pct := Fin 150\<rparr>)"
    by (simp add: looser_def default_limits_def)
  moreover have "approved (evaluate \<lparr>re_limits = default_limits, re_kill_switch = no_kill\<rparr> demo_proposal)"
    by code_simp
  ultimately show ?thesis by (rule looser_limits_keep_approvals)
qed

text \<open>The kill switch is a veto in both gates, visible through the shared flags: once an
  account's flag is set no order of that account is approved, an exit included, and the state
  loaded for any other account is the one before; clearing the flag restores the first.\<close>

theorem killed_account_is_vetoed:
  assumes "a \<noteq> []"
  shows "\<not> approved (evaluate \<lparr>re_limits = lims,
            re_kill_switch = load_kill_switch_state (set_account_kill a r) (Some a) s\<rparr>
          (p\<lparr>tp_account_id := a, tp_strategy_id := s\<rparr>))
     \<and> \<not> approved (evaluate_options_risk (op\<lparr>op_account_id := a\<rparr>) (Some lims)
          (Some (load_kill_switch_state (set_account_kill a r) (Some a) None)))
     \<and> (\<forall>b. b \<noteq> a \<longrightarrow> load_kill_switch_state (set_account_kill a r) (Some b) s
            = load_kill_switch_state r (Some b) s)
     \<and> (\<not> is_account_killed a r \<longrightarrow>
          load_kill_switch_state (clear_account_kill a (set_account_kill a r)) (Some a) s
            = load_kill_switch_state r (Some a) s)"
proof -
  have block: "is_blocked (load_kill_switch_state (set_account_kill a r) (Some a) s') (Some a) s' \<noteq> None" for s'
    using assms by (simp only: loaded_blocks) (simp add: is_account_killed_def set_account_kill_def)
  obtain reason where reason: "is_blocked (load_kill_switch_state (set_account_kill a r) (Some a) None)
      (Some a) None = Some reason" using block [of None] by blast
  have options: "\<not> approved (evaluate_options_risk (op\<lparr>op_account_id := a\<rparr>) (Some lims)
          (Some (load_kill_switch_state (set_account_kill a r) (Some a) None)))"
    by (simp add: evaluate_options_risk_def reason)
  have trade: "\<not> approved (evaluate \<lparr>re_limits = lims,
      re_kill_switch = load_kill_switch_state (set_account_kill a r) (Some a) s\<rparr>
      (p\<lparr>tp_account_id := a, tp_strategy_id := s\<rparr>))"
    using block [of s] by (simp add: evaluate_approved)
  have keys: "kill_global_key \<noteq> kill_account_key x" "kill_strategy_key y \<noteq> kill_account_key x" for x y
    by (simp_all add: kill_account_key_def kill_strategy_key_def kill_global_key_def)
  have "(\<forall>b. b \<noteq> a \<longrightarrow> load_kill_switch_state (set_account_kill a r) (Some b) s
          = load_kill_switch_state r (Some b) s)
      \<and> (\<not> is_account_killed a r \<longrightarrow>
          load_kill_switch_state (clear_account_kill a (set_account_kill a r)) (Some a) s
            = load_kill_switch_state r (Some a) s)"
    using keys
    by (cases s) (simp_all add: load_kill_switch_state_def set_account_kill_def clear_account_kill_def
        is_account_killed_def is_global_killed_def is_strategy_killed_def)
  with options trade show ?thesis by blast
qed

lemma killed_account_is_vetoed_witness:
  "\<not> approved (evaluate \<lparr>re_limits = default_limits,
      re_kill_switch = load_kill_switch_state (set_account_kill ''acc'' []) (Some ''acc'') None\<rparr>
      (demo_proposal\<lparr>tp_account_id := ''acc'', tp_strategy_id := None\<rparr>))"
  using killed_account_is_vetoed [of "''acc''"] by blast

text \<open>The options gate approves exactly when its own gates hold, and a combination whose
  loss is unbounded is charged the worst loss the payoff engine sampled and at least the
  capital committed, never nothing.\<close>

theorem options_approval_is_every_gate:
  "(approved (evaluate_options_risk p (Some lims) (Some ks)) \<longleftrightarrow>
      is_blocked ks (Some (op_account_id p)) None = None
      \<and> (\<not> op_is_reducing p \<longrightarrow>
           Fin 0 < op_account_balance p
           \<and> (op_current_exposure p + options_risk_amount p) / op_account_balance p * Fin 100
               \<le> rl_max_exposure_pct lims
           \<and> pymax (- op_daily_pnl p) (Fin 0) / op_account_balance p * Fin 100 < rl_max_daily_loss_pct lims
           \<and> pymax (- op_weekly_pnl p) (Fin 0) / op_account_balance p * Fin 100 < rl_max_weekly_loss_pct lims
           \<and> op_open_positions p < rl_max_open_positions lims
           \<and> op_trades_today p < rl_max_trades_per_day lims)
      \<and> op_repeated_rejections p < rl_max_repeated_rejections lims
      \<and> op_liquidity_acceptable p \<noteq> Some False
      \<and> (\<forall>d. op_premium_deviation_pct p = Some d \<longrightarrow> d \<le> rl_max_premium_deviation_pct lims)
      \<and> (\<forall>age. op_market_data_age_seconds p = Some age \<longrightarrow> age \<le> rl_market_data_max_staleness_seconds lims)
      \<and> op_broker_healthy p)
   \<and> (op_max_loss p = None \<and> op_worst_sampled_loss p \<noteq> NaN \<and> op_capital_requirement p \<noteq> NaN \<longrightarrow>
        - op_worst_sampled_loss p \<le> options_risk_amount p
        \<and> op_capital_requirement p \<le> options_risk_amount p)"
proof
  have exec: "(\<forall>c \<in> set (options_execution_checks lims p). rc_passed c) \<longleftrightarrow>
      op_repeated_rejections p < rl_max_repeated_rejections lims
      \<and> op_liquidity_acceptable p \<noteq> Some False
      \<and> (\<forall>d. op_premium_deviation_pct p = Some d \<longrightarrow> d \<le> rl_max_premium_deviation_pct lims)
      \<and> (\<forall>age. op_market_data_age_seconds p = Some age \<longrightarrow> age \<le> rl_market_data_max_staleness_seconds lims)
      \<and> op_broker_healthy p"
    by (cases "op_liquidity_acceptable p"; cases "op_premium_deviation_pct p";
        cases "op_market_data_age_seconds p") (auto simp: options_execution_checks_def)
  show "approved (evaluate_options_risk p (Some lims) (Some ks)) \<longleftrightarrow>
      is_blocked ks (Some (op_account_id p)) None = None
      \<and> (\<not> op_is_reducing p \<longrightarrow>
           Fin 0 < op_account_balance p
           \<and> (op_current_exposure p + options_risk_amount p) / op_account_balance p * Fin 100
               \<le> rl_max_exposure_pct lims
           \<and> pymax (- op_daily_pnl p) (Fin 0) / op_account_balance p * Fin 100 < rl_max_daily_loss_pct lims
           \<and> pymax (- op_weekly_pnl p) (Fin 0) / op_account_balance p * Fin 100 < rl_max_weekly_loss_pct lims
           \<and> op_open_positions p < rl_max_open_positions lims
           \<and> op_trades_today p < rl_max_trades_per_day lims)
      \<and> op_repeated_rejections p < rl_max_repeated_rejections lims
      \<and> op_liquidity_acceptable p \<noteq> Some False
      \<and> (\<forall>d. op_premium_deviation_pct p = Some d \<longrightarrow> d \<le> rl_max_premium_deviation_pct lims)
      \<and> (\<forall>age. op_market_data_age_seconds p = Some age \<longrightarrow> age \<le> rl_market_data_max_staleness_seconds lims)
      \<and> op_broker_healthy p"
  proof (cases "is_blocked ks (Some (op_account_id p)) None")
    case None
    then have "approved (evaluate_options_risk p (Some lims) (Some ks)) \<longleftrightarrow>
        (\<forall>c \<in> set (options_entry_checks lims p). rc_passed c)
        \<and> (\<forall>c \<in> set (options_execution_checks lims p). rc_passed c)"
      by (simp add: evaluate_options_risk_def conclude_approved ball_Un kill_check_def)
    with None show ?thesis unfolding exec options_entry_checks_passed by blast
  qed (simp add: evaluate_options_risk_def)
  have "x \<noteq> NaN \<Longrightarrow> - x \<noteq> NaN" for x by (cases x) auto
  then show "op_max_loss p = None \<and> op_worst_sampled_loss p \<noteq> NaN \<and> op_capital_requirement p \<noteq> NaN \<longrightarrow>
      - op_worst_sampled_loss p \<le> options_risk_amount p \<and> op_capital_requirement p \<le> options_risk_amount p"
    by (auto simp: options_risk_amount_def intro: pymax_ge)
qed

definition demo_options :: options_proposal where
  "demo_options =
     \<lparr>op_account_id = ''acc'', op_account_balance = Fin 100000, op_current_exposure = Fin 0,
      op_max_loss = None, op_worst_sampled_loss = Fin (- 651000), op_capital_requirement = Fin 1000,
      op_broker_healthy = True, op_open_positions = 0, op_trades_today = 0, op_daily_pnl = Fin 0,
      op_weekly_pnl = Fin 0, op_repeated_rejections = 0, op_market_data_age_seconds = None,
      op_liquidity_acceptable = None, op_premium_deviation_pct = None, op_is_reducing = False\<rparr>"

lemma options_approval_is_every_gate_witness:
  "\<not> approved (evaluate_options_risk demo_options (Some default_limits) (Some no_kill))"
proof -
  have "\<not> (op_current_exposure demo_options + options_risk_amount demo_options)
      / op_account_balance demo_options * Fin 100 \<le> rl_max_exposure_pct default_limits"
    by code_simp
  then show ?thesis
    using options_approval_is_every_gate [of demo_options default_limits no_kill]
    by (simp add: demo_options_def)
qed

end
