(* ===== verification/Domain.thy ===== *)
theory Domain
  imports Prelude
begin

text \<open>
  The enumerations the trading components share (\<open>database/models/trading.py\<close>,
  \<open>database/models/strategy.py\<close>) with the string values the code prints.
\<close>

datatype order_status =
    CREATED | VALIDATING | RISK_APPROVED | SUBMITTED | ACKNOWLEDGED | PARTIALLY_FILLED
  | FILLED | MONITORING | CLOSED | REJECTED | CANCELLED | EXPIRED | FAILED

datatype order_type = MARKET | LIMIT | SL | SL_M

datatype direction = LONG | SHORT

fun order_type_value :: "order_type \<Rightarrow> string" where
  "order_type_value MARKET = ''MARKET''"
| "order_type_value LIMIT = ''LIMIT''"
| "order_type_value SL = ''SL''"
| "order_type_value SL_M = ''SL_M''"

fun direction_value :: "direction \<Rightarrow> string" where
  "direction_value LONG = ''LONG''"
| "direction_value SHORT = ''SHORT''"

text \<open>The signed quantity of a fill: \<open>quantity if direction == Direction.LONG else -quantity\<close>.\<close>

definition signed_quantity :: "direction \<Rightarrow> pyfloat \<Rightarrow> pyfloat" where
  "signed_quantity d q = (if d = LONG then q else - q)"

lemma signed_quantity_simps [simp]:
  "signed_quantity LONG q = q"
  "signed_quantity SHORT q = - q"
  by (simp_all add: signed_quantity_def)

end
