(* ===== verification/Backtest.thy ===== *)
theory Backtest
  imports StrategyEngine RiskEngine Domain
begin

text \<open>
  The backtester: its cost model (\<open>backtest/cost_model.py\<close>) and its pass over a history
  (\<open>backtest/engine.py\<close>), which at each bar sees the candles up to it and nothing later. The pass
  raises what the detectors raise. The position left open at the end is part of the result, as the
  engine's \<open>open_trade\<close>; the log line about it is left out.
\<close>

subsection \<open>Costs\<close>

record cost_model =
  cm_brokerage_flat :: pyfloat
  cm_brokerage_pct :: pyfloat
  cm_slippage_pct :: pyfloat
  cm_spread_pct :: pyfloat
  cm_taxes_pct :: pyfloat
  cm_contract_charges_flat :: pyfloat

definition default_costs :: cost_model where
  "default_costs = \<lparr>cm_brokerage_flat = Fin 0, cm_brokerage_pct = Fin 0, cm_slippage_pct = Fin 0,
     cm_spread_pct = Fin 0, cm_taxes_pct = Fin 0, cm_contract_charges_flat = Fin 0\<rparr>"

definition slip_of :: "cost_model \<Rightarrow> pyfloat \<Rightarrow> pyfloat" where
  "slip_of cm raw_price = raw_price * (cm_slippage_pct cm + cm_spread_pct cm / Fin 2) / Fin 100"

definition cost_entry_price :: "cost_model \<Rightarrow> pyfloat \<Rightarrow> bool \<Rightarrow> pyfloat" where
  "cost_entry_price cm raw_price long =
     (if long then raw_price + slip_of cm raw_price else raw_price - slip_of cm raw_price)"

definition cost_exit_price :: "cost_model \<Rightarrow> pyfloat \<Rightarrow> bool \<Rightarrow> pyfloat" where
  "cost_exit_price cm raw_price long =
     (if long then raw_price - slip_of cm raw_price else raw_price + slip_of cm raw_price)"

definition round_trip_costs :: "cost_model \<Rightarrow> pyfloat \<Rightarrow> pyfloat \<Rightarrow> pyfloat" where
  "round_trip_costs cm notional_entry notional_exit =
     (let pct_costs = (notional_entry + notional_exit) * (cm_brokerage_pct cm + cm_taxes_pct cm) / Fin 100
      in pct_costs + Fin 2 * cm_brokerage_flat cm + cm_contract_charges_flat cm)"

subsection \<open>Trades\<close>

record open_trade =
  ot_direction :: direction
  ot_entry_price :: pyfloat
  ot_stop :: pyfloat
  ot_target :: pyfloat
  ot_quantity :: pyfloat
  ot_opened_at :: datetime

record open_backtest_position =
  obp_trade :: open_trade
  obp_last_price :: pyfloat
  obp_unrealized_pnl :: pyfloat

record backtest_trade =
  bt_direction :: direction
  bt_entry_price :: pyfloat
  bt_exit_price :: pyfloat
  bt_quantity :: pyfloat
  bt_pnl :: pyfloat
  bt_r_multiple :: "pyfloat option"
  bt_opened_at :: datetime
  bt_closed_at :: datetime

record backtest_engine =
  be_strategy :: strategy
  be_starting_capital :: pyfloat
  be_cost_model :: cost_model
  be_smc_config :: smc_config
  be_ict_config :: ict_config
  be_max_position_size :: "pyfloat option"

definition sign_of :: "bool \<Rightarrow> pyfloat" where
  "sign_of long = (if long then Fin 1 else Fin (- 1))"

definition describe_open :: "open_trade \<Rightarrow> candle \<Rightarrow> open_backtest_position" where
  "describe_open t final =
     \<lparr>obp_trade = t, obp_last_price = c_close final,
      obp_unrealized_pnl = (c_close final - ot_entry_price t) * ot_quantity t * sign_of (ot_direction t = LONG)\<rparr>"

definition open_trade_of ::
  "backtest_engine \<Rightarrow> string \<Rightarrow> pyfloat \<Rightarrow> pyfloat \<Rightarrow> pyfloat \<Rightarrow> candle \<Rightarrow> pyfloat \<Rightarrow> open_trade" where
  "open_trade_of be direction entry stop target candle equity =
     (let long = is_bullish direction
      in \<lparr>ot_direction = (if long then LONG else SHORT),
          ot_entry_price = cost_entry_price (be_cost_model be) entry long,
          ot_stop = stop, ot_target = target,
          ot_quantity = calculate_position_size equity (rk_risk_percent (sd_risk (be_strategy be))) entry stop
                          (be_max_position_size be),
          ot_opened_at = c_time candle\<rparr>)"

text \<open>The level a bar closes a position at, if any: the stop is looked at before the target.\<close>

definition hit_price :: "bool \<Rightarrow> pyfloat \<Rightarrow> pyfloat \<Rightarrow> candle \<Rightarrow> pyfloat option" where
  "hit_price long stop target candle =
     (if long then
        (if c_low candle \<le> stop then Some stop else if target \<le> c_high candle then Some target else None)
      else
        (if stop \<le> c_high candle then Some stop else if c_low candle \<le> target then Some target else None))"

definition check_exit :: "cost_model \<Rightarrow> open_trade \<Rightarrow> candle \<Rightarrow> backtest_trade option" where
  "check_exit cm t candle =
     (let long = (ot_direction t = LONG)
      in case hit_price long (ot_stop t) (ot_target t) candle of
           None \<Rightarrow> None
         | Some hit \<Rightarrow>
             let exit_price = cost_exit_price cm hit long;
                 quantity = ot_quantity t;
                 sign = sign_of long;
                 gross_pnl = (exit_price - ot_entry_price t) * quantity * sign;
                 costs = round_trip_costs cm (ot_entry_price t * quantity) (exit_price * quantity);
                 risk_per_unit = \<bar>ot_entry_price t - ot_stop t\<bar>
             in Some \<lparr>bt_direction = ot_direction t, bt_entry_price = ot_entry_price t,
                      bt_exit_price = exit_price, bt_quantity = quantity, bt_pnl = gross_pnl - costs,
                      bt_r_multiple = (if truthy risk_per_unit
                        then Some (((exit_price - ot_entry_price t) * sign) / risk_per_unit) else None),
                      bt_opened_at = ot_opened_at t, bt_closed_at = c_time candle\<rparr>)"

subsection \<open>The pass\<close>

definition context_at ::
  "smc_config \<Rightarrow> ict_config \<Rightarrow> string \<Rightarrow> string \<Rightarrow> candle list \<Rightarrow> py_error + evaluation_context" where
  "context_at smc_config ict_config timeframe symbol visible =
     bind_res (analyze smc_config visible) (\<lambda>smc.
     bind_res (ict_analyze ict_config visible) (\<lambda>ict.
       Inr \<lparr>ec_symbol = symbol, ec_timeframe = timeframe,
            ec_timestamp = c_time (last visible), ec_current_price = c_close (last visible),
            ec_smc = smc, ec_ict = ict, ec_current_index = int (length visible) - 1, ec_indicators = []\<rparr>))"

text \<open>The position opened on the last visible bar, if the strategy matches there and the bar traded
  through the entry.\<close>

definition entry_at ::
  "backtest_engine \<Rightarrow> string \<Rightarrow> pyfloat \<Rightarrow> candle list \<Rightarrow> py_error + open_trade option" where
  "entry_at be symbol equity visible =
     (if length visible < 3 then Inr None
      else bind_res (context_at (be_smc_config be) (be_ict_config be) (sd_timeframe (be_strategy be)) symbol visible) (\<lambda>ctx.
        let r = evaluate_strategy (be_strategy be) ctx; candle = last visible
        in case (er_matched r, er_direction r, er_entry r, er_stop r, er_target r) of
             (True, Some d, Some entry, Some stop, Some target) \<Rightarrow>
               if c_low candle \<le> entry \<and> entry \<le> c_high candle
               then Inr (Some (open_trade_of be d entry stop target candle equity)) else Inr None
           | _ \<Rightarrow> Inr None))"

fun backtest_loop ::
  "backtest_engine \<Rightarrow> string \<Rightarrow> pyfloat \<Rightarrow> open_trade option \<Rightarrow> candle list \<Rightarrow> candle list
   \<Rightarrow> py_error + backtest_trade list \<times> open_trade option" where
  "backtest_loop be symbol equity cur seen [] = Inr ([], cur)"
| "backtest_loop be symbol equity cur seen (c # cs) =
     (case cur of
        Some t \<Rightarrow>
          (case check_exit (be_cost_model be) t c of
             Some bt \<Rightarrow>
               bind_res (backtest_loop be symbol (equity + bt_pnl bt) None (seen @ [c]) cs)
                 (\<lambda>(ts, fin). Inr (bt # ts, fin))
           | None \<Rightarrow> backtest_loop be symbol equity cur (seen @ [c]) cs)
      | None \<Rightarrow>
          bind_res (entry_at be symbol equity (seen @ [c]))
            (\<lambda>opened. backtest_loop be symbol equity opened (seen @ [c]) cs))"

definition backtest_run ::
  "backtest_engine \<Rightarrow> candle list \<Rightarrow> string \<Rightarrow> py_error + backtest_trade list \<times> open_backtest_position option" where
  "backtest_run be candles symbol =
     bind_res (backtest_loop be symbol (be_starting_capital be) None [] candles) (\<lambda>(trades, cur).
       Inr (trades, case cur of Some t \<Rightarrow> (if candles \<noteq> [] then Some (describe_open t (last candles)) else None)
                     | None \<Rightarrow> None))"

subsection \<open>Lemmas\<close>

lemma backtest_loop_append:
  "backtest_loop be symbol equity cur seen (xs @ ys) = Inr (ts', fin') \<Longrightarrow>
   \<exists>ts fin rest. backtest_loop be symbol equity cur seen xs = Inr (ts, fin)
     \<and> backtest_loop be symbol (foldl (\<lambda>e t. e + bt_pnl t) equity ts) fin (seen @ xs) ys = Inr (rest, fin')
     \<and> ts' = ts @ rest"
proof (induction xs arbitrary: equity cur seen ts')
  case (Cons c xs)
  show ?case
  proof (cases cur)
    case None
    with Cons.prems obtain opened where o: "entry_at be symbol equity (seen @ [c]) = Inr opened"
      and run: "backtest_loop be symbol equity opened (seen @ [c]) (xs @ ys) = Inr (ts', fin')"
      by (auto simp: bind_res_Inr)
    from Cons.IH [OF run] None o show ?thesis by auto
  next
    case (Some t)
    show ?thesis
    proof (cases "check_exit (be_cost_model be) t c")
      case None
      with Some Cons.prems have "backtest_loop be symbol equity cur (seen @ [c]) (xs @ ys) = Inr (ts', fin')"
        by simp
      from Cons.IH [OF this] Some None show ?thesis by auto
    next
      case hit: (Some bt)
      with Some Cons.prems obtain us where
        run: "backtest_loop be symbol (equity + bt_pnl bt) None (seen @ [c]) (xs @ ys) = Inr (us, fin')"
        and ts': "ts' = bt # us" by (auto simp: bind_res_Inr)
      from Cons.IH [OF run] Some hit ts' show ?thesis by auto
    qed
  qed
qed simp

text \<open>The position held when a pass starts is the one its first closed trade comes from.\<close>

lemma held_trade_closes_first:
  "backtest_loop be symbol equity (Some t) seen ys = Inr (rest, fin) \<Longrightarrow>
     (rest = [] \<and> fin = Some t) \<or> (\<exists>c \<in> set ys. \<exists>bt. check_exit (be_cost_model be) t c = Some bt
        \<and> (\<exists>more. rest = bt # more))"
proof (induction ys arbitrary: seen)
  case (Cons c ys)
  show ?case
  proof (cases "check_exit (be_cost_model be) t c")
    case None
    with Cons.prems Cons.IH show ?thesis by fastforce
  next
    case (Some bt)
    with Cons.prems show ?thesis by (auto simp: bind_res_Inr)
  qed
qed simp

subsection \<open>What a pass means\<close>

text \<open>
  The trades of a history, said without the loop: from bar \<open>k\<close> on, a position opens at the first bar
  whose visible history gives an entry, closes at the first later bar that reaches its stop or
  target, and the next one is looked for from the bar after that, sized on the equity all earlier
  trades left.
\<close>

inductive backtest_spec ::
  "backtest_engine \<Rightarrow> string \<Rightarrow> candle list \<Rightarrow> pyfloat \<Rightarrow> nat \<Rightarrow> backtest_trade list \<Rightarrow> open_trade option \<Rightarrow> bool"
  for be symbol cs where
  no_more: "\<forall>m \<in> {k..<length cs}. entry_at be symbol equity (take (Suc m) cs) = Inr None
     \<Longrightarrow> backtest_spec be symbol cs equity k [] None"
| still_held: "\<lbrakk>i \<in> {k..<length cs}; \<forall>m \<in> {k..<i}. entry_at be symbol equity (take (Suc m) cs) = Inr None;
     entry_at be symbol equity (take (Suc i) cs) = Inr (Some t);
     \<forall>m \<in> {Suc i..<length cs}. check_exit (be_cost_model be) t (cs ! m) = None\<rbrakk>
     \<Longrightarrow> backtest_spec be symbol cs equity k [] (Some t)"
| traded: "\<lbrakk>i \<in> {k..<length cs}; \<forall>m \<in> {k..<i}. entry_at be symbol equity (take (Suc m) cs) = Inr None;
     entry_at be symbol equity (take (Suc i) cs) = Inr (Some t);
     j \<in> {Suc i..<length cs}; \<forall>m \<in> {Suc i..<j}. check_exit (be_cost_model be) t (cs ! m) = None;
     check_exit (be_cost_model be) t (cs ! j) = Some bt;
     backtest_spec be symbol cs (equity + bt_pnl bt) (Suc j) ts fin\<rbrakk>
     \<Longrightarrow> backtest_spec be symbol cs equity k (bt # ts) fin"

lemma loop_at:
  "i < length cs \<Longrightarrow> backtest_loop be symbol equity cur (take i cs) (drop i cs) =
     (case cur of
        Some t \<Rightarrow>
          (case check_exit (be_cost_model be) t (cs ! i) of
             Some bt \<Rightarrow>
               bind_res (backtest_loop be symbol (equity + bt_pnl bt) None (take (Suc i) cs) (drop (Suc i) cs))
                 (\<lambda>(ts, fin). Inr (bt # ts, fin))
           | None \<Rightarrow> backtest_loop be symbol equity cur (take (Suc i) cs) (drop (Suc i) cs))
      | None \<Rightarrow>
          bind_res (entry_at be symbol equity (take (Suc i) cs))
            (\<lambda>opened. backtest_loop be symbol equity opened (take (Suc i) cs) (drop (Suc i) cs)))"
  unfolding take_Suc_conv_app_nth
  by (subst Cons_nth_drop_Suc [symmetric]) (simp_all only: backtest_loop.simps)

lemma skip_quiet:
  assumes "k \<le> i" "i \<le> length cs" "\<forall>m \<in> {k..<i}. entry_at be symbol equity (take (Suc m) cs) = Inr None"
  shows "backtest_loop be symbol equity None (take k cs) (drop k cs) =
     backtest_loop be symbol equity None (take i cs) (drop i cs)"
  using assms by (induction rule: dec_induct) (auto simp: loop_at)

lemma skip_held:
  assumes "k \<le> i" "i \<le> length cs" "\<forall>m \<in> {k..<i}. check_exit (be_cost_model be) t (cs ! m) = None"
  shows "backtest_loop be symbol equity (Some t) (take k cs) (drop k cs) =
     backtest_loop be symbol equity (Some t) (take i cs) (drop i cs)"
  using assms by (induction rule: dec_induct) (auto simp: loop_at)

lemma spec_loop:
  "backtest_spec be symbol cs equity k ts fin \<Longrightarrow> k \<le> length cs \<Longrightarrow>
     backtest_loop be symbol equity None (take k cs) (drop k cs) = Inr (ts, fin)"
proof (induction rule: backtest_spec.induct)
  case (no_more k equity)
  then show ?case using skip_quiet [of k "length cs"] by simp
next
  case (still_held i k equity t)
  then show ?case
    using skip_quiet [of k i cs be symbol equity] skip_held [of "Suc i" "length cs" cs be t symbol equity]
    by (simp add: loop_at)
next
  case (traded i k equity t j bt ts fin)
  then show ?case
    using skip_quiet [of k i cs be symbol equity] skip_held [of "Suc i" j cs be t symbol equity]
    by (simp add: loop_at)
qed

lemma first_in_range:
  fixes k n :: nat
  assumes "\<not> (\<forall>m \<in> {k..<n}. P m)"
  shows "\<exists>i \<in> {k..<n}. (\<forall>m \<in> {k..<i}. P m) \<and> \<not> P i"
proof -
  from assms obtain m where "k \<le> m \<and> m < n \<and> \<not> P m" by auto
  then obtain i where "k \<le> i \<and> i < n \<and> \<not> P i" "\<forall>m < i. \<not> (k \<le> m \<and> m < n \<and> \<not> P m)"
    using exists_least_iff [of "\<lambda>m. k \<le> m \<and> m < n \<and> \<not> P m"] by blast
  then show ?thesis by (intro bexI [of _ i]) auto
qed

lemma range_cases:
  fixes k n :: nat
  obtains "\<forall>m \<in> {k..<n}. P m" | i where "i \<in> {k..<n}" "\<forall>m \<in> {k..<i}. P m" "\<not> P i"
  using first_in_range [of k n P] by blast

lemma loop_spec:
  "backtest_loop be symbol equity None (take k cs) (drop k cs) = Inr (ts, fin) \<Longrightarrow> k \<le> length cs \<Longrightarrow>
     backtest_spec be symbol cs equity k ts fin"
proof (induction "length cs - k" arbitrary: k equity ts rule: less_induct)
  case less
  show ?case
  proof (cases rule: range_cases [of k "length cs" "\<lambda>m. entry_at be symbol equity (take (Suc m) cs) = Inr None"])
    case 1
    with less.prems skip_quiet [of k "length cs" cs be symbol equity] show ?thesis
      by (auto intro: no_more)
  next
    case (2 i)
    have "bind_res (entry_at be symbol equity (take (Suc i) cs))
        (\<lambda>opened. backtest_loop be symbol equity opened (take (Suc i) cs) (drop (Suc i) cs)) = Inr (ts, fin)"
      using less.prems(1) skip_quiet [of k i cs be symbol equity] 2 loop_at [of i cs be symbol equity None]
      by simp
    then obtain opened where "entry_at be symbol equity (take (Suc i) cs) = Inr opened"
      "backtest_loop be symbol equity opened (take (Suc i) cs) (drop (Suc i) cs) = Inr (ts, fin)"
      unfolding bind_res_Inr by blast
    with 2(3) obtain t where
      t: "entry_at be symbol equity (take (Suc i) cs) = Inr (Some t)"
      and run: "backtest_loop be symbol equity (Some t) (take (Suc i) cs) (drop (Suc i) cs) = Inr (ts, fin)"
      by (cases opened) auto
    show ?thesis
    proof (cases rule: range_cases [of "Suc i" "length cs" "\<lambda>m. check_exit (be_cost_model be) t (cs ! m) = None"])
      case 1
      with run 2(1) skip_held [of "Suc i" "length cs" cs be t symbol equity] have "ts = []" "fin = Some t"
        by auto
      with 1 2 t show ?thesis by (auto intro: still_held)
    next
      case j: (2 j)
      from j(3) obtain bt where bt: "check_exit (be_cost_model be) t (cs ! j) = Some bt" by auto
      have "bind_res (backtest_loop be symbol (equity + bt_pnl bt) None (take (Suc j) cs) (drop (Suc j) cs))
          (\<lambda>(ts, fin). Inr (bt # ts, fin)) = Inr (ts, fin)"
        using run skip_held [of "Suc i" j cs be t symbol equity] j bt loop_at [of j cs be symbol equity "Some t"]
        by simp
      then obtain us where ts: "ts = bt # us"
        and rest: "backtest_loop be symbol (equity + bt_pnl bt) None (take (Suc j) cs) (drop (Suc j) cs) = Inr (us, fin)"
        unfolding bind_res_Inr by auto
      have "backtest_spec be symbol cs (equity + bt_pnl bt) (Suc j) us fin"
        using j(1) 2(1) by (intro less.hyps [OF _ rest]) auto
      with 2 t j bt show ?thesis unfolding ts by (intro traded [of i k cs be symbol equity t j])
    qed
  qed
qed

subsection \<open>Costs and prices\<close>

lemma fmul_Fin_nonneg_mono: "x \<le> y \<Longrightarrow> 0 \<le> c \<Longrightarrow> x = Fin a \<Longrightarrow> y = Fin b \<Longrightarrow> x * Fin c \<le> y * Fin c"
  by (simp add: times_pyfloat_def rnd64_mono mult_right_mono)

lemma finite_prod: "x * y = Fin q \<Longrightarrow> (\<exists>a. x = Fin a) \<and> (\<exists>b. y = Fin b)"
  by (cases x; cases y) (auto simp: times_pyfloat_def inf_of_def split: if_splits)

lemma fsub_mono:
  assumes "x' \<le> x" "e \<le> e'" "x' - e' = Fin a" "x - e = Fin b"
  shows "a \<le> b"
proof -
  from assms(3,4) obtain p q r s where v: "x' = Fin p" "e' = Fin q" "x = Fin r" "e = Fin s"
    using finite_diff by meson
  with assms(1,2) have "rnd64 (p - q) \<le> rnd64 (r - s)" by (intro rnd64_mono) simp
  with assms(3,4) v show ?thesis by (simp add: minus_pyfloat_def)
qed

definition sane_costs :: "cost_model \<Rightarrow> bool" where
  "sane_costs cm \<longleftrightarrow> Fin 0 \<le> cm_brokerage_flat cm \<and> Fin 0 \<le> cm_brokerage_pct cm \<and> Fin 0 \<le> cm_slippage_pct cm
     \<and> Fin 0 \<le> cm_spread_pct cm \<and> Fin 0 \<le> cm_taxes_pct cm \<and> Fin 0 \<le> cm_contract_charges_flat cm"

lemma slip_nonneg: "sane_costs cm \<Longrightarrow> Fin 0 \<le> raw \<Longrightarrow> slip_of cm raw \<noteq> NaN \<Longrightarrow> Fin 0 \<le> slip_of cm raw"
  unfolding slip_of_def sane_costs_def
  by (intro fdiv_nonneg fmul_nonneg fadd_nonneg) (auto simp: divide_pyfloat_def)

lemma no_slip: "slip_of default_costs (Fin r) = Fin 0"
  by (simp add: slip_of_def default_costs_def times_pyfloat_def plus_pyfloat_def divide_pyfloat_def)

lemma round_trip_nonneg:
  assumes "sane_costs cm" "Fin 0 \<le> n" "Fin 0 \<le> m" "round_trip_costs cm n m \<noteq> NaN"
  shows "Fin 0 \<le> round_trip_costs cm n m"
  using assms unfolding round_trip_costs_def Let_def sane_costs_def
  by (intro fadd_nonneg fdiv_nonneg fmul_nonneg) (auto)

lemma inf_times_zero [simp]: "PInf * Fin 0 = NaN" "NInf * Fin 0 = NaN"
  by (simp_all add: times_pyfloat_def inf_of_def)

lemma no_costs: "round_trip_costs default_costs n m = Fin k \<Longrightarrow> k = 0"
  by (cases "n + m") (simp_all add: round_trip_costs_def default_costs_def)

lemma free_slip: "slip_of default_costs raw = Fin 0 \<or> slip_of default_costs raw = NaN"
  by (cases raw) (simp_all add: no_slip, simp_all add: slip_of_def default_costs_def)

lemma free_exit: "b64 raw \<Longrightarrow> cost_exit_price default_costs raw long = Fin v \<Longrightarrow> raw = Fin v"
  and free_entry: "b64 raw \<Longrightarrow> cost_entry_price default_costs raw long = Fin v \<Longrightarrow> raw = Fin v"
  using free_slip [of raw]
  by (cases raw; auto simp: cost_exit_price_def cost_entry_price_def rnd64_representable
      plus_pyfloat_def minus_pyfloat_def split: if_splits)+

lemma worse_exit:
  assumes "sane_costs cm" "b64 raw" "Fin 0 \<le> raw" "cost_exit_price cm raw long = Fin v"
  shows "if long then Fin v \<le> raw else raw \<le> Fin v"
proof -
  obtain s where "slip_of cm raw = Fin s"
    using assms(4) finite_diff [of raw "slip_of cm raw" v] finite_sum [of raw "slip_of cm raw" v]
    by (auto simp: cost_exit_price_def split: if_splits)
  with slip_nonneg [OF assms(1,3)] fsub_le [OF assms(2), of "Fin s"] fadd_ge [OF assms(2), of "Fin s"] assms(4)
  show ?thesis by (cases long) (simp_all add: cost_exit_price_def)
qed

lemma worse_entry:
  assumes "sane_costs cm" "b64 raw" "Fin 0 \<le> raw" "cost_entry_price cm raw long = Fin v"
  shows "if long then raw \<le> Fin v else Fin v \<le> raw"
proof -
  have "cost_entry_price cm raw long = cost_exit_price cm raw (\<not> long)"
    by (simp add: cost_entry_price_def cost_exit_price_def)
  with assms(4) have "cost_exit_price cm raw (\<not> long) = Fin v" by simp
  from worse_exit [OF assms(1-3) this] show ?thesis by (cases long) simp_all
qed

lemma signed_profit_mono:
  assumes "if long then x' \<le> x \<and> e \<le> e' else x \<le> x' \<and> e' \<le> (e :: pyfloat)" "0 \<le> c"
    and net: "(x' - e') * Fin c * sign_of long = Fin A" and free: "(x - e) * Fin c * sign_of long = Fin B"
  shows "A \<le> B"
proof -
  obtain p1 r1 where p1: "(x' - e') * Fin c = Fin p1" and r1: "(x - e) * Fin c = Fin r1"
    using finite_prod [OF net] finite_prod [OF free] by blast
  obtain p r where p: "x' - e' = Fin p" and r: "x - e = Fin r"
    using finite_prod [OF p1] finite_prod [OF r1] by blast
  have side: "if long then p \<le> r else r \<le> p"
    using assms(1) fsub_mono [OF _ _ p r] fsub_mono [OF _ _ r p] by (cases long) auto
  then have "if long then rnd64 (p * c) \<le> rnd64 (r * c) else rnd64 (r * c) \<le> rnd64 (p * c)"
    using assms(2) by (auto intro!: rnd64_mono mult_right_mono)
  with p1 r1 have "if long then p1 \<le> r1 else r1 \<le> p1" by (auto simp: p r times_pyfloat_def)
  then have "rnd64 (p1 * (if long then 1 else - 1)) \<le> rnd64 (r1 * (if long then 1 else - 1))"
    by (intro rnd64_mono) (auto split: if_splits)
  with net free show ?thesis
    unfolding p1 r1 by (cases long) (simp_all add: sign_of_def)
qed

lemma checked_exit:
  "check_exit cm t c = Some bt \<Longrightarrow>
     \<exists>hit. hit_price (ot_direction t = LONG) (ot_stop t) (ot_target t) c = Some hit
       \<and> (hit = ot_stop t \<or> hit = ot_target t)
       \<and> bt_exit_price bt = cost_exit_price cm hit (ot_direction t = LONG)
       \<and> bt_entry_price bt = ot_entry_price t
       \<and> bt_pnl bt = (bt_exit_price bt - ot_entry_price t) * ot_quantity t * sign_of (ot_direction t = LONG)
           - round_trip_costs cm (ot_entry_price t * ot_quantity t) (bt_exit_price bt * ot_quantity t)"
  by (auto simp: check_exit_def Let_def hit_price_def split: option.splits if_splits)

lemma net_below_gross:
  assumes "gross - costs = Fin a" "b64 gross" "Fin 0 \<le> costs"
  shows "\<exists>g. gross = Fin g \<and> a \<le> g"
  using finite_diff [OF assms(1)] fsub_le [OF assms(2,3)] assms(1) by auto

lemma sized_nonneg: "calculate_position_size e r en st m = Fin c \<Longrightarrow> 0 \<le> c"
  by (auto simp: calculate_position_size_def Let_def pymax_def less_pyfloat_def split: if_splits)

text \<open>Costs never help: over the same signal and the same exit bar, the result of a trade with
  sane costs is never above its result without any, however each operation rounds, as long as
  slippage does not push a price below zero.\<close>

theorem costs_never_help:
  assumes sane: "sane_costs (be_cost_model be)"
    and t: "t = open_trade_of be d entry stop target bar equity"
    and t0: "t0 = open_trade_of (be\<lparr>be_cost_model := default_costs\<rparr>) d entry stop target bar equity"
    and bt: "check_exit (be_cost_model be) t c = Some bt" "bt_pnl bt = Fin a"
    and bt0: "check_exit default_costs t0 c = Some bt0" "bt_pnl bt0 = Fin b"
    and levels: "Fin 0 \<le> entry" "Fin 0 \<le> stop" "Fin 0 \<le> target" "b64 entry" "b64 stop" "b64 target"
    and prices: "Fin 0 \<le> bt_entry_price bt" "Fin 0 \<le> bt_exit_price bt"
  shows "a \<le> b"
proof -
  define long where "long = is_bullish d"
  define cm where "cm = be_cost_model be"
  define q where "q = ot_quantity t"
  have same: "ot_quantity t0 = q" "ot_stop t0 = stop" "ot_target t0 = target" "ot_stop t = stop" "ot_target t = target"
    "(ot_direction t = LONG) = long" "(ot_direction t0 = LONG) = long"
    "ot_entry_price t = cost_entry_price cm entry long" "ot_entry_price t0 = cost_entry_price default_costs entry long"
    by (simp_all add: t t0 q_def long_def cm_def open_trade_of_def Let_def)
  obtain hit where hit: "hit_price long stop target c = Some hit" "hit = stop \<or> hit = target"
    and x: "bt_exit_price bt = cost_exit_price cm hit long" and e: "bt_entry_price bt = cost_entry_price cm entry long"
    and pnl: "bt_pnl bt = (bt_exit_price bt - cost_entry_price cm entry long) * q * sign_of long
       - round_trip_costs cm (cost_entry_price cm entry long * q) (bt_exit_price bt * q)"
    using checked_exit [OF bt(1)] unfolding cm_def [symmetric] q_def [symmetric] same by blast
  obtain hit0 where hit0: "hit_price long stop target c = Some hit0"
    and x0: "bt_exit_price bt0 = cost_exit_price default_costs hit0 long"
    and pnl0: "bt_pnl bt0 = (bt_exit_price bt0 - cost_entry_price default_costs entry long) * q * sign_of long
       - round_trip_costs default_costs (cost_entry_price default_costs entry long * q) (bt_exit_price bt0 * q)"
    using checked_exit [OF bt0(1)] unfolding same by blast
  have "hit0 = hit" using hit hit0 by simp
  note pnl [unfolded bt(2)] and pnl0 [unfolded bt0(2)]
  define e' x' where "e' = cost_entry_price cm entry long" and "x' = bt_exit_price bt"
  define e0 y0 where "e0 = cost_entry_price default_costs entry long" and "y0 = bt_exit_price bt0"
  have N: "(x' - e') * q * sign_of long - round_trip_costs cm (e' * q) (x' * q) = Fin a"
    and N0: "(y0 - e0) * q * sign_of long - round_trip_costs default_costs (e0 * q) (y0 * q) = Fin b"
    using pnl pnl0 bt(2) bt0(2) by (simp_all add: e'_def x'_def e0_def y0_def)
  obtain g k where g: "(x' - e') * q * sign_of long = Fin g" and k: "round_trip_costs cm (e' * q) (x' * q) = Fin k"
    using finite_diff [OF N] by blast
  obtain g0 k0 where g0: "(y0 - e0) * q * sign_of long = Fin g0"
    and k0: "round_trip_costs default_costs (e0 * q) (y0 * q) = Fin k0"
    using finite_diff [OF N0] by blast
  obtain c' where c': "q = Fin c'" using finite_prod g0 by blast
  then have cpos: "0 \<le> c'" using sized_nonneg by (auto simp: q_def t open_trade_of_def Let_def)
  obtain m m0 where "x' - e' = Fin m" "y0 - e0 = Fin m0" using finite_prod g g0 by meson
  then obtain xv ev yv zv where v: "x' = Fin xv" "e' = Fin ev" "y0 = Fin yv" "e0 = Fin zv"
    using finite_diff by meson
  have lv: "Fin 0 \<le> hit" "b64 hit" using hit(2) levels by auto
  have "hit = Fin yv" "entry = Fin zv"
    using free_exit [OF lv(2)] free_entry [OF levels(4)] v x0 \<open>hit0 = hit\<close> by (simp_all add: y0_def e0_def)
  moreover have "if long then Fin xv \<le> hit else hit \<le> Fin xv"
    using worse_exit [OF _ lv(2,1)] sane v x by (simp add: x'_def cm_def)
  moreover have "if long then entry \<le> Fin ev else Fin ev \<le> entry"
    using worse_entry [OF _ levels(4,1)] sane v by (simp add: e'_def cm_def)
  ultimately have "if long then x' \<le> y0 \<and> e0 \<le> e' else y0 \<le> x' \<and> e' \<le> e0"
    using v by (auto split: if_splits)
  then have "g \<le> g0" using signed_profit_mono [OF _ cpos] g g0 c' by blast
  moreover have "Fin 0 \<le> round_trip_costs cm (e' * q) (x' * q)"
  proof (rule round_trip_nonneg)
    show "sane_costs cm" using sane by (simp add: cm_def)
    show "Fin 0 \<le> e' * q" "Fin 0 \<le> x' * q"
      using prices v c' cpos e by (simp_all add: e'_def [symmetric] x'_def [symmetric] rnd64_nonneg)
  qed (simp add: k)
  then have "a \<le> g" using net_below_gross [OF N b64_ops(3)] g by simp
  moreover have "b = g0"
    using N0 no_costs [OF k0] k0 g0 rnd64_representable [of g0] b64_ops(3) [of "(y0 - e0) * q" "sign_of long"]
    by simp
  ultimately show ?thesis by simp
qed

definition demo_backtest :: "cost_model \<Rightarrow> backtest_engine" where
  "demo_backtest cm = \<lparr>be_strategy = gap_strategy, be_starting_capital = Fin 100000, be_cost_model = cm,
     be_smc_config = default_smc_config, be_ict_config = default_ict_config, be_max_position_size = None\<rparr>"

definition demo_costs :: cost_model where
  "demo_costs = default_costs\<lparr>cm_brokerage_flat := Fin 20, cm_slippage_pct := Fin 1\<rparr>"

definition quiet_bar :: candle where "quiet_bar = demo_candle 285 99 101"

definition target_bar :: candle where "target_bar = demo_candle 300 105 111"

definition held_trade :: open_trade where
  "held_trade = \<lparr>ot_direction = LONG, ot_entry_price = Fin 100, ot_stop = Fin 95, ot_target = Fin 110,
     ot_quantity = Fin 100, ot_opened_at = c_time quiet_bar\<rparr>"

lemma held_trade_exit:
  "check_exit default_costs held_trade target_bar = Some
     \<lparr>bt_direction = LONG, bt_entry_price = Fin 100, bt_exit_price = Fin 110, bt_quantity = Fin 100,
      bt_pnl = Fin 1000, bt_r_multiple = Some (Fin 2), bt_opened_at = c_time quiet_bar,
      bt_closed_at = c_time target_bar\<rparr>"
  "check_exit demo_costs (held_trade\<lparr>ot_entry_price := Fin 101\<rparr>) target_bar = Some
     \<lparr>bt_direction = LONG, bt_entry_price = Fin 101, bt_exit_price = Fin (3831578120473805 / 35184372088832),
      bt_quantity = Fin 100, bt_pnl = Fin (6597069766656005 / 8796093022208),
      bt_r_multiple = Some (Fin (5929739509371157 / 4503599627370496)), bt_opened_at = c_time quiet_bar,
      bt_closed_at = c_time target_bar\<rparr>"
  by code_simp+

lemma held_trade_opened:
  "open_trade_of (demo_backtest default_costs) ''bullish'' (Fin 100) (Fin 95) (Fin 110) quiet_bar (Fin 100000) = held_trade"
  "open_trade_of (demo_backtest demo_costs) ''bullish'' (Fin 100) (Fin 95) (Fin 110) quiet_bar (Fin 100000)
     = held_trade\<lparr>ot_entry_price := Fin 101\<rparr>"
  by code_simp+

lemma costs_never_help_witness:
  "\<exists>bt bt0. check_exit demo_costs (open_trade_of (demo_backtest demo_costs) ''bullish'' (Fin 100) (Fin 95)
        (Fin 110) quiet_bar (Fin 100000)) target_bar = Some bt
     \<and> check_exit default_costs (open_trade_of (demo_backtest default_costs) ''bullish'' (Fin 100) (Fin 95)
        (Fin 110) quiet_bar (Fin 100000)) target_bar = Some bt0
     \<and> bt_pnl bt \<le> bt_pnl bt0"
proof -
  have cm: "be_cost_model (demo_backtest demo_costs) = demo_costs"
    "demo_backtest demo_costs\<lparr>be_cost_model := default_costs\<rparr> = demo_backtest default_costs"
    by (simp_all add: demo_backtest_def)
  have sane: "sane_costs (be_cost_model (demo_backtest demo_costs))"
    unfolding cm by (simp add: sane_costs_def demo_costs_def default_costs_def)
  obtain bt a where bt: "check_exit demo_costs (held_trade\<lparr>ot_entry_price := Fin 101\<rparr>) target_bar = Some bt"
    "bt_pnl bt = Fin a" "Fin 0 \<le> bt_entry_price bt" "Fin 0 \<le> bt_exit_price bt"
    by (rule that [OF held_trade_exit(2), of "6597069766656005 / 8796093022208"]) simp_all
  obtain bt0 b where bt0: "check_exit default_costs held_trade target_bar = Some bt0" "bt_pnl bt0 = Fin b"
    by (rule that [OF held_trade_exit(1), of 1000]) simp
  have "a \<le> b"
    by (rule costs_never_help [of "demo_backtest demo_costs" _ "''bullish''" "Fin 100" "Fin 95" "Fin 110" quiet_bar
        "Fin 100000" _ target_bar bt _ bt0])
      (insert bt bt0 sane, simp_all only: cm held_trade_opened, simp_all)
  with bt bt0 show ?thesis unfolding held_trade_opened by simp
qed

subsection \<open>Properties of a pass\<close>


text \<open>C17: no look-ahead: whatever candles come later, a pass over the longer history starts with
  exactly the trades of the pass over the shorter one, and the position held at the cut is either
  still held unchanged at the end or is the one the next trade closes, on one of the later bars.\<close>

theorem backtest_never_looks_ahead:
  assumes "backtest_loop be symbol equity cur seen (xs @ ys) = Inr (ts', fin')"
  shows "\<exists>ts fin rest. backtest_loop be symbol equity cur seen xs = Inr (ts, fin) \<and> ts' = ts @ rest
     \<and> (\<forall>t. fin = Some t \<longrightarrow> (rest = [] \<and> fin' = Some t)
          \<or> (\<exists>c \<in> set ys. \<exists>bt more. check_exit (be_cost_model be) t c = Some bt \<and> rest = bt # more))"
proof -
  from backtest_loop_append [OF assms] obtain ts fin rest where
    l: "backtest_loop be symbol equity cur seen xs = Inr (ts, fin)" "ts' = ts @ rest"
    and r: "backtest_loop be symbol (foldl (\<lambda>e t. e + bt_pnl t) equity ts) fin (seen @ xs) ys = Inr (rest, fin')"
    by blast
  have "(rest = [] \<and> fin' = Some t)
      \<or> (\<exists>c \<in> set ys. \<exists>bt more. check_exit (be_cost_model be) t c = Some bt \<and> rest = bt # more)"
    if "fin = Some t" for t
    using held_trade_closes_first [of be symbol _ t "seen @ xs" ys rest fin'] r that by blast
  with l show ?thesis by blast
qed

lemma backtest_never_looks_ahead_witness:
  "\<exists>ts fin rest. backtest_loop (demo_backtest default_costs) ''A'' (Fin 100000) (Some held_trade) [] [quiet_bar] = Inr (ts, fin)
     \<and> ts @ rest \<noteq> []"
proof -
  have cm: "be_cost_model (demo_backtest default_costs) = default_costs" by (simp add: demo_backtest_def)
  have "check_exit default_costs held_trade quiet_bar = None" by code_simp
  with held_trade_exit(1) obtain t fin where
    "backtest_loop (demo_backtest default_costs) ''A'' (Fin 100000) (Some held_trade) [] ([quiet_bar] @ [target_bar])
     = Inr ([t], fin)" by (simp add: cm)
  from backtest_never_looks_ahead [OF this] show ?thesis by fastforce
qed

text \<open>A stop the market jumped over is still filled at the stop: a long with its stop at 95, on a bar
  that never traded above 91, closes at 95, a price that bar did not offer. The entries, by
  contrast, are only filled inside the bar's range.\<close>

theorem jumped_stop_fills_off_the_bar:
  "map_option bt_exit_price (check_exit default_costs held_trade (demo_candle 300 88 91)) = Some (Fin 95)
   \<and> c_high (demo_candle 300 88 91) < Fin 95"
proof
  show "map_option bt_exit_price (check_exit default_costs held_trade (demo_candle 300 88 91)) = Some (Fin 95)"
    by code_simp
qed (simp add: demo_candle_def)

end
