(* ===== verification/Calendar.thy ===== *)
theory Calendar
  imports Candles
begin

text \<open>
  The dates the code derives from a \<open>datetime\<close>: its year, month and day, its ISO week and its
  ISO text, computed from the proleptic ordinal as Python's \<open>datetime\<close> module does.
\<close>

subsection \<open>Year, month and day\<close>

definition days_before_month :: "int list" where
  "days_before_month = [0, 0, 31, 59, 90, 120, 151, 181, 212, 243, 273, 304, 334]"

definition days_in_month :: "int list" where
  "days_in_month = [0, 31, 28, 31, 30, 31, 30, 31, 31, 30, 31, 30, 31]"

definition year_month_day :: "int \<Rightarrow> int \<times> int \<times> int" where
  "year_month_day ordinal =
     (let n = ordinal - 1;
          n400 = n div 146097; n = n mod 146097;
          n100 = n div 36524; n = n mod 36524;
          n4 = n div 1461; n = n mod 1461;
          n1 = n div 365; n = n mod 365;
          year = n400 * 400 + 1 + n100 * 100 + n4 * 4 + n1
      in if n1 = 4 \<or> n100 = 4 then (year - 1, 12, 31)
         else
           let leapyear = (n1 = 3 \<and> (n4 \<noteq> 24 \<or> n100 = 3));
               month = (n + 50) div 32;
               preceding = days_before_month ! nat month + (if 2 < month \<and> leapyear then 1 else 0)
           in if n < preceding
              then (year, month - 1, n - (preceding - (days_in_month ! nat (month - 1)
                                                       + (if month - 1 = 2 \<and> leapyear then 1 else 0))) + 1)
              else (year, month, n - preceding + 1))"

definition year_month :: "int \<Rightarrow> int \<times> int" where
  "year_month ordinal = (case year_month_day ordinal of (y, m, d) \<Rightarrow> (y, m))"

subsection \<open>ISO weeks\<close>

text \<open>The ordinal of the Monday that starts week 1 of a year.\<close>

definition iso_week1_monday :: "int \<Rightarrow> int" where
  "iso_week1_monday year =
     (let firstday = (year - 1) * 365 + (year - 1) div 4 - (year - 1) div 100 + (year - 1) div 400 + 1;
          firstweekday = (firstday + 6) mod 7;
          monday = firstday - firstweekday
      in if 3 < firstweekday then monday + 7 else monday)"

text \<open>\<open>isocalendar()[:2]\<close>\<close>

definition iso_year_week :: "int \<Rightarrow> int \<times> int" where
  "iso_year_week ordinal =
     (let year = fst (year_month_day ordinal);
          week = (ordinal - iso_week1_monday year) div 7
      in if week < 0 then (year - 1, (ordinal - iso_week1_monday (year - 1)) div 7 + 1)
         else if 52 \<le> week \<and> iso_week1_monday (year + 1) \<le> ordinal then (year + 1, 1)
         else (year, week + 1))"

text \<open>Tuples compare lexicographically.\<close>

definition later_week :: "int \<times> int \<Rightarrow> int \<times> int \<Rightarrow> bool" where
  "later_week a b \<longleftrightarrow> fst b < fst a \<or> fst a = fst b \<and> snd b < snd a"

subsection \<open>ISO text\<close>

text \<open>A number in decimal, at a fixed width.\<close>

fun pad :: "nat \<Rightarrow> int \<Rightarrow> string" where
  "pad 0 n = []"
| "pad (Suc w) n = pad w (n div 10) @ [char_of (48 + n mod 10)]"

definition clock_text :: "int \<Rightarrow> string" where
  "clock_text us = pad 2 (us div 3600000000) @ '':'' @ pad 2 (us div 60000000 mod 60)"

definition seconds_text :: "int \<Rightarrow> string" where
  "seconds_text us = '':'' @ pad 2 (us div 1000000 mod 60)
     @ (if us mod 1000000 = 0 then [] else ''.'' @ pad 6 (us mod 1000000))"

definition offset_text :: "int \<Rightarrow> string" where
  "offset_text off =
     (let us = \<bar>off\<bar>
      in (if off < 0 then ''-'' else ''+'') @ clock_text us
         @ (if us mod 60000000 = 0 then [] else seconds_text us))"

definition isoformat :: "datetime \<Rightarrow> string" where
  "isoformat t =
     (case year_month_day (dt_day t) of
        (y, m, d) \<Rightarrow>
          pad 4 y @ ''-'' @ pad 2 m @ ''-'' @ pad 2 d
          @ ''T'' @ clock_text (dt_us t) @ seconds_text (dt_us t)
          @ (case dt_offset t of None \<Rightarrow> [] | Some off \<Rightarrow> offset_text off))"

end
