(* ===== verification/PySqrt.thy ===== *)
theory PySqrt
  imports Prelude
begin

text \<open>\<open>math.sqrt\<close>, the correctly rounded square root, with its integer root proved correct.\<close>

definition isqrt_bit :: "int \<Rightarrow> int \<Rightarrow> int" where
  "isqrt_bit n r = (if (r + 1)\<^sup>2 \<le> n then r + 1 else r)"

function isqrt :: "int \<Rightarrow> int" where
  "isqrt n = (if n < 2 then n else isqrt_bit n (2 * isqrt (n div 4)))"
  by auto
termination by (relation "measure nat") auto

declare isqrt.simps [simp del]

lemma isqrt_correct: "0 \<le> n \<Longrightarrow> 0 \<le> isqrt n \<and> (isqrt n)\<^sup>2 \<le> n \<and> n < (isqrt n + 1)\<^sup>2"
proof (induction n rule: isqrt.induct)
  case (1 n)
  show ?case
  proof (cases "n < 2")
    case True
    then have "isqrt n = n" by (subst isqrt.simps) simp
    moreover have "n = 0 \<or> n = 1" using True 1(2) by auto
    ultimately show ?thesis by auto
  next
    case False
    define s where "s = isqrt (n div 4)"
    have IH: "0 \<le> s" "s\<^sup>2 \<le> n div 4" "n div 4 < (s + 1)\<^sup>2" using 1(1) [OF False] False by (auto simp: s_def)
    have "4 * s\<^sup>2 \<le> n" "n < 4 * (s + 1)\<^sup>2" using IH(2,3) by linarith+
    then have "(2 * s)\<^sup>2 \<le> n" "n < (2 * s + 2)\<^sup>2" by (simp_all add: power2_eq_square algebra_simps)
    moreover have "isqrt n = (if (2 * s + 1)\<^sup>2 \<le> n then 2 * s + 1 else 2 * s)"
      using False by (subst isqrt.simps) (simp add: isqrt_bit_def s_def)
    ultimately show ?thesis using IH(1) by (auto simp: not_le algebra_simps)
  qed
qed

text \<open>The square root of a positive rational to 53 bits, to nearest, ties to even.\<close>

definition nearest_root :: "rat \<Rightarrow> int \<Rightarrow> int" where
  "nearest_root y n =
     (let twice = of_int ((2 * n + 1)\<^sup>2)
      in if 4 * y < twice then n else if twice < 4 * y then n + 1 else if even n then n else n + 1)"

definition sqrt_pos :: "rat \<Rightarrow> rat" where
  "sqrt_pos q =
     (let e = ilog2 q div 2 - 52;
          y = q / p2 (2 * e)
      in of_int (nearest_root y (isqrt \<lfloor>y\<rfloor>)) * p2 e)"

fun py_sqrt :: "pyfloat \<Rightarrow> py_error + pyfloat" where
  "py_sqrt (Fin q) =
     (if q < 0 then Inl (ValueError ''math domain error'') else if q = 0 then Inr (Fin 0)
      else Inr (Fin (sqrt_pos q)))"
| "py_sqrt PInf = Inr PInf"
| "py_sqrt NInf = Inl (ValueError ''math domain error'')"
| "py_sqrt NaN = Inr NaN"

end
