(* ===== verification/Metrics.thy ===== *)
theory Metrics
  imports Backtest Calendar PySqrt
begin

text \<open>
  The performance report of a backtest (\<open>backtest/metrics.py\<close>) and the out-of-sample comparison
  (\<open>backtest/validation.py\<close>). \<open>x ** 2\<close> goes
  through the C library's \<open>pow\<close>, which is an argument (\<open>sqr\<close>) that may raise. A key of the monthly
  returns is its year and month.
\<close>

subsection \<open>The statistics\<close>

definition int_float :: "nat \<Rightarrow> pyfloat" where
  "int_float n = rnd64 (of_nat n)"

definition std_dev :: "power_fn \<Rightarrow> pyfloat list \<Rightarrow> py_error + pyfloat" where
  "std_dev sqr values =
     (if length values < 2 then Inr (Fin 0)
      else
        let mean = pysum values / of_len values
        in bind_res (map_res (\<lambda>v. sqr (v - mean)) values)
             (\<lambda>squares. py_sqrt (pysum squares / int_float (length values - 1))))"

definition downside_deviation :: "power_fn \<Rightarrow> pyfloat list \<Rightarrow> pyfloat \<Rightarrow> py_error + pyfloat" where
  "downside_deviation sqr values target =
     (if values = [] then Inr (Fin 0)
      else bind_res (map_res (\<lambda>v. sqr (pymin (v - target) (Fin 0))) values)
             (\<lambda>squares. py_sqrt (pysum squares / of_len values)))"

subsection \<open>The report\<close>

record scored_trade =
  tr_direction :: string
  tr_pnl :: pyfloat
  tr_r_multiple :: "pyfloat option"
  tr_closed_at :: "datetime option"

record backtest_metrics =
  mt_total_return :: pyfloat
  mt_net_profit :: pyfloat
  mt_win_rate :: pyfloat
  mt_profit_factor :: "pyfloat option"
  mt_expectancy :: "pyfloat option"
  mt_max_drawdown :: pyfloat
  mt_sharpe :: "pyfloat option"
  mt_sortino :: "pyfloat option"
  mt_average_win :: "pyfloat option"
  mt_average_loss :: "pyfloat option"
  mt_average_r :: "pyfloat option"
  mt_total_trades :: nat
  mt_long_trades :: nat
  mt_short_trades :: nat
  mt_equity_curve :: "pyfloat list"
  mt_drawdown_curve :: "pyfloat list"
  mt_monthly_returns :: "(int \<times> int, pyfloat) dict"

text \<open>The loop over the trades' results: the equity after each, and how far it is below the peak.\<close>

fun curves :: "pyfloat \<Rightarrow> pyfloat \<Rightarrow> pyfloat list \<Rightarrow> (pyfloat \<times> pyfloat) list" where
  "curves equity peak [] = []"
| "curves equity peak (pnl # pnls) =
     (let equity' = equity + pnl; peak' = pymax peak equity'
      in (equity', peak' - equity') # curves equity' peak' pnls)"

definition equity_curve :: "pyfloat \<Rightarrow> pyfloat list \<Rightarrow> pyfloat list" where
  "equity_curve start pnls = start # map fst (curves start start pnls)"

definition drawdown_curve :: "pyfloat \<Rightarrow> pyfloat list \<Rightarrow> pyfloat list" where
  "drawdown_curve start pnls = Fin 0 # map snd (curves start start pnls)"

definition average_or_none :: "pyfloat \<Rightarrow> 'a list \<Rightarrow> pyfloat option" where
  "average_or_none amount xs = (if xs = [] then None else Some (amount / of_len xs))"

definition ratio_or_none :: "pyfloat \<Rightarrow> pyfloat \<Rightarrow> pyfloat option" where
  "ratio_or_none x y = (if Fin 0 < y then Some (x / y) else None)"

definition add_month :: "scored_trade \<Rightarrow> (int \<times> int, pyfloat) dict \<Rightarrow> (int \<times> int, pyfloat) dict" where
  "add_month t d =
     (case tr_closed_at t of
        None \<Rightarrow> d
      | Some closed_at \<Rightarrow>
          let key = year_month (dt_day closed_at);
              old = (case dict_get d key of None \<Rightarrow> Fin 0 | Some x \<Rightarrow> x)
          in dict_put key (old + tr_pnl t) d)"

definition compute_metrics :: "power_fn \<Rightarrow> scored_trade list \<Rightarrow> pyfloat \<Rightarrow> py_error + backtest_metrics" where
  "compute_metrics sqr trades starting_capital =
     (let pnls = map tr_pnl trades;
          net_profit = pysum pnls;
          total_return = (if truthy starting_capital then net_profit / starting_capital * Fin 100 else Fin 0);
          wins = filter (\<lambda>p. Fin 0 < p) pnls;
          losses = filter (\<lambda>p. p < Fin 0) pnls;
          win_rate = (if trades = [] then Fin 0 else rnd64 (of_nat (length wins) / of_nat (length trades)));
          gross_profit = pysum wins;
          gross_loss = \<bar>pysum losses\<bar>;
          profit_factor = ratio_or_none gross_profit gross_loss;
          average_win = average_or_none gross_profit wins;
          average_loss = average_or_none (- gross_loss) losses;
          expectancy = average_or_none net_profit trades;
          r_multiples = concat (map (\<lambda>t. case tr_r_multiple t of None \<Rightarrow> [] | Some r \<Rightarrow> [r]) trades);
          average_r = average_or_none (pysum r_multiples) r_multiples;
          drawdowns = drawdown_curve starting_capital pnls;
          max_drawdown = pymax_list drawdowns;
          returns_pct = (if truthy starting_capital then map (\<lambda>p. p / starting_capital) pnls else [])
      in bind_res
           (if returns_pct = [] then Inr (None, None)
            else
              let mean_return = pysum returns_pct / of_len returns_pct
              in bind_res (std_dev sqr returns_pct) (\<lambda>std_return.
                 bind_res (downside_deviation sqr returns_pct (Fin 0)) (\<lambda>downside.
                   Inr (ratio_or_none mean_return std_return, ratio_or_none mean_return downside))))
           (\<lambda>(sharpe, sortino).
              Inr \<lparr>mt_total_return = pyround 4 total_return, mt_net_profit = pyround 4 net_profit,
                   mt_win_rate = pyround 4 win_rate, mt_profit_factor = map_option (pyround 4) profit_factor,
                   mt_expectancy = map_option (pyround 4) expectancy, mt_max_drawdown = pyround 4 max_drawdown,
                   mt_sharpe = map_option (pyround 4) sharpe, mt_sortino = map_option (pyround 4) sortino,
                   mt_average_win = map_option (pyround 4) average_win,
                   mt_average_loss = map_option (pyround 4) average_loss,
                   mt_average_r = map_option (pyround 4) average_r,
                   mt_total_trades = length trades,
                   mt_long_trades = length (filter (\<lambda>t. tr_direction t = ''LONG'') trades),
                   mt_short_trades = length (filter (\<lambda>t. tr_direction t = ''SHORT'') trades),
                   mt_equity_curve = equity_curve starting_capital pnls, mt_drawdown_curve = drawdowns,
                   mt_monthly_returns = fold add_month trades []\<rparr>))"

subsection \<open>Out of sample\<close>

record dataset_split =
  ds_train :: "candle list"
  ds_validation :: "candle list"
  ds_test :: "candle list"

text \<open>\<open>int(n * pct)\<close>\<close>

definition part_of :: "nat \<Rightarrow> pyfloat \<Rightarrow> nat" where
  "part_of n pct = (case int_float n * pct of Fin q \<Rightarrow> nat \<lfloor>q\<rfloor> | _ \<Rightarrow> 0)"

definition open_unit :: "pyfloat \<Rightarrow> bool" where
  "open_unit x \<longleftrightarrow> Fin 0 < x \<and> x < Fin 1"

definition split_periods :: "candle list \<Rightarrow> pyfloat \<Rightarrow> pyfloat \<Rightarrow> py_error + dataset_split" where
  "split_periods candles train_pct validation_pct =
     (if \<not> open_unit train_pct \<or> \<not> open_unit validation_pct \<or> Fin 1 \<le> train_pct + validation_pct
      then Inl (ValueError ''train_pct + validation_pct must be < 1, and each must be in (0, 1)'')
      else
        let n = length candles;
            train_end = part_of n train_pct;
            validation_end = train_end + part_of n validation_pct
        in Inr \<lparr>ds_train = take train_end candles,
                ds_validation = drop train_end (take validation_end candles),
                ds_test = drop validation_end candles\<rparr>)"

datatype sample_warning = No_test_trades | Unprofitable_on_test | Win_rate_collapse

record out_of_sample_report =
  oos_train :: backtest_metrics
  oos_validation :: backtest_metrics
  oos_test :: backtest_metrics
  oos_consistent :: bool
  oos_warnings :: "sample_warning list"

definition scored :: "backtest_trade \<Rightarrow> scored_trade" where
  "scored bt = \<lparr>tr_direction = direction_value (bt_direction bt), tr_pnl = bt_pnl bt,
     tr_r_multiple = bt_r_multiple bt, tr_closed_at = Some (bt_closed_at bt)\<rparr>"

definition run_metrics ::
  "power_fn \<Rightarrow> backtest_engine \<Rightarrow> string \<Rightarrow> candle list \<Rightarrow> py_error + backtest_metrics" where
  "run_metrics sqr be symbol candles =
     bind_res (backtest_run be candles symbol)
       (\<lambda>(trades, _). compute_metrics sqr (map scored trades) (be_starting_capital be))"

definition sample_warnings ::
  "backtest_metrics \<Rightarrow> backtest_metrics \<Rightarrow> backtest_metrics \<Rightarrow> sample_warning list" where
  "sample_warnings train validation test =
     (if mt_total_trades test = 0 then [No_test_trades]
      else if mt_net_profit test \<le> Fin 0 then [Unprofitable_on_test] else [])
     @ (if 0 < mt_total_trades train \<and> 0 < mt_total_trades validation
        then (if mt_win_rate validation < mt_win_rate train * Fin (1 / 2) then [Win_rate_collapse] else []) else [])"

definition plain_backtest :: "strategy \<Rightarrow> pyfloat \<Rightarrow> cost_model option \<Rightarrow> backtest_engine" where
  "plain_backtest st starting_capital cm =
     \<lparr>be_strategy = st, be_starting_capital = starting_capital,
      be_cost_model = (case cm of None \<Rightarrow> default_costs | Some c \<Rightarrow> c),
      be_smc_config = default_smc_config, be_ict_config = default_ict_config, be_max_position_size = None\<rparr>"

definition validate_out_of_sample ::
  "power_fn \<Rightarrow> strategy \<Rightarrow> candle list \<Rightarrow> string \<Rightarrow> pyfloat \<Rightarrow> cost_model option \<Rightarrow> pyfloat \<Rightarrow> pyfloat
   \<Rightarrow> py_error + out_of_sample_report" where
  "validate_out_of_sample sqr st candles symbol starting_capital cm train_pct validation_pct =
     (let be = plain_backtest st starting_capital cm in
      bind_res (split_periods candles train_pct validation_pct) (\<lambda>split.
      bind_res (run_metrics sqr be symbol (ds_train split)) (\<lambda>train.
      bind_res (run_metrics sqr be symbol (ds_validation split)) (\<lambda>validation.
      bind_res (run_metrics sqr be symbol (ds_test split)) (\<lambda>test.
        let warnings = sample_warnings train validation test
        in Inr \<lparr>oos_train = train, oos_validation = validation, oos_test = test,
                oos_consistent = (warnings = []), oos_warnings = warnings\<rparr>)))))"

subsection \<open>Lemmas\<close>

lemma curves_length [simp]: "length (curves e p xs) = length xs"
  by (induction xs arbitrary: e p) (simp_all add: Let_def)

text \<open>The running maximum is one of the values and bounds those before it.\<close>

lemma curve_drop:
  assumes "\<forall>x \<in> set (map fst (curves e p pnls)). \<exists>q. x = Fin q" "p = Fin p0" "k < length pnls"
    "\<forall>x \<in> set before. x \<le> p" "p \<in> set before"
  shows "\<exists>m. snd (curves e p pnls ! k) = m - fst (curves e p pnls ! k)
     \<and> m \<in> set before \<union> set (map fst (take (Suc k) (curves e p pnls)))
     \<and> (\<forall>x \<in> set before \<union> set (map fst (take (Suc k) (curves e p pnls))). x \<le> m)"
  using assms
proof (induction pnls arbitrary: e p p0 k before)
  case (Cons x pnls)
  define e' where "e' = e + x"
  define p' where "p' = pymax p e'"
  obtain q where q: "e' = Fin q" using Cons.prems(1) by (auto simp: Let_def e'_def)
  have p': "p' = Fin (max p0 q)" using Cons.prems(2) q by (simp add: p'_def pymax_def max_def not_less)
  have step: "curves e p (x # pnls) = (e', p' - e') # curves e' p' pnls" by (simp add: Let_def e'_def p'_def)
  have bound: "\<forall>y \<in> set (e' # before). y \<le> p'"
    using Cons.prems(2,4) p' q by (auto elim!: fle_trans)
  have mem: "p' \<in> set (e' # before)" using Cons.prems(5) pymax_cases [of p e'] by (auto simp: p'_def)
  show ?case
  proof (cases k)
    case 0
    with bound mem step show ?thesis by auto
  next
    case (Suc j)
    have "\<forall>y \<in> set (map fst (curves e' p' pnls)). \<exists>q. y = Fin q" using Cons.prems(1) step by simp
    from Cons.IH [OF this p' _ bound mem, of j] Suc Cons.prems(3) step show ?thesis by auto
  qed
qed simp

lemma drop_at:
  fixes start pnls
  defines "eq \<equiv> equity_curve start pnls" and "dd \<equiv> drawdown_curve start pnls"
  assumes fin: "\<forall>x \<in> set eq. \<exists>q. x = Fin q" and j: "j < length eq"
  shows "\<exists>m \<in> set (take (Suc j) eq). dd ! j = m - eq ! j \<and> (\<forall>x \<in> set (take (Suc j) eq). x \<le> m)"
proof (cases j)
  case 0
  obtain s where "start = Fin s" using fin by (auto simp: eq_def equity_curve_def)
  with 0 show ?thesis by (simp add: eq_def dd_def equity_curve_def drawdown_curve_def)
next
  case (Suc k)
  define cs where "cs = curves start start pnls"
  have eq: "eq = start # map fst cs" and dd: "dd = Fin 0 # map snd cs"
    by (simp_all add: eq_def dd_def cs_def equity_curve_def drawdown_curve_def)
  obtain s where s: "start = Fin s" using fin eq by auto
  have k: "k < length pnls" using j Suc by (simp add: eq cs_def)
  have "\<exists>m. snd (cs ! k) = m - fst (cs ! k) \<and> m \<in> set [start] \<union> set (map fst (take (Suc k) cs))
      \<and> (\<forall>x \<in> set [start] \<union> set (map fst (take (Suc k) cs)). x \<le> m)"
    unfolding cs_def using fin s k by (intro curve_drop) (auto simp: eq cs_def)
  moreover have "set (take (Suc j) eq) = set [start] \<union> set (map fst (take (Suc k) cs))"
    by (simp add: eq Suc take_map)
  moreover have "dd ! j = snd (cs ! k)" "eq ! j = fst (cs ! k)"
    using k by (simp_all add: dd eq Suc cs_def)
  ultimately show ?thesis by auto
qed

lemma curves_step:
  "k < length pnls \<Longrightarrow> fst (curves e p pnls ! k) = (e # map fst (curves e p pnls)) ! k + pnls ! k"
proof (induction pnls arbitrary: e p k)
  case (Cons x pnls)
  then show ?case by (cases k) (simp_all add: Let_def)
qed simp

lemma metrics_curves:
  assumes "compute_metrics sqr trades start = Inr m"
  shows "mt_equity_curve m = equity_curve start (map tr_pnl trades)"
    "mt_drawdown_curve m = drawdown_curve start (map tr_pnl trades)"
    "mt_max_drawdown m = pyround 4 (pymax_list (mt_drawdown_curve m))" "mt_total_trades m = length trades"
  using assms by (auto simp: compute_metrics_def Let_def bind_res_Inr split: if_splits)

subsection \<open>Properties\<close>

text \<open>The report's equity curve is the running account and its drawdown is the real one: the curve
  starts at the capital and adds each trade's result in order, and the maximum drawdown is the
  largest fall from any earlier point of the curve to any later one, attained by two of its points,
  whenever the equities are finite.\<close>

theorem max_drawdown_is_peak_to_trough:
  assumes "compute_metrics sqr trades start = Inr m" and fin: "\<forall>x \<in> set (mt_equity_curve m). \<exists>q. x = Fin q"
  defines "eq \<equiv> mt_equity_curve m"
  shows "length eq = Suc (length trades) \<and> eq ! 0 = start
     \<and> (\<forall>k < length trades. eq ! Suc k = eq ! k + tr_pnl (trades ! k))
     \<and> (\<exists>worst. mt_max_drawdown m = pyround 4 worst
          \<and> (\<exists>i j. i \<le> j \<and> j < length eq \<and> worst = eq ! i - eq ! j)
          \<and> (\<forall>i j. i \<le> j \<and> j < length eq \<longrightarrow> eq ! i - eq ! j \<le> worst))"
proof (intro conjI)
  note mc = metrics_curves [OF assms(1)]
  define dd where "dd = mt_drawdown_curve m"
  have eq: "eq = start # map fst (curves start start (map tr_pnl trades))"
    by (simp add: eq_def mc equity_curve_def)
  show "length eq = Suc (length trades)" "eq ! 0 = start" by (simp_all add: eq)
  show "\<forall>k < length trades. eq ! Suc k = eq ! k + tr_pnl (trades ! k)"
    using curves_step [of _ "map tr_pnl trades" start start] by (simp add: eq)
  have len: "length dd = length eq" by (simp add: dd_def eq_def mc equity_curve_def drawdown_curve_def)
  have at: "\<exists>p \<in> set (take (Suc j) eq). dd ! j = p - eq ! j \<and> (\<forall>x \<in> set (take (Suc j) eq). x \<le> p)"
    if "j < length eq" for j
    using drop_at [of start "map tr_pnl trades" j] fin that by (simp add: dd_def eq_def mc)
  have fin_nth: "\<exists>q. eq ! j = Fin q" if "j < length eq" for j using fin that by (simp add: eq_def)
  have nan: "NaN \<notin> set dd"
  proof
    assume "NaN \<in> set dd"
    then obtain j where j: "j < length eq" "dd ! j = NaN" by (auto simp: in_set_conv_nth len)
    from at [OF j(1)] obtain p where "p \<in> set eq" "dd ! j = p - eq ! j" by (auto dest: in_set_takeD)
    with fin fin_nth [OF j(1)] j(2) show False by (auto simp: eq_def)
  qed
  have ne: "dd \<noteq> []" using len eq by auto
  show "\<exists>worst. mt_max_drawdown m = pyround 4 worst
      \<and> (\<exists>i j. i \<le> j \<and> j < length eq \<and> worst = eq ! i - eq ! j)
      \<and> (\<forall>i j. i \<le> j \<and> j < length eq \<longrightarrow> eq ! i - eq ! j \<le> worst)"
  proof (rule exI [of _ "pymax_list dd"], intro conjI allI impI)
    show "mt_max_drawdown m = pyround 4 (pymax_list dd)" by (simp add: mc dd_def)
    have "pymax_list dd \<in> set dd" using ne by (rule pymax_list_in)
    then obtain j where j: "j < length eq" "pymax_list dd = dd ! j" by (auto simp: in_set_conv_nth len)
    from at [OF j(1)] obtain p where "p \<in> set (take (Suc j) eq)" "dd ! j = p - eq ! j" by blast
    then obtain i where "i < Suc j" "p = eq ! i" by (auto simp: in_set_conv_nth)
    with j \<open>dd ! j = p - eq ! j\<close> show "\<exists>i j. i \<le> j \<and> j < length eq \<and> pymax_list dd = eq ! i - eq ! j"
      by (intro exI [of _ i] exI [of _ j]) simp
  next
    fix i j
    assume ij: "i \<le> j \<and> j < length eq"
    obtain p where p: "p \<in> set (take (Suc j) eq)" "dd ! j = p - eq ! j" "\<forall>x \<in> set (take (Suc j) eq). x \<le> p"
      using at ij by blast
    have "eq ! i \<in> set (take (Suc j) eq)" using ij by (auto simp: in_set_conv_nth intro!: exI [of _ i])
    with p(3) have "eq ! i \<le> p" by blast
    moreover obtain a b c where "eq ! i = Fin a" "eq ! j = Fin b" "p = Fin c"
      using fin_nth ij p(1) fin by (metis eq_def in_set_takeD le_less_trans)
    ultimately have "eq ! i - eq ! j \<le> dd ! j" using p(2) by (simp add: rnd64_mono)
    also have "dd ! j \<le> pymax_list dd" using nan ij by (intro pymax_list_ge) (simp_all add: len)
    finally (fle_trans) show "eq ! i - eq ! j \<le> pymax_list dd" .
  qed
qed

definition demo_scored :: "scored_trade list" where
  "demo_scored = map (\<lambda>p. \<lparr>tr_direction = ''LONG'', tr_pnl = p, tr_r_multiple = None, tr_closed_at = None\<rparr>)
     [Fin 50, Fin (- 80), Fin 20]"

lemma max_drawdown_is_peak_to_trough_witness:
  "\<exists>m. compute_metrics (\<lambda>v. Inr (v * v)) demo_scored (Fin 0) = Inr m
     \<and> mt_equity_curve m = map Fin [0, 50, - 30, - 10]
     \<and> (\<exists>worst. mt_max_drawdown m = pyround 4 worst \<and> (\<forall>i j. i \<le> j \<and> j < 4 \<longrightarrow>
          mt_equity_curve m ! i - mt_equity_curve m ! j \<le> worst))"
proof -
  obtain m where m: "compute_metrics (\<lambda>v. Inr (v * v)) demo_scored (Fin 0) = Inr m"
    "mt_equity_curve m = map Fin [0, 50, - 30, - 10]"
  proof -
    have "map_option mt_equity_curve (case compute_metrics (\<lambda>v. Inr (v * v)) demo_scored (Fin 0) of
      Inr m \<Rightarrow> Some m | Inl e \<Rightarrow> None) = Some (map Fin [0, 50, - 30, - 10])" by code_simp
    then show thesis by (auto split: sum.splits intro: that)
  qed
  have "\<forall>x \<in> set (mt_equity_curve m). \<exists>q. x = Fin q" using m(2) by simp
  from max_drawdown_is_peak_to_trough [OF m(1) this] m show ?thesis by auto
qed

end
