(* ===== verification/Replay.thy ===== *)
theory Replay
  imports SmcEngine Ict Domain
begin

text \<open>
  Manual replay of a candle history (\<open>replay/clock.py\<close>, \<open>replay/engine.py\<close>,
  \<open>replay/statistics.py\<close>) and the actions a client can take on a session (\<open>api/replay.py\<close>). A
  refused action raises and leaves the engine as it was; \<open>advance\<close> returns the engine it leaves
  together with its result, since it would raise half-way. Proved: the balance is what the closed
  trades booked, everything booked fits the journal's columns, advancing never raises, and no action
  sees a candle past the cursor.
\<close>

subsection \<open>The clock\<close>

datatype replay_status = CREATED | PLAYING | PAUSED | FINISHED

record replay_clock =
  rc_candles :: "candle list"
  rc_cursor :: nat
  rc_speed :: pyfloat
  rc_status :: replay_status

definition new_clock :: "candle list \<Rightarrow> pyfloat \<Rightarrow> py_error + replay_clock" where
  "new_clock candles speed =
     (if candles = [] then Inl (ValueError ''Replay requires at least one candle'')
      else Inr \<lparr>rc_candles = candles, rc_cursor = 0, rc_speed = speed, rc_status = CREATED\<rparr>)"

definition visible_candles :: "replay_clock \<Rightarrow> candle list" where
  "visible_candles rc = take (rc_cursor rc + 1) (rc_candles rc)"

definition current_candle :: "replay_clock \<Rightarrow> candle" where
  "current_candle rc = rc_candles rc ! rc_cursor rc"

definition clock_finished :: "replay_clock \<Rightarrow> bool" where
  "clock_finished rc \<longleftrightarrow> int (length (rc_candles rc)) - 1 \<le> int (rc_cursor rc)"

definition clock_play :: "replay_clock \<Rightarrow> replay_clock" where
  "clock_play rc = rc\<lparr>rc_status := (if clock_finished rc then FINISHED else PLAYING)\<rparr>"

definition clock_pause :: "replay_clock \<Rightarrow> replay_clock" where
  "clock_pause rc = rc\<lparr>rc_status := PAUSED\<rparr>"

definition clock_reset :: "replay_clock \<Rightarrow> replay_clock" where
  "clock_reset rc = rc\<lparr>rc_cursor := 0, rc_status := CREATED\<rparr>"

definition set_speed :: "pyfloat \<Rightarrow> replay_clock \<Rightarrow> py_error + replay_clock" where
  "set_speed speed rc =
     (if speed \<le> Fin 0 then Inl (ValueError ''speed must be positive'') else Inr (rc\<lparr>rc_speed := speed\<rparr>))"

definition next_candle :: "replay_clock \<Rightarrow> replay_clock \<times> candle" where
  "next_candle rc =
     (if clock_finished rc then (rc\<lparr>rc_status := FINISHED\<rparr>, current_candle rc)
      else
        let rc = rc\<lparr>rc_cursor := rc_cursor rc + 1\<rparr>;
            rc = (if clock_finished rc then rc\<lparr>rc_status := FINISHED\<rparr> else rc)
        in (rc, current_candle rc))"

subsection \<open>Trades\<close>

datatype replay_error = AlreadyOpen | NoOpenPosition | Unrecordable | MissingPrice | UnknownAction string

definition MAX_JOURNALLED :: pyfloat where
  "MAX_JOURNALLED = Fin 1000000000000"

record replay_trade =
  rt_direction :: direction
  rt_entry_price :: pyfloat
  rt_quantity :: pyfloat
  rt_opened_index :: nat
  rt_opened_at :: datetime
  rt_stop :: "pyfloat option"
  rt_target :: "pyfloat option"
  rt_initial_stop :: "pyfloat option"
  rt_exit_price :: "pyfloat option"
  rt_closed_index :: "nat option"
  rt_closed_at :: "datetime option"
  rt_pnl :: "pyfloat option"
  rt_r_multiple :: "pyfloat option"
  rt_id :: uuid

definition trade_is_open :: "replay_trade \<Rightarrow> bool" where
  "trade_is_open t \<longleftrightarrow> rt_exit_price t = None"

record replay_engine =
  rp_clock :: replay_clock
  rp_starting_balance :: pyfloat
  rp_balance :: pyfloat
  rp_smc :: smc_config
  rp_ict :: ict_config
  rp_open :: "replay_trade option"
  rp_closed :: "replay_trade list"

definition new_replay ::
  "candle list \<Rightarrow> pyfloat \<Rightarrow> smc_config option \<Rightarrow> ict_config option \<Rightarrow> py_error + replay_engine" where
  "new_replay candles starting_balance smc ict =
     bind_res (new_clock candles (Fin 1)) (\<lambda>rc.
       Inr \<lparr>rp_clock = rc, rp_starting_balance = starting_balance, rp_balance = starting_balance,
            rp_smc = (case smc of None \<Rightarrow> default_smc_config | Some c \<Rightarrow> c),
            rp_ict = (case ict of None \<Rightarrow> default_ict_config | Some c \<Rightarrow> c),
            rp_open = None, rp_closed = []\<rparr>)"

definition replay_analyze :: "replay_engine \<Rightarrow> py_error + smc_context \<times> ict_context" where
  "replay_analyze re =
     (let visible = visible_candles (rp_clock re)
      in bind_res (analyze (rp_smc re) visible) (\<lambda>smc.
         bind_res (ict_analyze (rp_ict re) visible) (\<lambda>ict. Inr (smc, ict))))"

definition open_position :: "uuid \<Rightarrow> direction \<Rightarrow> pyfloat \<Rightarrow> replay_engine \<Rightarrow> replay_error + replay_engine" where
  "open_position new_id direction quantity re =
     (if rp_open re \<noteq> None then Inl AlreadyOpen
      else
        let candle = current_candle (rp_clock re)
        in Inr (re\<lparr>rp_open := Some
             \<lparr>rt_direction = direction, rt_entry_price = c_close candle, rt_quantity = quantity,
              rt_opened_index = rc_cursor (rp_clock re), rt_opened_at = c_time candle,
              rt_stop = None, rt_target = None, rt_initial_stop = None, rt_exit_price = None,
              rt_closed_index = None, rt_closed_at = None, rt_pnl = None, rt_r_multiple = None,
              rt_id = new_id\<rparr>\<rparr>))"

definition trade_sign :: "replay_trade \<Rightarrow> pyfloat" where
  "trade_sign t = (if rt_direction t = LONG then Fin 1 else Fin (- 1))"

definition pnl_at :: "replay_trade \<Rightarrow> pyfloat \<Rightarrow> pyfloat" where
  "pnl_at t exit_price = (exit_price - rt_entry_price t) * rt_quantity t * trade_sign t"

definition journal_cannot_hold :: "pyfloat \<Rightarrow> replay_trade \<Rightarrow> pyfloat \<Rightarrow> bool" where
  "journal_cannot_hold balance t exit_price \<longleftrightarrow>
     MAX_JOURNALLED \<le> \<bar>pnl_at t exit_price\<bar> \<or> MAX_JOURNALLED \<le> \<bar>balance + pnl_at t exit_price\<bar>"

definition set_stop :: "pyfloat \<Rightarrow> replay_engine \<Rightarrow> replay_error + replay_engine" where
  "set_stop price re =
     (case rp_open re of
        None \<Rightarrow> Inl NoOpenPosition
      | Some t \<Rightarrow>
          if journal_cannot_hold (rp_balance re) t price then Inl Unrecordable
          else Inr (re\<lparr>rp_open := Some (t\<lparr>rt_stop := Some price,
                 rt_initial_stop := (case rt_initial_stop t of None \<Rightarrow> Some price | Some s \<Rightarrow> Some s)\<rparr>)\<rparr>))"

definition set_target :: "pyfloat \<Rightarrow> replay_engine \<Rightarrow> replay_error + replay_engine" where
  "set_target price re =
     (case rp_open re of
        None \<Rightarrow> Inl NoOpenPosition
      | Some t \<Rightarrow>
          if journal_cannot_hold (rp_balance re) t price then Inl Unrecordable
          else Inr (re\<lparr>rp_open := Some (t\<lparr>rt_target := Some price\<rparr>)\<rparr>))"

text \<open>The reward in units of the risk taken when the stop was first placed.\<close>

definition r_multiple_at :: "replay_trade \<Rightarrow> pyfloat \<Rightarrow> pyfloat option" where
  "r_multiple_at t exit_price =
     (case rt_initial_stop t of
        None \<Rightarrow> None
      | Some s \<Rightarrow>
          if py_eq (rt_entry_price t) s then None
          else Some (((exit_price - rt_entry_price t) * trade_sign t) / \<bar>rt_entry_price t - s\<bar>))"

definition closed_trade :: "replay_clock \<Rightarrow> pyfloat \<Rightarrow> replay_trade \<Rightarrow> replay_trade" where
  "closed_trade rc exit_price t =
     t\<lparr>rt_exit_price := Some exit_price, rt_closed_index := Some (rc_cursor rc),
       rt_closed_at := Some (c_time (current_candle rc)), rt_pnl := Some (pnl_at t exit_price),
       rt_r_multiple := (case r_multiple_at t exit_price of None \<Rightarrow> rt_r_multiple t | Some r \<Rightarrow> Some r)\<rparr>"

definition close_trade :: "pyfloat option \<Rightarrow> replay_engine \<Rightarrow> replay_error + replay_engine" where
  "close_trade price re =
     (case rp_open re of
        None \<Rightarrow> Inl NoOpenPosition
      | Some t \<Rightarrow>
          let exit_price = (case price of None \<Rightarrow> c_close (current_candle (rp_clock re)) | Some p \<Rightarrow> p)
          in if journal_cannot_hold (rp_balance re) t exit_price then Inl Unrecordable
             else Inr (re\<lparr>rp_balance := rp_balance re + pnl_at t exit_price,
                    rp_closed := rp_closed re @ [closed_trade (rp_clock re) exit_price t],
                    rp_open := None\<rparr>))"

text \<open>The level a candle touches, the stop first.\<close>

definition touched_level :: "candle \<Rightarrow> replay_trade \<Rightarrow> pyfloat option" where
  "touched_level c t =
     (let reached = (\<lambda>P level. case level of None \<Rightarrow> False | Some x \<Rightarrow> P x)
      in if rt_direction t = LONG
         then if reached (\<lambda>x. c_low c \<le> x) (rt_stop t) then rt_stop t
              else if reached (\<lambda>x. x \<le> c_high c) (rt_target t) then rt_target t else None
         else if reached (\<lambda>x. x \<le> c_high c) (rt_stop t) then rt_stop t
              else if reached (\<lambda>x. c_low c \<le> x) (rt_target t) then rt_target t else None)"

definition check_stop_target :: "candle \<Rightarrow> replay_engine \<Rightarrow> replay_error + replay_engine" where
  "check_stop_target c re =
     (case rp_open re of
        None \<Rightarrow> Inr re
      | Some t \<Rightarrow> (case touched_level c t of None \<Rightarrow> Inr re | Some p \<Rightarrow> close_trade (Some p) re))"

fun advance_loop :: "nat \<Rightarrow> candle \<Rightarrow> replay_engine \<Rightarrow> replay_engine \<times> (replay_error + candle)" where
  "advance_loop 0 candle re = (re, Inr candle)"
| "advance_loop (Suc n) candle re =
     (if clock_finished (rp_clock re) then (re, Inr candle)
      else case next_candle (rp_clock re) of (rc, candle) \<Rightarrow>
        let re = re\<lparr>rp_clock := rc\<rparr>
        in case check_stop_target candle re of
             Inl e \<Rightarrow> (re, Inl e)
           | Inr re \<Rightarrow> advance_loop n candle re)"

definition advance :: "int \<Rightarrow> replay_engine \<Rightarrow> replay_engine \<times> (replay_error + candle)" where
  "advance steps re = advance_loop (nat steps) (current_candle (rp_clock re)) re"

subsection \<open>Statistics\<close>

record replay_statistics =
  rs_starting_balance :: pyfloat
  rs_ending_balance :: pyfloat
  rs_net_pnl :: pyfloat
  rs_win_rate :: pyfloat
  rs_profit_factor :: "pyfloat option"
  rs_max_drawdown :: pyfloat
  rs_trades :: nat
  rs_average_r :: "pyfloat option"
  rs_best_trade :: "pyfloat option"
  rs_worst_trade :: "pyfloat option"

fun drawdown_loop :: "pyfloat \<Rightarrow> pyfloat \<Rightarrow> pyfloat \<Rightarrow> pyfloat list \<Rightarrow> pyfloat" where
  "drawdown_loop equity peak worst [] = worst"
| "drawdown_loop equity peak worst (p # ps) =
     (let equity = equity + p; peak = pymax peak equity
      in drawdown_loop equity peak (pymax worst (peak - equity)) ps)"

definition compute_statistics :: "pyfloat list \<Rightarrow> pyfloat \<Rightarrow> pyfloat list option \<Rightarrow> replay_statistics" where
  "compute_statistics pnls starting_balance r_multiples =
     (let net_pnl = pysum pnls;
          wins = filter (\<lambda>p. Fin 0 < p) pnls;
          losses = filter (\<lambda>p. p < Fin 0) pnls;
          gross_loss = \<bar>pysum losses\<bar>;
          rs = (case r_multiples of None \<Rightarrow> [] | Some rs \<Rightarrow> rs)
      in \<lparr>rs_starting_balance = starting_balance,
          rs_ending_balance = starting_balance + net_pnl,
          rs_net_pnl = net_pnl,
          rs_win_rate = pyround 4 (if pnls = [] then Fin 0 else of_len wins / of_len pnls),
          rs_profit_factor = (if Fin 0 < gross_loss then Some (pyround 4 (pysum wins / gross_loss)) else None),
          rs_max_drawdown = pyround 4 (drawdown_loop starting_balance starting_balance (Fin 0) pnls),
          rs_trades = length pnls,
          rs_average_r = (if rs = [] then None else Some (pyround 4 (pysum rs / of_len rs))),
          rs_best_trade = (if pnls = [] then None else Some (pymax_list pnls)),
          rs_worst_trade = (if pnls = [] then None else Some (pymin_list pnls))\<rparr>)"

definition replay_statistics_of :: "replay_engine \<Rightarrow> replay_statistics" where
  "replay_statistics_of re =
     compute_statistics (List.map_filter rt_pnl (rp_closed re)) (rp_starting_balance re)
       (Some (List.map_filter rt_r_multiple (rp_closed re)))"

subsection \<open>The actions of a session\<close>

definition reset_replay :: "replay_engine \<Rightarrow> replay_engine" where
  "reset_replay re =
     re\<lparr>rp_clock := clock_reset (rp_clock re), rp_open := None, rp_closed := [],
        rp_balance := rp_starting_balance re\<rparr>"

text \<open>An order request after its bounds: the quantity and the price it carries, if any.\<close>

definition submit_replay_order ::
  "uuid \<Rightarrow> string \<Rightarrow> pyfloat option \<Rightarrow> pyfloat option \<Rightarrow> replay_engine \<Rightarrow> replay_error + replay_engine" where
  "submit_replay_order new_id action quantity price re =
     (let quantity = (case quantity of None \<Rightarrow> Fin 1 | Some q \<Rightarrow> q);
          at_price = (\<lambda>f. case price of None \<Rightarrow> Inl MissingPrice | Some p \<Rightarrow> f p re)
      in if action = ''buy'' then open_position new_id LONG quantity re
         else if action = ''sell'' then open_position new_id SHORT quantity re
         else if action = ''close'' then close_trade price re
         else if action = ''set_stop'' then at_price set_stop
         else if action = ''set_target'' then at_price set_target
         else Inl (UnknownAction action))"

text \<open>The request's validator: a bound on each number, and a price where the action is one.\<close>

definition valid_order_request :: "string \<Rightarrow> pyfloat option \<Rightarrow> pyfloat option \<Rightarrow> bool" where
  "valid_order_request action quantity price \<longleftrightarrow>
     (case quantity of None \<Rightarrow> True | Some q \<Rightarrow> Fin 0 < q \<and> q < MAX_JOURNALLED)
     \<and> (case price of None \<Rightarrow> True | Some p \<Rightarrow> Fin 0 < p \<and> p < MAX_JOURNALLED)
     \<and> (action = ''set_stop'' \<or> action = ''set_target'' \<longrightarrow> price \<noteq> None)"

datatype replay_action =
    Order uuid string "pyfloat option" "pyfloat option"
  | Step int
  | Play
  | Pause
  | Reset

fun act :: "replay_action \<Rightarrow> replay_engine \<Rightarrow> replay_engine \<times> replay_error option" where
  "act (Order new_id action quantity price) re =
     (case submit_replay_order new_id action quantity price re of
        Inl e \<Rightarrow> (re, Some e)
      | Inr re' \<Rightarrow> (re', None))"
| "act (Step n) re =
     (case advance n re of (re', Inl e) \<Rightarrow> (re', Some e) | (re', Inr c) \<Rightarrow> (re', None))"
| "act Play re = (re\<lparr>rp_clock := clock_play (rp_clock re)\<rparr>, None)"
| "act Pause re = (re\<lparr>rp_clock := clock_pause (rp_clock re)\<rparr>, None)"
| "act Reset re = (reset_replay re, None)"

definition session_run :: "replay_action list \<Rightarrow> replay_engine \<Rightarrow> replay_engine" where
  "session_run acts re = foldl (\<lambda>re a. fst (act a re)) re acts"

subsection \<open>Numbers the journal holds\<close>

definition recordable :: "pyfloat \<Rightarrow> bool" where
  "recordable x \<longleftrightarrow> \<bar>x\<bar> < MAX_JOURNALLED"

lemma recordable_Fin: "recordable x \<longleftrightarrow> (\<exists>q. x = Fin q \<and> \<bar>q\<bar> < 1000000000000)"
  by (cases x) (simp_all add: recordable_def MAX_JOURNALLED_def)

lemma rnd64_bounded:
  assumes "\<bar>x\<bar> \<le> p2 k" "0 \<le> k" "k \<le> 971"
  shows "\<exists>r. rnd64 x = Fin r \<and> \<bar>r\<bar> \<le> p2 k"
proof -
  have rep: "representable (p2 k)"
    unfolding representable_def by (intro exI [of _ 1] exI [of _ k]) (use assms in simp)
  then have up: "rnd64 x \<le> Fin (p2 k)"
    using rnd64_mono [of x "p2 k"] assms(1) by (simp add: rnd64_representable)
  have "representable (- p2 k)" using rep by simp
  then have "Fin (- p2 k) \<le> rnd64 x"
    using rnd64_mono [of "- p2 k" x] assms(1) by (simp add: rnd64_representable del: representable_minus)
  with up show ?thesis by (cases "rnd64 x") (auto simp: abs_le_iff)
qed

lemma pnl_finite:
  assumes "recordable p" "recordable (rt_entry_price t)" "recordable (rt_quantity t)"
  shows "\<exists>r. pnl_at t p = Fin r"
proof -
  obtain a e q where a: "p = Fin a" "\<bar>a\<bar> < 1000000000000" and e: "rt_entry_price t = Fin e" "\<bar>e\<bar> < 1000000000000"
    and q: "rt_quantity t = Fin q" "\<bar>q\<bar> < 1000000000000"
    using assms by (auto simp: recordable_Fin)
  have k: "p2 41 = 2199023255552" "p2 81 = 2417851639229258349412352" by (simp_all add: p2_def)
  have "\<bar>a - e\<bar> \<le> p2 41" using a e by (simp add: k)
  then obtain d where d: "rnd64 (a - e) = Fin d" "\<bar>d\<bar> \<le> p2 41" using rnd64_bounded by fastforce
  have "\<bar>d * q\<bar> \<le> p2 41 * 1000000000000"
    unfolding abs_mult using d(2) q(2) by (intro mult_mono) auto
  then have "\<bar>d * q\<bar> \<le> p2 81" by (simp add: k)
  then obtain x where x: "rnd64 (d * q) = Fin x" "\<bar>x\<bar> \<le> p2 81" using rnd64_bounded by fastforce
  have "\<bar>x * s\<bar> \<le> p2 81" if "\<bar>s\<bar> = 1" for s using x(2) that by (simp add: abs_mult)
  then have "\<exists>r. rnd64 (x * s) = Fin r" if "\<bar>s\<bar> = 1" for s using rnd64_bounded [of "x * s" 81] that by fastforce
  from this [of 1] this [of "- 1"] show ?thesis
    by (auto simp: pnl_at_def trade_sign_def a(1) e(1) q(1) d(1) x(1))
qed

lemma journal_holds:
  assumes "\<not> journal_cannot_hold b t p" "recordable b" "pnl_at t p = Fin r"
  shows "recordable (pnl_at t p) \<and> recordable (b + pnl_at t p)"
proof -
  obtain q where "b = Fin q" using assms(2) by (auto simp: recordable_Fin)
  then show ?thesis
    using assms(1,3) by (cases "rnd64 (q + r)") (auto simp: journal_cannot_hold_def recordable_def MAX_JOURNALLED_def)
qed

subsection \<open>What every session keeps\<close>

definition level_ok :: "pyfloat \<Rightarrow> replay_trade \<Rightarrow> pyfloat option \<Rightarrow> bool" where
  "level_ok balance t level =
     (case level of None \<Rightarrow> True | Some p \<Rightarrow> recordable p \<and> \<not> journal_cannot_hold balance t p)"

definition open_ok :: "pyfloat \<Rightarrow> replay_trade \<Rightarrow> bool" where
  "open_ok balance t \<longleftrightarrow>
     recordable (rt_entry_price t) \<and> recordable (rt_quantity t) \<and> trade_is_open t
     \<and> level_ok balance t (rt_stop t) \<and> level_ok balance t (rt_target t)"

definition closed_ok :: "replay_trade \<Rightarrow> bool" where
  "closed_ok t \<longleftrightarrow> \<not> trade_is_open t \<and> (case rt_pnl t of None \<Rightarrow> False | Some p \<Rightarrow> recordable p)"

definition replay_inv :: "pyfloat \<Rightarrow> candle list \<Rightarrow> replay_engine \<Rightarrow> bool" where
  "replay_inv start cs re \<longleftrightarrow>
     rp_starting_balance re = start \<and> rc_candles (rp_clock re) = cs
     \<and> rc_cursor (rp_clock re) < length cs
     \<and> list_all (\<lambda>c. recordable (c_close c)) cs
     \<and> recordable start \<and> recordable (rp_balance re)
     \<and> foldl (+) start (List.map_filter rt_pnl (rp_closed re)) = rp_balance re
     \<and> list_all closed_ok (rp_closed re)
     \<and> (case rp_open re of None \<Rightarrow> True | Some t \<Rightarrow> open_ok (rp_balance re) t)"

lemma journal_ignores_levels [simp]:
  "journal_cannot_hold b (t\<lparr>rt_stop := s, rt_initial_stop := i\<rparr>) p = journal_cannot_hold b t p"
  "journal_cannot_hold b (t\<lparr>rt_target := s\<rparr>) p = journal_cannot_hold b t p"
  by (simp_all add: journal_cannot_hold_def pnl_at_def trade_sign_def)

lemma current_close:
  "replay_inv start cs re \<Longrightarrow> recordable (c_close (current_candle (rp_clock re)))"
  by (auto simp: replay_inv_def current_candle_def list_all_iff)

lemma open_inv:
  "replay_inv start cs re \<Longrightarrow> recordable q \<Longrightarrow> open_position i d q re = Inr re' \<Longrightarrow> replay_inv start cs re'"
  using current_close [of start cs re]
  by (auto simp: open_position_def Let_def replay_inv_def open_ok_def level_ok_def trade_is_open_def split: if_splits)

lemma open_trade_ok: "replay_inv start cs re \<Longrightarrow> rp_open re = Some t \<Longrightarrow> open_ok (rp_balance re) t"
  unfolding replay_inv_def by (elim conjE) (simp only: option.case)

lemma set_stop_inv:
  assumes inv: "replay_inv start cs re" and p: "recordable p" and set: "set_stop p re = Inr re'"
  shows "replay_inv start cs re'"
proof -
  obtain t i where t: "rp_open re = Some t" and ok: "\<not> journal_cannot_hold (rp_balance re) t p"
    and re': "re' = re\<lparr>rp_open := Some (t\<lparr>rt_stop := Some p, rt_initial_stop := i\<rparr>)\<rparr>"
    using set by (auto simp: set_stop_def split: option.splits if_splits)
  have "open_ok (rp_balance re) t" using inv t by (rule open_trade_ok)
  then have "open_ok (rp_balance re) (t\<lparr>rt_stop := Some p, rt_initial_stop := i\<rparr>)"
    using p ok by (simp add: open_ok_def level_ok_def trade_is_open_def cong: option.case_cong)
  with inv show ?thesis by (simp add: replay_inv_def re')
qed

lemma set_target_inv:
  assumes inv: "replay_inv start cs re" and p: "recordable p" and set: "set_target p re = Inr re'"
  shows "replay_inv start cs re'"
proof -
  obtain t where t: "rp_open re = Some t" and ok: "\<not> journal_cannot_hold (rp_balance re) t p"
    and re': "re' = re\<lparr>rp_open := Some (t\<lparr>rt_target := Some p\<rparr>)\<rparr>"
    using set by (auto simp: set_target_def split: option.splits if_splits)
  have "open_ok (rp_balance re) t" using inv t by (rule open_trade_ok)
  then have "open_ok (rp_balance re) (t\<lparr>rt_target := Some p\<rparr>)"
    using p ok by (simp add: open_ok_def level_ok_def trade_is_open_def cong: option.case_cong)
  with inv show ?thesis by (simp add: replay_inv_def re')
qed

lemma close_inv:
  assumes inv: "replay_inv start cs re" and p: "case price of None \<Rightarrow> True | Some p \<Rightarrow> recordable p"
    and close: "close_trade price re = Inr re'"
  shows "replay_inv start cs re'"
proof -
  define x where "x = (case price of None \<Rightarrow> c_close (current_candle (rp_clock re)) | Some p \<Rightarrow> p)"
  obtain t where t: "rp_open re = Some t" and ok: "\<not> journal_cannot_hold (rp_balance re) t x"
    and re': "re' = re\<lparr>rp_balance := rp_balance re + pnl_at t x,
        rp_closed := rp_closed re @ [closed_trade (rp_clock re) x t], rp_open := None\<rparr>"
    using close by (auto simp: close_trade_def Let_def x_def split: option.splits if_splits)
  have "recordable x" using p current_close [OF inv] by (simp add: x_def split: option.splits)
  then obtain r where r: "pnl_at t x = Fin r"
    using pnl_finite open_trade_ok [OF inv t] by (fastforce simp: open_ok_def)
  note holds = journal_holds [OF ok _ r]
  show ?thesis
    using inv holds by (auto simp: re' replay_inv_def closed_ok_def trade_is_open_def closed_trade_def List.map_filter_def)
qed

lemma touched_level_cases:
  "touched_level c t = Some p \<Longrightarrow> rt_stop t = Some p \<or> rt_target t = Some p"
  by (auto simp: touched_level_def Let_def split: if_splits)

text \<open>A level that was accepted can be filled: the balance it was checked against is still the balance.\<close>

lemma check_stop_target_ok:
  assumes inv: "replay_inv start cs re"
  shows "\<exists>re'. check_stop_target c re = Inr re' \<and> replay_inv start cs re' \<and> rp_clock re' = rp_clock re"
proof (cases "rp_open re")
  case None
  then show ?thesis using inv by (simp add: check_stop_target_def)
next
  case (Some t)
  show ?thesis
  proof (cases "touched_level c t")
    case None
    then show ?thesis using inv Some by (simp add: check_stop_target_def)
  next
    case p: (Some p)
    then have "recordable p \<and> \<not> journal_cannot_hold (rp_balance re) t p"
      using open_trade_ok [OF inv Some] touched_level_cases [OF p] by (auto simp: open_ok_def level_ok_def)
    then obtain re' where "close_trade (Some p) re = Inr re'" "rp_clock re' = rp_clock re"
      by (simp add: close_trade_def Some)
    with close_inv [OF inv, of "Some p" re'] \<open>recordable p \<and> _\<close> show ?thesis
      by (simp add: check_stop_target_def Some p)
  qed
qed

lemma next_candle_cursor:
  assumes "\<not> clock_finished rc" "next_candle rc = (rc', c)"
  shows "rc_cursor rc' = rc_cursor rc + 1 \<and> rc_cursor rc' < length (rc_candles rc)
    \<and> rc_candles rc' = rc_candles rc \<and> c = rc_candles rc ! rc_cursor rc'"
  using assms by (auto simp: next_candle_def clock_finished_def current_candle_def Let_def split: if_splits)

lemma replay_inv_clock:
  "replay_inv start cs re \<Longrightarrow> rc_cursor rc < length (rc_candles rc) \<Longrightarrow> rc_candles rc = rc_candles (rp_clock re) \<Longrightarrow>
     replay_inv start cs (re\<lparr>rp_clock := rc\<rparr>)"
  by (simp add: replay_inv_def split: option.splits)

lemma advance_loop_ok:
  "replay_inv start cs re \<Longrightarrow> \<exists>re' c'. advance_loop n c re = (re', Inr c') \<and> replay_inv start cs re'
     \<and> rc_candles (rp_clock re') = rc_candles (rp_clock re)
     \<and> rc_cursor (rp_clock re') = min (rc_cursor (rp_clock re) + n) (length (rc_candles (rp_clock re)) - 1)"
proof (induction n c re rule: advance_loop.induct)
  case (1 c re)
  then show ?case by (auto simp: replay_inv_def)
next
  case (2 n c re)
  have cur: "rc_cursor (rp_clock re) < length (rc_candles (rp_clock re))" using 2 by (simp add: replay_inv_def)
  show ?case
  proof (cases "clock_finished (rp_clock re)")
    case True
    then show ?thesis using 2 cur by (auto simp: clock_finished_def)
  next
    case False
    obtain rc k where step: "next_candle (rp_clock re) = (rc, k)" by force
    note nc = next_candle_cursor [OF False step]
    have "replay_inv start cs (re\<lparr>rp_clock := rc\<rparr>)" using "2.prems" nc by (intro replay_inv_clock) auto
    then obtain re1 where re1: "check_stop_target k (re\<lparr>rp_clock := rc\<rparr>) = Inr re1" "replay_inv start cs re1" "rp_clock re1 = rc"
      using check_stop_target_ok [of start cs "re\<lparr>rp_clock := rc\<rparr>" k] by auto
    from "2.IH" [OF False step [symmetric] refl re1(1) re1(2)] show ?thesis
      using False step re1 nc by (auto simp: Let_def)
  qed
qed

text \<open>Every action keeps the invariant, requests being within their bounds.\<close>

fun valid_action :: "replay_action \<Rightarrow> bool" where
  "valid_action (Order i action quantity price) = valid_order_request action quantity price"
| "valid_action a = True"

lemma bounded_recordable: "Fin 0 < x \<Longrightarrow> x < MAX_JOURNALLED \<Longrightarrow> recordable x"
  by (cases x) (simp_all add: recordable_def MAX_JOURNALLED_def)

lemma recordable_1 [simp]: "recordable (Fin 1)"
  by (simp add: recordable_Fin)

lemma order_inv:
  assumes inv: "replay_inv start cs re" and valid: "valid_order_request action quantity price"
    and ok: "submit_replay_order i action quantity price re = Inr re'"
  shows "replay_inv start cs re'"
proof -
  have q: "recordable (case quantity of None \<Rightarrow> Fin 1 | Some q \<Rightarrow> q)"
    using valid by (auto simp: valid_order_request_def bounded_recordable split: option.splits)
  have p: "case price of None \<Rightarrow> True | Some p \<Rightarrow> recordable p"
    using valid by (auto simp: valid_order_request_def bounded_recordable split: option.splits)
  then show ?thesis
    using ok open_inv [OF inv q] close_inv [OF inv p] set_stop_inv [OF inv] set_target_inv [OF inv]
    by (auto simp: submit_replay_order_def Let_def split: if_splits option.splits)
qed

lemma act_inv: "replay_inv start cs re \<Longrightarrow> valid_action a \<Longrightarrow> replay_inv start cs (fst (act a re))"
proof (cases a)
  case (Order i action quantity price)
  assume "replay_inv start cs re" "valid_action a"
  then show ?thesis
    using order_inv by (auto simp: Order split: sum.split)
next
  case (Step n)
  assume inv: "replay_inv start cs re"
  from advance_loop_ok [OF inv, of "nat n" "current_candle (rp_clock re)"] show ?thesis
    by (auto simp: Step advance_def)
qed (auto simp: replay_inv_def clock_play_def clock_pause_def clock_reset_def reset_replay_def List.map_filter_def split: option.splits)

lemma session_run_inv: "replay_inv start cs re \<Longrightarrow> list_all valid_action acts \<Longrightarrow> replay_inv start cs (session_run acts re)"
  unfolding session_run_def by (induction acts arbitrary: re) (simp_all add: act_inv)

lemma new_replay_inv:
  assumes "new_replay candles start smc ict = Inr re" "recordable start"
    and "list_all (\<lambda>c. recordable (c_close c)) candles"
  shows "replay_inv start candles re"
  using assms by (auto simp: new_replay_def new_clock_def replay_inv_def List.map_filter_def bind_res_Inr split: if_splits)

text \<open>C24: After any requests within their bounds, accepted or refused, the balance is the starting
  balance plus the profits of the closed trades, added in the order they were closed, and every one
  of those profits and the balance itself fit the journal's columns.\<close>

theorem replay_books_every_close:
  assumes "new_replay candles start smc ict = Inr re" and "recordable start"
    and "list_all (\<lambda>c. recordable (c_close c)) candles" and "list_all valid_action acts"
  shows "rp_balance (session_run acts re) = foldl (+) start (List.map_filter rt_pnl (rp_closed (session_run acts re)))
    \<and> list_all closed_ok (rp_closed (session_run acts re))
    \<and> recordable (rp_balance (session_run acts re))"
proof -
  have "replay_inv start candles (session_run acts re)"
    using new_replay_inv [OF assms(1-3)] session_run_inv assms(4) by blast
  then show ?thesis by (auto simp: replay_inv_def)
qed

text \<open>Advancing a session never raises, whatever levels were accepted and however many candles it
  crosses: it ends exactly that many candles further, or on the last one.\<close>

theorem advance_never_raises:
  assumes "new_replay candles start smc ict = Inr re" and "recordable start"
    and "list_all (\<lambda>c. recordable (c_close c)) candles" and "list_all valid_action acts"
  shows "\<exists>re' c. advance n (session_run acts re) = (re', Inr c)
    \<and> rc_cursor (rp_clock re') = min (rc_cursor (rp_clock (session_run acts re)) + nat n) (length candles - 1)"
proof -
  have inv: "replay_inv start candles (session_run acts re)"
    using new_replay_inv [OF assms(1-3)] session_run_inv assms(4) by blast
  then have "rc_candles (rp_clock (session_run acts re)) = candles" by (simp add: replay_inv_def)
  with advance_loop_ok [OF inv, of "nat n" "current_candle (rp_clock (session_run acts re))"]
  show ?thesis by (auto simp: advance_def)
qed

subsection \<open>No look-ahead\<close>

definition with_candles :: "candle list \<Rightarrow> replay_engine \<Rightarrow> replay_engine" where
  "with_candles cs re = re\<lparr>rp_clock := (rp_clock re)\<lparr>rc_candles := cs\<rparr>\<rparr>"

definition cursor_of :: "replay_engine \<Rightarrow> nat" where
  "cursor_of re = rc_cursor (rp_clock re)"

definition shared_past :: "nat \<Rightarrow> candle list \<Rightarrow> replay_engine \<Rightarrow> bool" where
  "shared_past n cs re \<longleftrightarrow>
     take n cs = take n (rc_candles (rp_clock re)) \<and> n < length cs \<and> n < length (rc_candles (rp_clock re))"

lemma shared_nth: "shared_past n cs re \<Longrightarrow> k < n \<Longrightarrow> cs ! k = rc_candles (rp_clock re) ! k"
  by (metis nth_take shared_past_def)

lemma with_candles_simps [simp]:
  "rp_open (with_candles cs re) = rp_open re" "rp_balance (with_candles cs re) = rp_balance re"
  "rp_closed (with_candles cs re) = rp_closed re" "cursor_of (with_candles cs re) = cursor_of re"
  by (simp_all add: with_candles_def cursor_of_def)

lemma current_with:
  assumes "shared_past n cs re" "cursor_of re < n"
  shows "current_candle (rp_clock (with_candles cs re)) = current_candle (rp_clock re)"
    and "clock_finished (rp_clock (with_candles cs re)) = False" "clock_finished (rp_clock re) = False"
  using assms shared_nth [OF assms]
  by (auto simp: current_candle_def with_candles_def cursor_of_def clock_finished_def shared_past_def)

lemma with_order:
  assumes "shared_past n cs re" "cursor_of re < n"
  shows "submit_replay_order i a q p (with_candles cs re)
    = map_sum (\<lambda>e. e) (with_candles cs) (submit_replay_order i a q p re)"
  unfolding submit_replay_order_def open_position_def set_stop_def set_target_def close_trade_def
    closed_trade_def current_with(1) [OF assms] with_candles_simps
  by (auto simp: Let_def with_candles_def split: option.split)

lemma with_check:
  assumes "shared_past n cs re" "cursor_of re < n"
  shows "check_stop_target c (with_candles cs re) = map_sum (\<lambda>e. e) (with_candles cs) (check_stop_target c re)"
  unfolding check_stop_target_def close_trade_def closed_trade_def current_with(1) [OF assms] with_candles_simps
  by (auto simp: Let_def with_candles_def split: option.split)

lemma check_clock:
  "check_stop_target c re = Inr re' \<Longrightarrow> rp_clock re' = rp_clock re"
  by (auto simp: check_stop_target_def close_trade_def Let_def split: option.splits if_splits)

lemma advance_loop_step:
  "\<not> clock_finished (rp_clock re) \<Longrightarrow> next_candle (rp_clock re) = (rc, x) \<Longrightarrow>
     advance_loop (Suc k) c re =
       (case check_stop_target x (re\<lparr>rp_clock := rc\<rparr>) of
          Inl e \<Rightarrow> (re\<lparr>rp_clock := rc\<rparr>, Inl e)
        | Inr re1 \<Rightarrow> advance_loop k x re1)"
  by (simp add: Let_def)

lemma advance_loop_mono: "cursor_of re \<le> cursor_of (fst (advance_loop k c re))"
proof (induction k c re rule: advance_loop.induct)
  case (2 k c re)
  show ?case
  proof (cases "clock_finished (rp_clock re)")
    case False
    obtain rc x where step: "next_candle (rp_clock re) = (rc, x)" by force
    have up: "rc_cursor rc = rc_cursor (rp_clock re) + 1" using next_candle_cursor [OF False step] by blast
    show ?thesis
    proof (cases "check_stop_target x (re\<lparr>rp_clock := rc\<rparr>)")
      case (Inl e)
      then show ?thesis unfolding advance_loop_step [OF False step] by (simp add: cursor_of_def up)
    next
      case (Inr re1)
      have "cursor_of re1 = cursor_of re + 1" using check_clock [OF Inr] up by (simp add: cursor_of_def)
      with "2.IH" [OF False step [symmetric] refl Inr] show ?thesis
        unfolding advance_loop_step [OF False step] by (simp add: Inr)
    qed
  qed simp
qed simp

lemma with_next:
  assumes "shared_past n cs re" "cursor_of re + 1 < n" "next_candle (rp_clock re) = (rc, x)"
  shows "next_candle (rp_clock (with_candles cs re)) = (rc\<lparr>rc_candles := cs\<rparr>, x)"
  using assms shared_nth [OF assms(1,2)]
  by (auto simp: next_candle_def with_candles_def clock_finished_def cursor_of_def shared_past_def
      current_candle_def Let_def split: if_splits)

lemma with_advance:
  "shared_past n cs re \<Longrightarrow> cursor_of (fst (advance_loop k c re)) < n \<Longrightarrow>
     advance_loop k c (with_candles cs re) = map_prod (with_candles cs) (\<lambda>r. r) (advance_loop k c re)"
proof (induction k c re rule: advance_loop.induct)
  case (2 k c re)
  note sp = "2.prems"(1) and final = "2.prems"(2)
  have cur: "cursor_of re < n" using final advance_loop_mono [of re "Suc k" c] by linarith
  note fin = current_with(2,3) [OF sp cur]
  have unfin: "\<not> clock_finished (rp_clock re)" "\<not> clock_finished (rp_clock (with_candles cs re))"
    using fin by simp_all
  obtain rc x where step: "next_candle (rp_clock re) = (rc, x)" by force
  have nc: "rc_cursor rc = cursor_of re + 1" "rc_candles rc = rc_candles (rp_clock re)"
    using next_candle_cursor [OF _ step] fin by (auto simp: cursor_of_def)
  let ?re1 = "re\<lparr>rp_clock := rc\<rparr>"
  have next_lt: "cursor_of ?re1 < n"
  proof (cases "check_stop_target x ?re1")
    case (Inl e)
    then show ?thesis using final unfolding advance_loop_step [OF unfin(1) step] by simp
  next
    case (Inr re2)
    then show ?thesis
      using final advance_loop_mono [of re2 k x] check_clock [OF Inr]
      unfolding advance_loop_step [OF unfin(1) step] by (simp add: cursor_of_def)
  qed
  have sp1: "shared_past n cs ?re1" using sp by (simp add: shared_past_def nc)
  have eq1: "(with_candles cs re)\<lparr>rp_clock := rc\<lparr>rc_candles := cs\<rparr>\<rparr> = with_candles cs ?re1"
    by (simp add: with_candles_def)
  have next1: "next_candle (rp_clock (with_candles cs re)) = (rc\<lparr>rc_candles := cs\<rparr>, x)"
    using with_next [OF sp _ step] next_lt nc by (simp add: cursor_of_def)
  show ?case
  proof (cases "check_stop_target x ?re1")
    case (Inl e)
    then show ?thesis
      unfolding advance_loop_step [OF unfin(1) step] advance_loop_step [OF unfin(2) next1] eq1
        with_check [OF sp1 next_lt] by simp
  next
    case (Inr re2)
    have "shared_past n cs re2" using sp1 check_clock [OF Inr] by (simp add: shared_past_def)
    moreover have "cursor_of (fst (advance_loop k x re2)) < n"
      using final unfolding advance_loop_step [OF unfin(1) step] by (simp add: Inr)
    ultimately have "advance_loop k x (with_candles cs re2) = map_prod (with_candles cs) (\<lambda>r. r) (advance_loop k x re2)"
      using "2.IH" [OF unfin(1) step [symmetric] refl Inr] by blast
    then show ?thesis
      unfolding advance_loop_step [OF unfin(1) step] advance_loop_step [OF unfin(2) next1] eq1
        with_check [OF sp1 next_lt] by (simp add: Inr)
  qed
qed simp

lemma with_act:
  assumes sp: "shared_past n cs re" and cur: "cursor_of re < n" "cursor_of (fst (act a re)) < n"
  shows "act a (with_candles cs re) = map_prod (with_candles cs) (\<lambda>r. r) (act a re)"
proof (cases a)
  case (Order i action quantity price)
  then show ?thesis using with_order [OF sp cur(1)] by (auto split: sum.split)
next
  case (Step k)
  have "cursor_of (fst (advance_loop (nat k) (current_candle (rp_clock re)) re)) < n"
    using cur(2) by (auto simp: Step advance_def split: prod.splits sum.splits)
  from with_advance [OF sp this] show ?thesis
    by (auto simp: Step advance_def current_with(1) [OF sp cur(1)] split: prod.split sum.split)
next
  case Play
  then show ?thesis using current_with(2,3) [OF sp cur(1)] by (simp add: clock_play_def) (simp add: with_candles_def)
qed (simp_all add: with_candles_def clock_pause_def clock_reset_def reset_replay_def)

lemma advance_loop_candles: "rc_candles (rp_clock (fst (advance_loop k c re))) = rc_candles (rp_clock re)"
proof (induction k c re rule: advance_loop.induct)
  case (2 k c re)
  show ?case
  proof (cases "clock_finished (rp_clock re)")
    case False
    obtain rc x where step: "next_candle (rp_clock re) = (rc, x)" by force
    note nc = next_candle_cursor [OF False step]
    show ?thesis
    proof (cases "check_stop_target x (re\<lparr>rp_clock := rc\<rparr>)")
      case (Inr re1)
      with "2.IH" [OF False step [symmetric] refl Inr] check_clock [OF Inr] nc show ?thesis
        unfolding advance_loop_step [OF False step] by simp
    next
      case (Inl e)
      then show ?thesis unfolding advance_loop_step [OF False step] by (simp add: nc)
    qed
  qed simp
qed simp

lemma order_clock:
  assumes "submit_replay_order i action quantity price re = Inr re'"
  shows "rp_clock re' = rp_clock re"
proof -
  have ops: "open_position i d q re = Inr re' \<Longrightarrow> rp_clock re' = rp_clock re"
    "set_stop p re = Inr re' \<Longrightarrow> rp_clock re' = rp_clock re"
    "set_target p re = Inr re' \<Longrightarrow> rp_clock re' = rp_clock re"
    "close_trade price re = Inr re' \<Longrightarrow> rp_clock re' = rp_clock re" for d q p
    by (auto simp: open_position_def set_stop_def set_target_def close_trade_def Let_def
        split: if_splits option.splits)
  show ?thesis
    using assms unfolding submit_replay_order_def Let_def
    by (simp split: if_splits option.splits) (blast dest: ops)+
qed

lemma act_candles: "rc_candles (rp_clock (fst (act a re))) = rc_candles (rp_clock re)"
proof (cases a)
  case (Order i action quantity price)
  then show ?thesis
    by (cases "submit_replay_order i action quantity price re") (simp_all add: order_clock)
next
  case (Step k)
  then show ?thesis
    using advance_loop_candles [of "nat k" "current_candle (rp_clock re)" re]
    by (auto simp: advance_def split: prod.split sum.split)
qed (simp_all add: clock_play_def clock_pause_def clock_reset_def reset_replay_def)

text \<open>The cursor stays inside the first \<open>n\<close> candles while the actions are taken.\<close>

fun stays_within :: "nat \<Rightarrow> replay_action list \<Rightarrow> replay_engine \<Rightarrow> bool" where
  "stays_within n [] re \<longleftrightarrow> cursor_of re < n"
| "stays_within n (a # acts) re \<longleftrightarrow> cursor_of re < n \<and> stays_within n acts (fst (act a re))"

lemma stays_within_now: "stays_within n acts re \<Longrightarrow> cursor_of re < n"
  by (cases acts) simp_all

lemma with_run:
  "shared_past n cs re \<Longrightarrow> stays_within n acts re \<Longrightarrow>
     session_run acts (with_candles cs re) = with_candles cs (session_run acts re)
     \<and> shared_past n cs (session_run acts re) \<and> cursor_of (session_run acts re) < n"
proof (induction acts arbitrary: re)
  case (Cons a acts)
  have sp: "shared_past n cs (fst (act a re))" using Cons.prems(1) by (simp add: shared_past_def act_candles)
  have "fst (act a (with_candles cs re)) = with_candles cs (fst (act a re))"
    using with_act [OF Cons.prems(1)] Cons.prems(2) stays_within_now [of n acts] by simp
  with Cons.IH [OF sp] Cons.prems(2) show ?case by (simp add: session_run_def)
qed (simp add: session_run_def)

lemma visible_with:
  "shared_past n cs re \<Longrightarrow> cursor_of re < n \<Longrightarrow>
     visible_candles (rp_clock (with_candles cs re)) = visible_candles (rp_clock re)"
  unfolding visible_candles_def shared_past_def cursor_of_def with_candles_def
  by simp (metis Suc_leI min.absorb1 take_take)

text \<open>C25: Nothing a session does or shows depends on a candle past its cursor. Two replays whose
  histories share a past go through the same trades, balances, refusals and analyses under the
  same actions, for as long as the cursor stays in that past, whatever comes after it.\<close>

theorem replay_never_looks_ahead:
  assumes "new_replay (past @ future) start smc ict = Inr re"
    and "new_replay (past @ future') start smc ict = Inr re'"
    and "future \<noteq> []" "future' \<noteq> []" and "stays_within (length past) acts re"
  shows "session_run acts re' = with_candles (past @ future') (session_run acts re)
    \<and> rp_closed (session_run acts re') = rp_closed (session_run acts re)
    \<and> replay_analyze (session_run acts re') = replay_analyze (session_run acts re)"
proof -
  have re': "re' = with_candles (past @ future') re"
    using assms(1,2) by (auto simp: new_replay_def new_clock_def with_candles_def bind_res_Inr split: if_splits)
  have sp: "shared_past (length past) (past @ future') re"
    using assms(1,3,4) by (auto simp: new_replay_def new_clock_def shared_past_def bind_res_Inr split: if_splits)
  note run = with_run [OF sp assms(5)]
  have "replay_analyze (with_candles (past @ future') (session_run acts re)) = replay_analyze (session_run acts re)"
    using visible_with [of "length past" "past @ future'" "session_run acts re"] run
    by (simp add: replay_analyze_def) (simp add: with_candles_def)
  with run show ?thesis by (simp add: re')
qed

subsection \<open>Witnesses\<close>

definition replay_bar :: "int \<Rightarrow> rat \<Rightarrow> candle" where
  "replay_bar k p =
     \<lparr>c_time = \<lparr>dt_day = 738521 + k, dt_us = 13500000000, dt_offset = Some 0\<rparr>, c_open = Fin p, c_high = Fin (p + 2),
      c_low = Fin (p - 2), c_close = Fin (p + 1), c_volume = Fin 10\<rparr>"

definition replay_bars :: "candle list" where
  "replay_bars = [replay_bar 0 100, replay_bar 1 103, replay_bar 2 96, replay_bar 3 90]"

text \<open>Buy, place a stop and a target, refuse a second position and an unrecordable stop, step into the stop.\<close>

definition replay_actions :: "replay_action list" where
  "replay_actions =
     [Order 1 ''buy'' (Some (Fin 10)) None, Order 2 ''set_stop'' None (Some (Fin 97)),
      Order 3 ''set_target'' None (Some (Fin 120)), Order 4 ''sell'' None None,
      Order 5 ''set_stop'' None (Some (Fin 500000000000)), Step 1, Step 1]"

definition demo_replay :: replay_engine where
  "demo_replay = projr (new_replay replay_bars (Fin 1000) None None)"

lemma demo_replay_new: "new_replay replay_bars (Fin 1000) None None = Inr demo_replay"
  by code_simp

lemma replay_books_every_close_witness:
  "rp_balance (session_run replay_actions demo_replay)
      = foldl (+) (Fin 1000) (List.map_filter rt_pnl (rp_closed (session_run replay_actions demo_replay)))
   \<and> list_all closed_ok (rp_closed (session_run replay_actions demo_replay))
   \<and> recordable (rp_balance (session_run replay_actions demo_replay))
   \<and> rp_balance (session_run replay_actions demo_replay) = Fin 960"
proof -
  have "recordable (Fin 1000)" "list_all (\<lambda>c. recordable (c_close c)) replay_bars" "list_all valid_action replay_actions"
    by code_simp+
  from replay_books_every_close [OF demo_replay_new this]
  have "rp_balance (session_run replay_actions demo_replay)
      = foldl (+) (Fin 1000) (List.map_filter rt_pnl (rp_closed (session_run replay_actions demo_replay)))
   \<and> list_all closed_ok (rp_closed (session_run replay_actions demo_replay))
   \<and> recordable (rp_balance (session_run replay_actions demo_replay))" .
  moreover have "rp_balance (session_run replay_actions demo_replay) = Fin 960" by code_simp
  ultimately show ?thesis by blast
qed

lemma advance_never_raises_witness:
  "\<exists>re' c. advance 9 (session_run (butlast replay_actions) demo_replay) = (re', Inr c)
    \<and> rc_cursor (rp_clock re') = min (rc_cursor (rp_clock (session_run (butlast replay_actions) demo_replay)) + nat 9)
        (length replay_bars - 1)"
proof (rule advance_never_raises [OF demo_replay_new])
  show "recordable (Fin 1000)" "list_all (\<lambda>c. recordable (c_close c)) replay_bars"
    "list_all valid_action (butlast replay_actions)"
    by code_simp+
qed

definition other_future :: replay_engine where
  "other_future = projr (new_replay (take 3 replay_bars @ [replay_bar 9 200]) (Fin 1000) None None)"

lemma replay_never_looks_ahead_witness:
  "session_run replay_actions other_future
     = with_candles (take 3 replay_bars @ [replay_bar 9 200]) (session_run replay_actions demo_replay)
   \<and> rp_closed (session_run replay_actions other_future) = rp_closed (session_run replay_actions demo_replay)
   \<and> replay_analyze (session_run replay_actions other_future) = replay_analyze (session_run replay_actions demo_replay)"
proof (rule replay_never_looks_ahead)
  show "new_replay (take 3 replay_bars @ [replay_bar 3 90]) (Fin 1000) None None = Inr demo_replay" by code_simp
  show "new_replay (take 3 replay_bars @ [replay_bar 9 200]) (Fin 1000) None None = Inr other_future" by code_simp
  show "stays_within (length (take 3 replay_bars)) replay_actions demo_replay" by code_simp
qed simp_all

end
