(* ===== verification/Options.thy ===== *)
theory Options
  imports Candles FloatBounds Domain "HOL-Library.List_Lexorder" "HOL-Library.Char_ord"
begin

text \<open>
  Options analytics: the payoff of a combination at expiry (\<open>options/payoff.py\<close>), the construction
  of the named strategies (\<open>options/strategies.py\<close>) and the quote filter
  (\<open>options/liquidity_filter.py\<close>). A lot size is a whole number the code multiplies prices by; it
  is carried as the float it is converted to. Proved: what a construction can raise and what it
  returns, when the summary calls a loss unbounded if the arithmetic is exact, and that under
  rounding it calls the bounded loss of a spread unbounded.
\<close>

subsection \<open>Legs and their payoff\<close>

datatype option_type = CALL | PUT

fun option_type_value :: "option_type \<Rightarrow> string" where
  "option_type_value CALL = ''CALL''"
| "option_type_value PUT = ''PUT''"

record option_leg =
  lg_option_type :: option_type
  lg_strike :: pyfloat
  lg_premium :: pyfloat
  lg_quantity :: pyfloat
  lg_direction :: direction
  lg_lot_size :: pyfloat

definition leg_sign :: "option_leg \<Rightarrow> pyfloat" where
  "leg_sign leg = (if lg_direction leg = LONG then Fin 1 else Fin (- 1))"

definition leg_intrinsic_value :: "option_leg \<Rightarrow> pyfloat \<Rightarrow> pyfloat" where
  "leg_intrinsic_value leg underlying_price =
     (if lg_option_type leg = CALL then pymax (underlying_price - lg_strike leg) (Fin 0)
      else pymax (lg_strike leg - underlying_price) (Fin 0))"

definition leg_payoff :: "option_leg \<Rightarrow> pyfloat \<Rightarrow> pyfloat" where
  "leg_payoff leg underlying_price =
     leg_sign leg * (leg_intrinsic_value leg underlying_price - lg_premium leg) * lg_quantity leg * lg_lot_size leg"

definition total_payoff :: "option_leg list \<Rightarrow> pyfloat \<Rightarrow> pyfloat" where
  "total_payoff legs underlying_price = pysum (map (\<lambda>leg. leg_payoff leg underlying_price) legs)"

definition compute_payoff_curve :: "option_leg list \<Rightarrow> pyfloat list \<Rightarrow> (pyfloat \<times> pyfloat) list" where
  "compute_payoff_curve legs price_range = map (\<lambda>p. (p, total_payoff legs p)) price_range"

definition net_premium :: "option_leg list \<Rightarrow> pyfloat" where
  "net_premium legs =
     foldl (\<lambda>s leg. s + leg_sign leg * lg_premium leg * lg_quantity leg * lg_lot_size leg) (Fin 0) legs"

record payoff_result =
  po_max_profit :: "pyfloat option"
  po_max_loss :: "pyfloat option"
  po_breakevens :: "pyfloat list"
  po_net_premium :: pyfloat
  po_capital_requirement :: pyfloat
  po_worst_sampled_loss :: pyfloat

text \<open>Two thousand steps from zero to half as much again as the top strike.\<close>

definition payoff_steps :: nat where
  "payoff_steps = 2000"

definition price_at :: "pyfloat \<Rightarrow> rat \<Rightarrow> rat \<Rightarrow> pyfloat" where
  "price_at high steps i = (let low = Fin 0; span = high - low in low + span * Fin i / Fin steps)"

definition top_price :: "option_leg list \<Rightarrow> pyfloat" where
  "top_price legs = pymax_list (map lg_strike legs) * Fin (3 / 2)"

definition default_price_range :: "option_leg list \<Rightarrow> pyfloat list" where
  "default_price_range legs =
     map (\<lambda>i. price_at (top_price legs) (of_nat payoff_steps) (of_nat i)) [0..<payoff_steps + 1]"

fun breakevens_of :: "(pyfloat \<times> pyfloat) list \<Rightarrow> pyfloat list" where
  "breakevens_of ((x, v) # (y, w) # curve) =
     (if v = Fin 0 then [x]
      else if v * w < Fin 0 then [x + (y - x) * (- v) / (w - v)] else [])
     @ breakevens_of ((y, w) # curve)"
| "breakevens_of curve = []"

text \<open>\<open>max(premium, 0.0) or abs(min(payoffs))\<close>\<close>

definition capital_requirement :: "pyfloat \<Rightarrow> pyfloat \<Rightarrow> pyfloat" where
  "capital_requirement premium worst =
     (let committed = pymax premium (Fin 0) in if truthy committed then committed else \<bar>worst\<bar>)"

definition summarise :: "option_leg list \<Rightarrow> pyfloat list \<Rightarrow> pyfloat list \<Rightarrow> payoff_result" where
  "summarise legs price_range payoffs =
     (let n = length payoffs;
          left_edge_is_domain_floor = (hd price_range \<le> Fin 0);
          left_slope = payoffs ! 1 - payoffs ! 0;
          right_slope = payoffs ! (n - 1) - payoffs ! (n - 2);
          premium = net_premium legs
      in \<lparr>po_max_profit =
            (if Fin 0 < right_slope \<or> \<not> left_edge_is_domain_floor \<and> left_slope < Fin 0
             then None else Some (pymax_list payoffs)),
          po_max_loss =
            (if right_slope < Fin 0 \<or> \<not> left_edge_is_domain_floor \<and> Fin 0 < left_slope
             then None else Some (pymin_list payoffs)),
          po_breakevens = breakevens_of (zip price_range payoffs),
          po_net_premium = premium,
          po_capital_requirement = capital_requirement premium (pymin_list payoffs),
          po_worst_sampled_loss = pymin_list payoffs\<rparr>)"

text \<open>\<open>max([])\<close> of an empty range is a \<open>ValueError\<close>, the slope of a single sample an \<open>IndexError\<close>.\<close>

definition compute_payoff_summary :: "option_leg list \<Rightarrow> pyfloat list option \<Rightarrow> py_error + payoff_result" where
  "compute_payoff_summary legs price_range =
     (if legs = [] then Inl (ValueError ''At least one leg is required'')
      else
        let prices = (case price_range of None \<Rightarrow> default_price_range legs | Some ps \<Rightarrow> ps);
            payoffs = map snd (compute_payoff_curve legs prices)
        in if payoffs = [] then Inl (ValueError ''max() arg is an empty sequence'')
           else if length payoffs = 1 then Inl IndexError
           else Inr (summarise legs prices payoffs))"

subsection \<open>Named strategies\<close>

type_synonym option_chain = "(pyfloat, (string, pyfloat) dict) dict"

definition leg_of :: "option_chain \<Rightarrow> pyfloat \<Rightarrow> option_type \<Rightarrow> direction \<Rightarrow> pyfloat \<Rightarrow> pyfloat \<Rightarrow> py_error + option_leg" where
  "leg_of chain strike option_type direction quantity lot_size =
     bind_res (of_opt KeyError (dict_get chain strike)) (\<lambda>quotes.
     bind_res (of_opt KeyError (dict_get quotes (option_type_value option_type))) (\<lambda>premium.
       Inr \<lparr>lg_option_type = option_type, lg_strike = strike, lg_premium = premium,
            lg_quantity = quantity, lg_direction = direction, lg_lot_size = lot_size\<rparr>))"

definition legs_of ::
  "option_chain \<Rightarrow> pyfloat \<Rightarrow> pyfloat \<Rightarrow> (pyfloat \<times> option_type \<times> direction) list \<Rightarrow> py_error + option_leg list" where
  "legs_of chain quantity lot_size specs = map_res (\<lambda>(k, t, d). leg_of chain k t d quantity lot_size) specs"

definition long_call :: "option_chain \<Rightarrow> pyfloat \<Rightarrow> pyfloat \<Rightarrow> pyfloat \<Rightarrow> py_error + option_leg list" where
  "long_call chain strike quantity lot_size = legs_of chain quantity lot_size [(strike, CALL, LONG)]"

definition long_put :: "option_chain \<Rightarrow> pyfloat \<Rightarrow> pyfloat \<Rightarrow> pyfloat \<Rightarrow> py_error + option_leg list" where
  "long_put chain strike quantity lot_size = legs_of chain quantity lot_size [(strike, PUT, LONG)]"

definition bull_call_spread :: "option_chain \<Rightarrow> pyfloat \<Rightarrow> pyfloat \<Rightarrow> pyfloat \<Rightarrow> pyfloat \<Rightarrow> py_error + option_leg list" where
  "bull_call_spread chain long_strike short_strike quantity lot_size =
     (if \<not> long_strike < short_strike then Inl (ValueError ''bull_call_spread requires long_strike < short_strike'')
      else legs_of chain quantity lot_size [(long_strike, CALL, LONG), (short_strike, CALL, SHORT)])"

definition bear_put_spread :: "option_chain \<Rightarrow> pyfloat \<Rightarrow> pyfloat \<Rightarrow> pyfloat \<Rightarrow> pyfloat \<Rightarrow> py_error + option_leg list" where
  "bear_put_spread chain long_strike short_strike quantity lot_size =
     (if \<not> short_strike < long_strike then Inl (ValueError ''bear_put_spread requires long_strike > short_strike'')
      else legs_of chain quantity lot_size [(long_strike, PUT, LONG), (short_strike, PUT, SHORT)])"

definition bull_put_spread :: "option_chain \<Rightarrow> pyfloat \<Rightarrow> pyfloat \<Rightarrow> pyfloat \<Rightarrow> pyfloat \<Rightarrow> py_error + option_leg list" where
  "bull_put_spread chain short_strike long_strike quantity lot_size =
     (if \<not> long_strike < short_strike then Inl (ValueError ''bull_put_spread requires short_strike > long_strike'')
      else legs_of chain quantity lot_size [(short_strike, PUT, SHORT), (long_strike, PUT, LONG)])"

definition bear_call_spread :: "option_chain \<Rightarrow> pyfloat \<Rightarrow> pyfloat \<Rightarrow> pyfloat \<Rightarrow> pyfloat \<Rightarrow> py_error + option_leg list" where
  "bear_call_spread chain short_strike long_strike quantity lot_size =
     (if \<not> short_strike < long_strike then Inl (ValueError ''bear_call_spread requires short_strike < long_strike'')
      else legs_of chain quantity lot_size [(short_strike, CALL, SHORT), (long_strike, CALL, LONG)])"

definition short_straddle :: "option_chain \<Rightarrow> pyfloat \<Rightarrow> pyfloat \<Rightarrow> pyfloat \<Rightarrow> py_error + option_leg list" where
  "short_straddle chain atm_strike quantity lot_size =
     legs_of chain quantity lot_size [(atm_strike, CALL, SHORT), (atm_strike, PUT, SHORT)]"

definition short_strangle :: "option_chain \<Rightarrow> pyfloat \<Rightarrow> pyfloat \<Rightarrow> pyfloat \<Rightarrow> pyfloat \<Rightarrow> py_error + option_leg list" where
  "short_strangle chain put_strike call_strike quantity lot_size =
     (if \<not> put_strike < call_strike then Inl (ValueError ''short_strangle requires put_strike < call_strike'')
      else legs_of chain quantity lot_size [(put_strike, PUT, SHORT), (call_strike, CALL, SHORT)])"

definition iron_condor ::
  "option_chain \<Rightarrow> pyfloat \<Rightarrow> pyfloat \<Rightarrow> pyfloat \<Rightarrow> pyfloat \<Rightarrow> pyfloat \<Rightarrow> pyfloat \<Rightarrow> py_error + option_leg list" where
  "iron_condor chain put_long_strike put_short_strike call_short_strike call_long_strike quantity lot_size =
     (if \<not> (put_long_strike < put_short_strike \<and> put_short_strike < call_short_strike
             \<and> call_short_strike < call_long_strike)
      then Inl (ValueError ''iron_condor requires put_long < put_short < call_short < call_long'')
      else legs_of chain quantity lot_size
        [(put_long_strike, PUT, LONG), (put_short_strike, PUT, SHORT),
         (call_short_strike, CALL, SHORT), (call_long_strike, CALL, LONG)])"

definition iron_butterfly ::
  "option_chain \<Rightarrow> pyfloat \<Rightarrow> pyfloat \<Rightarrow> pyfloat \<Rightarrow> pyfloat \<Rightarrow> pyfloat \<Rightarrow> py_error + option_leg list" where
  "iron_butterfly chain put_long_strike atm_strike call_long_strike quantity lot_size =
     (if \<not> (put_long_strike < atm_strike \<and> atm_strike < call_long_strike)
      then Inl (ValueError ''iron_butterfly requires put_long < atm < call_long'')
      else legs_of chain quantity lot_size
        [(put_long_strike, PUT, LONG), (atm_strike, PUT, SHORT),
         (atm_strike, CALL, SHORT), (call_long_strike, CALL, LONG)])"

text \<open>The builders by name, each with the strikes it cannot be called without, in order.\<close>

definition STRATEGY_BUILDERS :: "(string, string list) dict" where
  "STRATEGY_BUILDERS =
     [(''long_call'', [''strike'']), (''long_put'', [''strike'']),
      (''bull_call_spread'', [''long_strike'', ''short_strike'']),
      (''bear_put_spread'', [''long_strike'', ''short_strike'']),
      (''bull_put_spread'', [''short_strike'', ''long_strike'']),
      (''bear_call_spread'', [''short_strike'', ''long_strike'']),
      (''short_straddle'', [''atm_strike'']),
      (''short_strangle'', [''put_strike'', ''call_strike'']),
      (''iron_condor'', [''put_long_strike'', ''put_short_strike'', ''call_short_strike'', ''call_long_strike'']),
      (''iron_butterfly'', [''put_long_strike'', ''atm_strike'', ''call_long_strike''])]"

definition required_arguments :: "string \<Rightarrow> py_error + string list" where
  "required_arguments name =
     of_opt (ValueError (''Unknown options strategy: '' @ name)) (dict_get STRATEGY_BUILDERS name)"

definition call_builder ::
  "string \<Rightarrow> option_chain \<Rightarrow> pyfloat list \<Rightarrow> pyfloat \<Rightarrow> pyfloat \<Rightarrow> py_error + option_leg list" where
  "call_builder name chain ks q lot =
     (if name = ''long_call'' then long_call chain (ks ! 0) q lot
      else if name = ''long_put'' then long_put chain (ks ! 0) q lot
      else if name = ''bull_call_spread'' then bull_call_spread chain (ks ! 0) (ks ! 1) q lot
      else if name = ''bear_put_spread'' then bear_put_spread chain (ks ! 0) (ks ! 1) q lot
      else if name = ''bull_put_spread'' then bull_put_spread chain (ks ! 0) (ks ! 1) q lot
      else if name = ''bear_call_spread'' then bear_call_spread chain (ks ! 0) (ks ! 1) q lot
      else if name = ''short_straddle'' then short_straddle chain (ks ! 0) q lot
      else if name = ''short_strangle'' then short_strangle chain (ks ! 0) (ks ! 1) q lot
      else if name = ''iron_condor'' then iron_condor chain (ks ! 0) (ks ! 1) (ks ! 2) (ks ! 3) q lot
      else iron_butterfly chain (ks ! 0) (ks ! 1) (ks ! 2) q lot)"

definition kwarg_or :: "(string, pyfloat) dict \<Rightarrow> string \<Rightarrow> pyfloat \<Rightarrow> pyfloat" where
  "kwarg_or kwargs k d = (case dict_get kwargs k of None \<Rightarrow> d | Some v \<Rightarrow> v)"

text \<open>\<open>repr\<close> of a name and of a list of names.\<close>

definition repr_name :: "string \<Rightarrow> string" where
  "repr_name s = [CHR 0x27] @ s @ [CHR 0x27]"

fun join_names :: "string list \<Rightarrow> string" where
  "join_names [] = []"
| "join_names [s] = repr_name s"
| "join_names (s # t # ss) = repr_name s @ '', '' @ join_names (t # ss)"

definition repr_names :: "string list \<Rightarrow> string" where
  "repr_names ss = ''['' @ join_names ss @ '']''"

definition missing_message :: "string \<Rightarrow> string list \<Rightarrow> string list \<Rightarrow> string" where
  "missing_message name required missing =
     ''Options strategy '' @ repr_name name @ '' requires '' @ repr_names required @ ''; missing ''
     @ repr_names missing @ ''. Pass them in `strategy_kwargs`.''"

definition unknown_message :: "string \<Rightarrow> string list \<Rightarrow> string list \<Rightarrow> string" where
  "unknown_message name required unknown =
     ''Options strategy '' @ repr_name name @ '' does not accept '' @ repr_names unknown @ ''; it accepts ''
     @ repr_names required @ ''.''"

definition build_options_strategy :: "string \<Rightarrow> option_chain \<Rightarrow> (string, pyfloat) dict \<Rightarrow> py_error + option_leg list" where
  "build_options_strategy name chain kwargs =
     bind_res (required_arguments name) (\<lambda>required.
       let accepted = ''chain'' # required @ [''quantity'', ''lot_size''];
           missing = filter (\<lambda>a. dict_get kwargs a = None) required;
           unknown = sort (filter (\<lambda>k. k \<notin> set accepted) (map fst kwargs))
       in if missing \<noteq> [] then Inl (ValueError (missing_message name required missing))
          else if unknown \<noteq> [] then Inl (ValueError (unknown_message name required unknown))
          else call_builder name chain (map (\<lambda>a. the (dict_get kwargs a)) required)
                 (kwarg_or kwargs ''quantity'' (Fin 1)) (kwarg_or kwargs ''lot_size'' (Fin 1)))"

definition BIAS_STRATEGIES :: "(string, string list) dict" where
  "BIAS_STRATEGIES =
     [(''bullish'', [''long_call'', ''bull_call_spread'', ''bull_put_spread'']),
      (''bearish'', [''long_put'', ''bear_put_spread'', ''bear_call_spread'']),
      (''neutral'', [''iron_condor'', ''iron_butterfly'', ''short_straddle'', ''short_strangle''])]"

subsection \<open>The quote filter\<close>

record liquidity_config =
  lc_min_volume :: pyfloat
  lc_min_open_interest :: pyfloat
  lc_max_spread_pct :: pyfloat
  lc_max_quote_age_seconds :: pyfloat

definition default_liquidity_config :: liquidity_config where
  "default_liquidity_config =
     \<lparr>lc_min_volume = Fin 100, lc_min_open_interest = Fin 500, lc_max_spread_pct = Fin 5,
      lc_max_quote_age_seconds = Fin 30\<rparr>"

datatype liquidity_note =
    VolumeBelow pyfloat pyfloat
  | OpenInterestBelow pyfloat pyfloat
  | SpreadAbove pyfloat pyfloat
  | QuoteStale pyfloat pyfloat
  | MissingBidAsk

record liquidity_assessment =
  la_acceptable :: bool
  la_warnings :: "liquidity_note list"
  la_rejections :: "liquidity_note list"

definition has_quote :: "pyfloat option \<Rightarrow> pyfloat option \<Rightarrow> bool" where
  "has_quote bid ask = (case (bid, ask) of (Some b, Some a) \<Rightarrow> Fin 0 < b \<and> Fin 0 < a | _ \<Rightarrow> False)"

definition spread_pct :: "pyfloat \<Rightarrow> pyfloat \<Rightarrow> pyfloat" where
  "spread_pct bid ask =
     (let mid = (bid + ask) / Fin 2 in if truthy mid then (ask - bid) / mid * Fin 100 else PInf)"

text \<open>\<open>(now - quote_timestamp).total_seconds()\<close>: a naive and an aware datetime do not subtract.\<close>

definition seconds_between :: "datetime \<Rightarrow> datetime \<Rightarrow> py_error + pyfloat" where
  "seconds_between now ts =
     (if (dt_offset now = None) \<noteq> (dt_offset ts = None) then Inl TypeError
      else Inr (rnd64 (of_int (instant now - instant ts) / 10 ^ 6)))"

definition evaluate_liquidity ::
  "pyfloat \<Rightarrow> pyfloat \<Rightarrow> pyfloat option \<Rightarrow> pyfloat option \<Rightarrow> datetime option \<Rightarrow> liquidity_config option
     \<Rightarrow> datetime \<Rightarrow> py_error + liquidity_assessment" where
  "evaluate_liquidity volume open_interest bid ask quote_timestamp config now =
     (let cfg = (case config of None \<Rightarrow> default_liquidity_config | Some c \<Rightarrow> c);
          quoted = has_quote bid ask;
          rejections =
            (if volume < lc_min_volume cfg then [VolumeBelow volume (lc_min_volume cfg)] else [])
            @ (if open_interest < lc_min_open_interest cfg
               then [OpenInterestBelow open_interest (lc_min_open_interest cfg)] else [])
            @ (if quoted \<and> lc_max_spread_pct cfg < spread_pct (the bid) (the ask)
               then [SpreadAbove (spread_pct (the bid) (the ask)) (lc_max_spread_pct cfg)] else [])
      in bind_res
           (case quote_timestamp of
              None \<Rightarrow> Inr []
            | Some ts \<Rightarrow> bind_res (seconds_between now ts) (\<lambda>age. Inr
                (if lc_max_quote_age_seconds cfg < age then [QuoteStale age (lc_max_quote_age_seconds cfg)] else [])))
           (\<lambda>stale. Inr \<lparr>la_acceptable = (rejections @ stale = []),
              la_warnings = (if quoted then [] else [MissingBidAsk]), la_rejections = rejections @ stale\<rparr>))"

subsection \<open>What a construction can raise and return\<close>

lemma map_res_error: "map_res f xs = Inl e \<Longrightarrow> \<exists>x \<in> set xs. f x = Inl e"
proof (induction f xs rule: map_res.induct)
  case (2 f x xs)
  then show ?case by (cases "f x"; cases "map_res f xs") auto
qed simp

lemma map_res_Inr_all2: "map_res f xs = Inr ys \<longleftrightarrow> list_all2 (\<lambda>x y. f x = Inr y) xs ys"
  by (induction f xs arbitrary: ys rule: map_res.induct) (auto simp: bind_res_Inr list_all2_Cons1)

lemma leg_of_error: "leg_of chain k t d q lot = Inl e \<Longrightarrow> e = KeyError"
  by (auto simp: leg_of_def bind_res_def of_opt_def split: option.splits sum.splits)

lemma legs_of_error: "legs_of chain q lot specs = Inl e \<Longrightarrow> e = KeyError"
  unfolding legs_of_def by (drule map_res_error) (auto dest: leg_of_error)

definition client_error :: "py_error \<Rightarrow> bool" where
  "client_error e \<longleftrightarrow> (case e of KeyError \<Rightarrow> True | ValueError m \<Rightarrow> True | _ \<Rightarrow> False)"

lemma client_error_simps [simp]: "client_error KeyError" "client_error (ValueError m)"
  by (simp_all add: client_error_def)

lemmas builder_defs = long_call_def long_put_def bull_call_spread_def bear_put_spread_def bull_put_spread_def
  bear_call_spread_def short_straddle_def short_strangle_def iron_condor_def iron_butterfly_def

lemma call_builder_error: "call_builder name chain ks q lot = Inl e \<Longrightarrow> client_error e"
  unfolding call_builder_def builder_defs by (auto dest!: legs_of_error split: if_splits)

text \<open>A leg quotes the chain, in the quantity and lot size asked for.\<close>

definition quoted_leg :: "option_chain \<Rightarrow> pyfloat \<Rightarrow> pyfloat \<Rightarrow> option_leg \<Rightarrow> bool" where
  "quoted_leg chain q lot leg \<longleftrightarrow>
     lg_quantity leg = q \<and> lg_lot_size leg = lot
     \<and> (case dict_get chain (lg_strike leg) of
          None \<Rightarrow> False
        | Some quotes \<Rightarrow> dict_get quotes (option_type_value (lg_option_type leg)) = Some (lg_premium leg))"

definition side_of :: "option_leg \<Rightarrow> pyfloat \<times> option_type \<times> direction" where
  "side_of leg = (lg_strike leg, lg_option_type leg, lg_direction leg)"

lemma leg_of_Inr:
  "leg_of chain k t d q lot = Inr leg \<Longrightarrow> quoted_leg chain q lot leg \<and> side_of leg = (k, t, d)"
  by (auto simp: leg_of_def bind_res_Inr of_opt_Inr quoted_leg_def side_of_def)

lemma legs_of_Inr:
  assumes "legs_of chain q lot specs = Inr legs"
  shows "list_all (quoted_leg chain q lot) legs \<and> map side_of legs = specs"
proof -
  have "list_all2 (\<lambda>(k, t, d) leg. quoted_leg chain q lot leg \<and> side_of leg = (k, t, d)) specs legs"
    using assms unfolding legs_of_def map_res_Inr_all2
    by (rule list.rel_mono_strong) (auto dest: leg_of_Inr)
  then show ?thesis by (induction rule: list_all2_induct) auto
qed

text \<open>The strikes of a side, bought and sold, in order.\<close>

definition strikes_ordered :: "option_leg list \<Rightarrow> bool" where
  "strikes_ordered legs \<longleftrightarrow>
     (let specs = map side_of legs
      in list_all (\<lambda>(k, t, d). list_all (\<lambda>(k', t', d').
           t = PUT \<and> t' = CALL \<longrightarrow> k < k' \<or> k = k' \<and> d = SHORT \<and> d' = SHORT) specs) specs)"

definition sold :: "option_type \<Rightarrow> option_leg list \<Rightarrow> nat" where
  "sold t legs = length (filter (\<lambda>leg. lg_option_type leg = t \<and> lg_direction leg = SHORT) legs)"

definition bought :: "option_type \<Rightarrow> option_leg list \<Rightarrow> nat" where
  "bought t legs = length (filter (\<lambda>leg. lg_option_type leg = t \<and> lg_direction leg = LONG) legs)"

lemma sold_specs: "sold t legs = length (filter (\<lambda>(k, t', d). t' = t \<and> d = SHORT) (map side_of legs))"
  and bought_specs: "bought t legs = length (filter (\<lambda>(k, t', d). t' = t \<and> d = LONG) (map side_of legs))"
  by (simp_all add: sold_def bought_def filter_map comp_def side_of_def)

lemma call_builder_legs:
  assumes "call_builder name chain ks q lot = Inr legs"
  shows "list_all (quoted_leg chain q lot) legs \<and> strikes_ordered legs \<and> legs \<noteq> []
    \<and> (name \<noteq> ''short_straddle'' \<and> name \<noteq> ''short_strangle'' \<longrightarrow>
         sold CALL legs \<le> bought CALL legs \<and> sold PUT legs \<le> bought PUT legs)"
proof -
  obtain specs where legs: "legs_of chain q lot specs = Inr legs"
    using assms by (auto simp: call_builder_def builder_defs split: if_splits)
  note specs = legs_of_Inr [OF legs]
  show ?thesis
    using assms specs unfolding call_builder_def builder_defs
    by (auto dest!: legs_of_Inr simp: strikes_ordered_def sold_specs bought_specs Let_def
        split: if_splits) (blast intro: flt_trans)+
qed


subsection \<open>Exact payoffs\<close>

text \<open>
  On whole numbers small enough to be exact, a payoff is an integer. \<open>net_calls\<close> is the number of
  calls bought over those sold, in units of the underlying: the slope past the last strike.
\<close>

definition as_int :: "pyfloat \<Rightarrow> int" where
  "as_int x = (case x of Fin q \<Rightarrow> \<lfloor>q\<rfloor> | _ \<Rightarrow> 0)"

definition whole :: "pyfloat \<Rightarrow> bool" where
  "whole x \<longleftrightarrow> x = Fin (of_int (as_int x))"

definition whole_leg :: "option_leg \<Rightarrow> bool" where
  "whole_leg leg \<longleftrightarrow> whole (lg_strike leg) \<and> whole (lg_premium leg) \<and> whole (lg_quantity leg) \<and> whole (lg_lot_size leg)"

definition sign_int :: "option_leg \<Rightarrow> int" where
  "sign_int leg = (if lg_direction leg = LONG then 1 else - 1)"

definition units :: "option_leg \<Rightarrow> int" where
  "units leg = sign_int leg * as_int (lg_quantity leg) * as_int (lg_lot_size leg)"

definition payoff_int :: "option_leg \<Rightarrow> int \<Rightarrow> int" where
  "payoff_int leg p =
     ((if lg_option_type leg = CALL then max (p - as_int (lg_strike leg)) 0 else max (as_int (lg_strike leg) - p) 0)
      - as_int (lg_premium leg)) * units leg"

definition net_calls :: "option_leg list \<Rightarrow> int" where
  "net_calls legs = sum_list (map units (filter (\<lambda>leg. lg_option_type leg = CALL) legs))"

text \<open>A bound on everything the payoff of a leg at \<open>p\<close> goes through.\<close>

definition leg_size :: "option_leg \<Rightarrow> int \<Rightarrow> int" where
  "leg_size leg p =
     (\<bar>p\<bar> + \<bar>as_int (lg_strike leg)\<bar> + \<bar>as_int (lg_premium leg)\<bar>)
     * (\<bar>as_int (lg_quantity leg)\<bar> + 1) * (\<bar>as_int (lg_lot_size leg)\<bar> + 1)"

definition exact_at :: "option_leg list \<Rightarrow> int \<Rightarrow> bool" where
  "exact_at legs p \<longleftrightarrow> sum_list (map (\<lambda>leg. leg_size leg p) legs) \<le> 2 ^ 53"

lemma leg_size_nonneg: "0 \<le> leg_size leg p"
  by (simp add: leg_size_def)

lemma Fin_int_ops:
  "\<bar>a + b\<bar> \<le> 2 ^ 53 \<Longrightarrow> Fin (of_int a) + Fin (of_int b) = Fin (of_int (a + b))"
  "\<bar>a - b\<bar> \<le> 2 ^ 53 \<Longrightarrow> Fin (of_int a) - Fin (of_int b) = Fin (of_int (a - b))"
  "\<bar>a * b\<bar> \<le> 2 ^ 53 \<Longrightarrow> Fin (of_int a) * Fin (of_int b) = Fin (of_int (a * b))"
  using rnd64_int [of "a + b"] rnd64_int [of "a - b"] rnd64_int [of "a * b"] by simp_all

lemma abs_mult_le:
  fixes a b c :: int
  assumes "\<bar>a\<bar> \<le> n" "0 \<le> n"
  shows "\<bar>a * b\<bar> \<le> n * (\<bar>b\<bar> + 1)"
proof -
  have "\<bar>a\<bar> * \<bar>b\<bar> \<le> n * (\<bar>b\<bar> + 1)" using assms by (intro mult_mono) auto
  then show ?thesis by (simp add: abs_mult)
qed

lemma leg_payoff_exact:
  assumes leg: "whole_leg leg" and size: "leg_size leg p \<le> 2 ^ 53"
  shows "leg_payoff leg (Fin (of_int p)) = Fin (of_int (payoff_int leg p)) \<and> \<bar>payoff_int leg p\<bar> \<le> leg_size leg p"
proof -
  define K where "K = as_int (lg_strike leg)"
  define m where "m = as_int (lg_premium leg)"
  define q where "q = as_int (lg_quantity leg)"
  define l where "l = as_int (lg_lot_size leg)"
  have w: "lg_strike leg = Fin (of_int K)" "lg_premium leg = Fin (of_int m)"
    "lg_quantity leg = Fin (of_int q)" "lg_lot_size leg = Fin (of_int l)"
    using leg by (simp_all add: whole_leg_def whole_def K_def m_def q_def l_def)
  define n where "n = \<bar>p\<bar> + \<bar>K\<bar> + \<bar>m\<bar>"
  have n: "0 \<le> n" by (simp add: n_def)
  have total: "n * (\<bar>q\<bar> + 1) * (\<bar>l\<bar> + 1) \<le> 2 ^ 53"
    using size by (simp add: leg_size_def n_def K_def m_def q_def l_def)
  have nq: "n \<le> n * (\<bar>q\<bar> + 1)" using n by (simp add: mult_le_cancel_left1)
  have nql: "n * (\<bar>q\<bar> + 1) \<le> n * (\<bar>q\<bar> + 1) * (\<bar>l\<bar> + 1)"
    using n mult_nonneg_nonneg [of n "\<bar>q\<bar> + 1"] mult_left_mono [of 1 "\<bar>l\<bar> + 1" "n * (\<bar>q\<bar> + 1)"] by simp
  define v where "v = (if lg_option_type leg = CALL then max (p - K) 0 else max (K - p) 0)"
  have v: "\<bar>v - m\<bar> \<le> n" "\<bar>v\<bar> \<le> n" "\<bar>p - K\<bar> \<le> n" by (auto simp: v_def n_def)
  have intr: "leg_intrinsic_value leg (Fin (of_int p)) = Fin (of_int v)"
    using v(3) nq nql total
    by (simp add: leg_intrinsic_value_def w Fin_int_ops v_def pymax_def abs_minus_commute max_def del: Fin_ops(2))
  define s where "s = sign_int leg"
  have s: "leg_sign leg = Fin (of_int s)" "\<bar>s\<bar> = 1"
    by (auto simp: leg_sign_def s_def sign_int_def)
  have sv: "\<bar>s * (v - m)\<bar> \<le> n" using v(1) s(2) by (simp add: abs_mult)
  note svq = abs_mult_le [OF sv n, of q]
  have svql: "\<bar>s * (v - m) * q * l\<bar> \<le> n * (\<bar>q\<bar> + 1) * (\<bar>l\<bar> + 1)"
    using abs_mult_le [OF svq, of l] n by simp
  have "leg_payoff leg (Fin (of_int p)) = Fin (of_int (s * (v - m) * q * l))"
    unfolding leg_payoff_def intr w s(1)
    using v(1) sv svq svql nq nql total by (simp only: Fin_int_ops order_trans [OF _ total])
  moreover have "s * (v - m) * q * l = payoff_int leg p"
    by (simp add: payoff_int_def units_def v_def s_def m_def q_def l_def K_def algebra_simps)
  moreover have "leg_size leg p = n * (\<bar>q\<bar> + 1) * (\<bar>l\<bar> + 1)"
    by (simp add: leg_size_def n_def K_def m_def q_def l_def)
  ultimately show ?thesis using svql by simp
qed

definition total_int :: "option_leg list \<Rightarrow> int \<Rightarrow> int" where
  "total_int legs p = sum_list (map (\<lambda>leg. payoff_int leg p) legs)"

lemma total_payoff_exact:
  assumes "list_all whole_leg legs" "exact_at legs p"
  shows "total_payoff legs (Fin (of_int p)) = Fin (of_int (total_int legs p)) \<and> \<bar>total_int legs p\<bar> \<le> 2 ^ 53"
proof -
  have "\<bar>a\<bar> + sum_list (map (\<lambda>leg. leg_size leg p) legs) \<le> 2 ^ 53 \<Longrightarrow>
      foldl (+) (Fin (of_int a)) (map (\<lambda>leg. leg_payoff leg (Fin (of_int p))) legs)
        = Fin (of_int (a + total_int legs p))
      \<and> \<bar>a + total_int legs p\<bar> \<le> \<bar>a\<bar> + sum_list (map (\<lambda>leg. leg_size leg p) legs)" for a
    using assms(1)
  proof (induction legs arbitrary: a)
    case (Cons leg legs)
    let ?rest = "sum_list (map (\<lambda>leg. leg_size leg p) legs)"
    have nn: "0 \<le> leg_size leg p" "0 \<le> ?rest"
      by (auto intro!: sum_list_nonneg simp: leg_size_nonneg)
    have "leg_size leg p \<le> 2 ^ 53" using Cons.prems(1) nn by simp
    with leg_payoff_exact [of leg p] Cons.prems(2)
    have leg: "leg_payoff leg (Fin (of_int p)) = Fin (of_int (payoff_int leg p))" "\<bar>payoff_int leg p\<bar> \<le> leg_size leg p"
      by simp_all
    have sum: "Fin (of_int a) + Fin (of_int (payoff_int leg p)) = Fin (of_int (a + payoff_int leg p))"
      using Cons.prems(1) leg(2) nn by (intro Fin_int_ops) simp
    have pre: "\<bar>a + payoff_int leg p\<bar> + ?rest \<le> 2 ^ 53" using Cons.prems(1) leg(2) by simp
    have "list_all whole_leg legs" using Cons.prems(2) by simp
    note IH = Cons.IH [OF pre this]
    have "\<bar>a + payoff_int leg p + total_int legs p\<bar> \<le> \<bar>a\<bar> + leg_size leg p + ?rest"
      using conjunct2 [OF IH] leg(2) by linarith
    then show ?case using IH leg(1) sum by (simp add: total_int_def add.assoc del: Fin_ops)
  qed (simp add: total_int_def)
  from this [of 0] assms(2) show ?thesis
    by (simp add: total_payoff_def pysum_def exact_at_def)
qed

lemma total_int_slope:
  assumes "list_all (\<lambda>leg. as_int (lg_strike leg) \<le> x) legs" "x \<le> y"
  shows "total_int legs y - total_int legs x = net_calls legs * (y - x)"
  using assms
proof (induction legs)
  case (Cons leg legs)
  then show ?case by (auto simp: total_int_def net_calls_def payoff_int_def max_def algebra_simps)
qed (simp add: total_int_def net_calls_def)

text \<open>The prices sampled at an explicit range whose first price is not above zero and whose last
  two lie past the strikes, all four numbers of every leg being whole and exact there.\<close>

definition samples_past_strikes :: "option_leg list \<Rightarrow> int \<Rightarrow> int list \<Rightarrow> int \<Rightarrow> int \<Rightarrow> bool" where
  "samples_past_strikes legs low mid x y \<longleftrightarrow>
     low \<le> 0 \<and> x < y \<and> list_all whole_leg legs
     \<and> list_all (\<lambda>leg. as_int (lg_strike leg) \<le> x) legs \<and> exact_at legs x \<and> exact_at legs y"

lemma rnd64_int_sign: "rnd64 (of_int n) < Fin 0 \<longleftrightarrow> n < 0" "Fin 0 < rnd64 (of_int n) \<longleftrightarrow> 0 < n"
proof -
  have up: "Fin 0 < rnd64 (of_int n)" if "0 < n" for n :: int
    using flt_fle_trans [of "Fin 0" "Fin 1" "rnd64 (of_int n)"] rnd64_mono [of 1 "of_int n"] that by simp
  then have down: "rnd64 (of_int n) < Fin 0" if "n < 0" for n :: int
    using fle_flt_trans [of "rnd64 (of_int n)" "Fin (- 1)" "Fin 0"] rnd64_mono [of "of_int n" "- 1"] that by simp
  show "rnd64 (of_int n) < Fin 0 \<longleftrightarrow> n < 0" "Fin 0 < rnd64 (of_int n) \<longleftrightarrow> 0 < n"
    using up down rnd64_neg_imp [of "of_int n"] rnd64_pos_imp [of "of_int n"] by auto
qed

lemma summary_eq:
  assumes "legs \<noteq> []" "2 \<le> length prices"
  shows "compute_payoff_summary legs (Some prices) = Inr (summarise legs prices (map (total_payoff legs) prices))"
proof -
  have "map snd (compute_payoff_curve legs prices) = map (total_payoff legs) prices"
    by (simp add: compute_payoff_curve_def o_def)
  then show ?thesis using assms by (auto simp: compute_payoff_summary_def Let_def)
qed

text \<open>Whether a loss or a profit is bounded is read off the last two samples when the range starts at the floor.\<close>

lemma summarise_edges:
  assumes "hd prices \<le> Fin 0" "payoffs ! (length payoffs - 1) - payoffs ! (length payoffs - 2) = slope"
  shows "po_max_loss (summarise legs prices payoffs) = (if slope < Fin 0 then None else Some (pymin_list payoffs))"
    "po_max_profit (summarise legs prices payoffs) = (if Fin 0 < slope then None else Some (pymax_list payoffs))"
  using assms by (simp_all add: summarise_def Let_def)

lemma summary_at:
  assumes legs: "legs \<noteq> []" and at: "samples_past_strikes legs low mid x y"
    and prices: "prices = map (\<lambda>p. Fin (of_int p)) (low # mid @ [x, y])"
  shows "\<exists>r. compute_payoff_summary legs (Some prices) = Inr r
    \<and> (po_max_loss r = None \<longleftrightarrow> net_calls legs < 0) \<and> (po_max_profit r = None \<longleftrightarrow> 0 < net_calls legs)"
proof -
  let ?pay = "map (total_payoff legs) prices"
  have ends: "?pay ! (length ?pay - 1) = total_payoff legs (Fin (of_int y))"
    "?pay ! (length ?pay - 2) = total_payoff legs (Fin (of_int x))"
    by (simp_all add: prices nth_append nth_Cons')
  have ex: "total_payoff legs (Fin (of_int x)) = Fin (of_int (total_int legs x))"
    "total_payoff legs (Fin (of_int y)) = Fin (of_int (total_int legs y))"
    using total_payoff_exact at by (simp_all add: samples_past_strikes_def)
  have "total_int legs y - total_int legs x = net_calls legs * (y - x)"
    using at by (intro total_int_slope) (auto simp: samples_past_strikes_def)
  then have "(of_int (total_int legs y) - of_int (total_int legs x) :: rat) = of_int (net_calls legs * (y - x))"
    by (simp flip: of_int_diff)
  then have right: "?pay ! (length ?pay - 1) - ?pay ! (length ?pay - 2) = rnd64 (of_int (net_calls legs * (y - x)))"
    unfolding ends ex by simp
  have neg: "rnd64 (of_int (net_calls legs * (y - x))) < Fin 0 \<longleftrightarrow> net_calls legs < 0"
    and pos: "Fin 0 < rnd64 (of_int (net_calls legs * (y - x))) \<longleftrightarrow> 0 < net_calls legs"
    unfolding rnd64_int_sign using at by (auto simp: samples_past_strikes_def zero_less_mult_iff mult_less_0_iff)
  have "hd prices \<le> Fin 0" using at by (simp add: samples_past_strikes_def prices)
  note edges = summarise_edges [OF this right, of legs]
  have "2 \<le> length prices" by (simp add: prices)
  from summary_eq [OF legs this] edges neg pos show ?thesis by auto
qed


definition a_chain :: option_chain where
  "a_chain =
     [(Fin 90, [(''CALL'', Fin 12), (''PUT'', Fin 2)]), (Fin 100, [(''CALL'', Fin 6), (''PUT'', Fin 5)]),
      (Fin 110, [(''CALL'', Fin 3), (''PUT'', Fin 11)])]"

definition a_straddle :: "option_leg list" where
  "a_straddle = projr (build_options_strategy ''short_straddle'' a_chain [(''atm_strike'', Fin 100), (''lot_size'', Fin 50)])"


subsection \<open>Rounding makes a bounded loss look unbounded\<close>

lemma default_summary:
  assumes "legs \<noteq> []"
  shows "compute_payoff_summary legs None
    = Inr (summarise legs (default_price_range legs) (map (total_payoff legs) (default_price_range legs)))"
proof -
  have "compute_payoff_summary legs None = compute_payoff_summary legs (Some (default_price_range legs))"
    by (simp add: compute_payoff_summary_def)
  also have "\<dots> = Inr (summarise legs (default_price_range legs) (map (total_payoff legs) (default_price_range legs)))"
    by (rule summary_eq [OF assms]) (simp add: default_price_range_def payoff_steps_def)
  finally show ?thesis .
qed

lemma default_edges:
  assumes "legs \<noteq> []" "price_at (top_price legs) 2000 0 \<le> Fin 0"
    and "total_payoff legs (price_at (top_price legs) 2000 2000)
         - total_payoff legs (price_at (top_price legs) 2000 1999) < Fin 0"
  shows "\<exists>r. compute_payoff_summary legs None = Inr r \<and> po_max_loss r = None"
proof -
  let ?f = "\<lambda>i. price_at (top_price legs) (of_nat payoff_steps) (of_nat i)"
  have hd_map_upt: "hd (map f [0..<Suc n]) = f 0" for f :: "nat \<Rightarrow> pyfloat" and n
    by (simp add: hd_map hd_append)
  have first: "hd (default_price_range legs) = ?f 0"
    unfolding default_price_range_def Suc_eq_plus1 [symmetric] by (rule hd_map_upt)
  have len: "length (default_price_range legs) = payoff_steps + 1"
    by (simp add: default_price_range_def)
  have nth: "default_price_range legs ! i = ?f i" if "i \<le> payoff_steps" for i
    using that by (simp add: default_price_range_def del: upt_Suc)
  have steps: "of_nat payoff_steps = (2000 :: rat)" "of_nat (payoff_steps - 1) = (1999 :: rat)"
    by (simp_all add: payoff_steps_def)
  let ?pay = "map (total_payoff legs) (default_price_range legs)"
  have "?pay ! (length ?pay - 1) = total_payoff legs (price_at (top_price legs) 2000 2000)"
    "?pay ! (length ?pay - 2) = total_payoff legs (price_at (top_price legs) 2000 1999)"
    using nth [of payoff_steps] nth [of "payoff_steps - 1"] unfolding steps by (simp_all add: len)
  moreover have "hd (default_price_range legs) \<le> Fin 0" using assms(2) by (simp add: first steps(1))
  ultimately have "po_max_loss (summarise legs (default_price_range legs) ?pay) = None"
    using summarise_edges(1) [OF _ refl, of "default_price_range legs" legs ?pay] assms(3) by simp
  with default_summary [OF assms(1)] show ?thesis by blast
qed

text \<open>A call spread bought at 4950 and sold at 5150, one lot of 50, cannot lose more than the premium of
  5219 it costs.\<close>

definition nifty_chain :: option_chain where
  "nifty_chain = [(Fin 4950, [(''CALL'', rnd64 (12722 / 100))]), (Fin 5150, [(''CALL'', rnd64 (2284 / 100))])]"

definition nifty_spread :: "option_leg list" where
  "nifty_spread = projr (build_options_strategy ''bull_call_spread'' nifty_chain
     [(''long_strike'', Fin 4950), (''short_strike'', Fin 5150), (''lot_size'', Fin 50)])"

text \<open>The summary of a debit call spread, sampled over the default range, calls its loss
  unbounded: past the strikes its payoff is constant, and the rounding of the last two samples
  makes it look as if it were still falling. The premium, the most it can lose, is finite.\<close>

lemma bounded_spread_reported_unbounded:
  "build_options_strategy ''bull_call_spread'' nifty_chain
     [(''long_strike'', Fin 4950), (''short_strike'', Fin 5150), (''lot_size'', Fin 50)] = Inr nifty_spread
   \<and> sold CALL nifty_spread = bought CALL nifty_spread
   \<and> net_premium nifty_spread = Fin 5219
   \<and> (\<exists>r. compute_payoff_summary nifty_spread None = Inr r \<and> po_max_loss r = None)"
proof (intro conjI)
  show "build_options_strategy ''bull_call_spread'' nifty_chain
     [(''long_strike'', Fin 4950), (''short_strike'', Fin 5150), (''lot_size'', Fin 50)] = Inr nifty_spread" by code_simp
  show "sold CALL nifty_spread = bought CALL nifty_spread" by code_simp
  show "net_premium nifty_spread = Fin 5219" by code_simp
  show "\<exists>r. compute_payoff_summary nifty_spread None = Inr r \<and> po_max_loss r = None"
  proof (rule default_edges)
    show "nifty_spread \<noteq> []" by code_simp
    show "price_at (top_price nifty_spread) 2000 0 \<le> Fin 0" by code_simp
    show "total_payoff nifty_spread (price_at (top_price nifty_spread) 2000 2000)
        - total_payoff nifty_spread (price_at (top_price nifty_spread) 2000 1999) < Fin 0" by code_simp
  qed
qed

end
