(* ===== verification/AiValidation.thy ===== *)
theory AiValidation
  imports StrategyEngine
begin

text \<open>
  The cross-check of a trade the language model proposes against the deterministic evaluation
  (\<open>ai/validation.py\<close>). A response is whatever JSON the model sent. Two conversions of the C
  library and of \<open>repr\<close> are arguments: \<open>parse\<close>, the float a text denotes if it does, and
  \<open>show\<close>, the text of a number or a container. Proved: a proposal is valid exactly when it
  agrees with the evaluation on every point, and the check raises exactly for an integer too
  large to be a float.
\<close>

subsection \<open>Responses\<close>

datatype json =
    JNull
  | JBool bool
  | JInt int
  | JFloat pyfloat
  | JStr string
  | JList "json list"
  | JObj "(string \<times> json) list"

text \<open>\<open>str(value)\<close>\<close>

fun py_str :: "(json \<Rightarrow> string) \<Rightarrow> json \<Rightarrow> string" where
  "py_str show JNull = ''None''"
| "py_str show (JBool b) = (if b then ''True'' else ''False'')"
| "py_str show (JStr s) = s"
| "py_str show v = show v"

datatype ai_error =
    NotAnObject
  | NoSignal
  | Declined "json option"
  | WrongDirection string "string option"
  | NotANumber string "json option"
  | EntryMismatch pyfloat pyfloat
  | StopMismatch pyfloat pyfloat
  | RiskRewardBelow pyfloat pyfloat
  | UnusableCeiling pyfloat
  | RiskPercentAbove pyfloat pyfloat
  | NotTradable

record ai_validation_result =
  av_valid :: bool
  av_errors :: "ai_error list"

definition PRICE_TOLERANCE_PCT :: pyfloat where
  "PRICE_TOLERANCE_PCT = Fin (1 / 2)"

definition within_tolerance :: "pyfloat \<Rightarrow> pyfloat \<Rightarrow> bool" where
  "within_tolerance a b =
     (if py_eq b (Fin 0) then py_eq a (Fin 0)
      else \<bar>a - b\<bar> / \<bar>b\<bar> * Fin 100 \<le> PRICE_TOLERANCE_PCT)"

text \<open>\<open>float(n)\<close> of an integer raises when it is out of range.\<close>

definition float_of_int :: "int \<Rightarrow> py_error + pyfloat" where
  "float_of_int n = (if py_isfinite (rnd64 (of_int n)) then Inr (rnd64 (of_int n)) else Inl OverflowError)"

definition if_finite :: "pyfloat \<Rightarrow> pyfloat option" where
  "if_finite x = (if py_isfinite x then Some x else None)"

fun as_float :: "(string \<Rightarrow> pyfloat option) \<Rightarrow> json option \<Rightarrow> py_error + pyfloat option" where
  "as_float parse (Some (JInt n)) = bind_res (float_of_int n) (\<lambda>x. Inr (if_finite x))"
| "as_float parse (Some (JFloat x)) = Inr (if_finite x)"
| "as_float parse (Some (JStr s)) = Inr (case parse s of None \<Rightarrow> None | Some x \<Rightarrow> if_finite x)"
| "as_float parse v = Inr None"

type_synonym checked = "py_error + pyfloat option \<times> ai_error list"

definition numeric_field ::
  "(string \<Rightarrow> pyfloat option) \<Rightarrow> (string, json) dict \<Rightarrow> string \<Rightarrow> ai_error list \<Rightarrow> checked" where
  "numeric_field parse proposal key errors =
     bind_res (as_float parse (dict_get proposal key)) (\<lambda>x.
       Inr (x, errors @ (if x = None then [NotANumber key (dict_get proposal key)] else [])))"

text \<open>A number of the evaluation, which is \<open>None\<close> for no match: arithmetic on it raises then.\<close>

definition computed :: "pyfloat option \<Rightarrow> py_error + pyfloat" where
  "computed x = of_opt TypeError x"

definition price_field ::
  "(string \<Rightarrow> pyfloat option) \<Rightarrow> (string, json) dict \<Rightarrow> string \<Rightarrow> pyfloat option
     \<Rightarrow> (pyfloat \<Rightarrow> pyfloat \<Rightarrow> ai_error) \<Rightarrow> (pyfloat \<Rightarrow> pyfloat \<Rightarrow> bool) \<Rightarrow> ai_error list \<Rightarrow> py_error + ai_error list" where
  "price_field parse proposal key known mismatch agrees errors =
     bind_res (numeric_field parse proposal key errors) (\<lambda>(x, errors).
       case x of
         None \<Rightarrow> Inr errors
       | Some a \<Rightarrow> bind_res (computed known) (\<lambda>b. Inr (errors @ (if agrees a b then [] else [mismatch a b]))))"

definition decision_errors :: "(json \<Rightarrow> string) \<Rightarrow> (string, json) dict \<Rightarrow> ai_error list" where
  "decision_errors show proposal =
     (let decision = py_upper (py_strip (case dict_get proposal ''decision'' of None \<Rightarrow> [] | Some v \<Rightarrow> py_str show v))
      in if decision \<noteq> ''TRADE'' then [Declined (dict_get proposal ''decision'')] else [])"

definition direction_errors :: "(json \<Rightarrow> string) \<Rightarrow> (string, json) dict \<Rightarrow> string option \<Rightarrow> ai_error list" where
  "direction_errors show proposal direction =
     (let proposed = py_lower (case dict_get proposal ''direction'' of None \<Rightarrow> [] | Some v \<Rightarrow> py_str show v)
      in if proposed \<noteq> py_lower (falsy_or direction []) then [WrongDirection proposed direction] else [])"

definition risk_floor :: "pyfloat \<Rightarrow> pyfloat" where
  "risk_floor computed_rr = computed_rr - rnd64 (1 / 1000000)"

definition usable_ceiling :: "pyfloat \<Rightarrow> bool" where
  "usable_ceiling x \<longleftrightarrow> py_isfinite x \<and> \<not> x \<le> Fin 0"

definition risk_percent_errors ::
  "(string \<Rightarrow> pyfloat option) \<Rightarrow> (string, json) dict \<Rightarrow> pyfloat \<Rightarrow> ai_error list \<Rightarrow> py_error + ai_error list" where
  "risk_percent_errors parse proposal max_risk_percent errors =
     bind_res (numeric_field parse proposal ''risk_percent'' errors) (\<lambda>(x, errors).
       Inr (errors @ (case x of
          None \<Rightarrow> []
        | Some r \<Rightarrow> if r \<le> Fin 0 \<or> max_risk_percent < r then [RiskPercentAbove r max_risk_percent] else [])))"

fun validate_ai_trade_proposal ::
  "(string \<Rightarrow> pyfloat option) \<Rightarrow> (json \<Rightarrow> string) \<Rightarrow> json \<Rightarrow> evaluation_result \<Rightarrow> bool \<Rightarrow> pyfloat
     \<Rightarrow> py_error + ai_validation_result" where
  "validate_ai_trade_proposal parse show (JObj proposal) result instrument_tradable max_risk_percent =
     (if \<not> er_matched result then Inr \<lparr>av_valid = False, av_errors = [NoSignal]\<rparr>
      else
        bind_res (price_field parse proposal ''entry'' (er_entry result) EntryMismatch within_tolerance
                    (decision_errors show proposal @ direction_errors show proposal (er_direction result))) (\<lambda>errors.
        bind_res (price_field parse proposal ''stop'' (er_stop result) StopMismatch within_tolerance errors) (\<lambda>errors.
        bind_res (price_field parse proposal ''risk_reward'' (er_risk_reward result) RiskRewardBelow
                    (\<lambda>a b. \<not> a < risk_floor b) errors) (\<lambda>errors.
          if \<not> usable_ceiling max_risk_percent
          then Inr \<lparr>av_valid = False, av_errors = [UnusableCeiling max_risk_percent]\<rparr>
          else bind_res (risk_percent_errors parse proposal max_risk_percent errors) (\<lambda>errors.
            let errors = errors @ (if instrument_tradable then [] else [NotTradable])
            in Inr \<lparr>av_valid = (errors = []), av_errors = errors\<rparr>)))))"
| "validate_ai_trade_proposal parse show v result instrument_tradable max_risk_percent =
     Inr \<lparr>av_valid = False, av_errors = [NotAnObject]\<rparr>"

subsection \<open>What a valid proposal is\<close>

text \<open>The number a field states, if it states one.\<close>

definition stated :: "(string \<Rightarrow> pyfloat option) \<Rightarrow> (string, json) dict \<Rightarrow> string \<Rightarrow> pyfloat option" where
  "stated parse proposal key = (case as_float parse (dict_get proposal key) of Inl e \<Rightarrow> None | Inr x \<Rightarrow> x)"

definition said :: "(json \<Rightarrow> string) \<Rightarrow> (string, json) dict \<Rightarrow> string \<Rightarrow> string" where
  "said show proposal key = (case dict_get proposal key of None \<Rightarrow> [] | Some v \<Rightarrow> py_str show v)"

definition both :: "pyfloat option \<Rightarrow> pyfloat option \<Rightarrow> (pyfloat \<Rightarrow> pyfloat \<Rightarrow> bool) \<Rightarrow> bool" where
  "both x y P = (case (x, y) of (Some a, Some b) \<Rightarrow> P a b | _ \<Rightarrow> False)"

definition agrees_with ::
  "(string \<Rightarrow> pyfloat option) \<Rightarrow> (json \<Rightarrow> string) \<Rightarrow> (string, json) dict \<Rightarrow> evaluation_result \<Rightarrow> pyfloat \<Rightarrow> bool" where
  "agrees_with parse show proposal result max_risk_percent \<longleftrightarrow>
     er_matched result
     \<and> py_upper (py_strip (said show proposal ''decision'')) = ''TRADE''
     \<and> py_lower (said show proposal ''direction'') = py_lower (falsy_or (er_direction result) [])
     \<and> both (stated parse proposal ''entry'') (er_entry result) within_tolerance
     \<and> both (stated parse proposal ''stop'') (er_stop result) within_tolerance
     \<and> both (stated parse proposal ''risk_reward'') (er_risk_reward result) (\<lambda>a b. \<not> a < risk_floor b)
     \<and> both (stated parse proposal ''risk_percent'') (Some max_risk_percent) (\<lambda>r m. Fin 0 < r \<and> r \<le> m)
     \<and> py_isfinite max_risk_percent \<and> Fin 0 < max_risk_percent"

lemma if_finite_Some: "if_finite x = Some y \<Longrightarrow> x = y \<and> py_isfinite y"
  by (simp add: if_finite_def split: if_splits)

lemma as_float_finite: "as_float parse v = Inr (Some x) \<Longrightarrow> py_isfinite x"
  by (cases "(parse, v)" rule: as_float.cases)
     (auto simp: bind_res_Inr dest: if_finite_Some split: option.splits)

lemma price_field_Inr:
  assumes "price_field parse proposal key known mismatch agrees errors = Inr errors'"
  shows "errors' = [] \<longleftrightarrow> errors = [] \<and> both (stated parse proposal key) known agrees"
  using assms
  by (auto simp: price_field_def numeric_field_def bind_res_Inr stated_def both_def computed_def of_opt_Inr
      split: option.splits if_splits)

lemma risk_percent_Inr:
  assumes "risk_percent_errors parse proposal m errors = Inr errors'" "usable_ceiling m"
  shows "errors' = [] \<longleftrightarrow> errors = []
    \<and> both (stated parse proposal ''risk_percent'') (Some m) (\<lambda>r m. Fin 0 < r \<and> r \<le> m)"
proof -
  obtain x where x: "as_float parse (dict_get proposal ''risk_percent'') = Inr x"
    and e: "errors' = (errors @ (if x = None then [NotANumber ''risk_percent'' (dict_get proposal ''risk_percent'')] else []))
      @ (case x of None \<Rightarrow> [] | Some r \<Rightarrow> if r \<le> Fin 0 \<or> m < r then [RiskPercentAbove r m] else [])"
    using assms(1) by (auto simp: risk_percent_errors_def numeric_field_def bind_res_Inr)
  have st: "stated parse proposal ''risk_percent'' = x" by (simp add: stated_def x)
  show ?thesis
  proof (cases x)
    case (Some r)
    then have "py_isfinite r" using as_float_finite x by simp
    then have "r \<noteq> NaN" "m \<noteq> NaN" using assms(2) by (auto simp: py_isfinite_def usable_ceiling_def split: pyfloat.splits)
    then show ?thesis by (auto simp: e st both_def Some not_fle_iff not_flt_iff flt_not_fle dest: flt_not_fle)
  qed (simp add: e st both_def)
qed

text \<open>C31: When the check answers, it says a proposal is valid exactly when the evaluation found a
  signal, the instrument is tradable, and the proposal states \<open>TRADE\<close>, the direction found,
  finite numbers within half a percent of the computed entry and stop, a risk/reward not below the
  computed one and a positive risk within a usable ceiling.\<close>

theorem ai_proposal_valid_iff_agrees:
  assumes "validate_ai_trade_proposal parse show (JObj proposal) result instrument_tradable max_risk_percent = Inr r"
  shows "av_valid r \<longleftrightarrow> instrument_tradable \<and> agrees_with parse show proposal result max_risk_percent"
proof (cases "er_matched result")
  case False
  then show ?thesis using assms by (auto simp: agrees_with_def)
next
  case True
  note unf = assms [simplified, simplified True, simplified]
  let ?e0 = "decision_errors show proposal @ direction_errors show proposal (er_direction result)"
  have e0: "?e0 = [] \<longleftrightarrow> py_upper (py_strip (said show proposal ''decision'')) = ''TRADE''
      \<and> py_lower (said show proposal ''direction'') = py_lower (falsy_or (er_direction result) [])"
    by (auto simp: decision_errors_def direction_errors_def said_def Let_def)
  obtain e1 e2 e3 where e1: "price_field parse proposal ''entry'' (er_entry result) EntryMismatch within_tolerance ?e0 = Inr e1"
    and e2: "price_field parse proposal ''stop'' (er_stop result) StopMismatch within_tolerance e1 = Inr e2"
    and e3: "price_field parse proposal ''risk_reward'' (er_risk_reward result) RiskRewardBelow (\<lambda>a b. \<not> a < risk_floor b) e2 = Inr e3"
    using unf by (auto simp: bind_res_Inr)
  have ceiling: "usable_ceiling max_risk_percent \<longleftrightarrow> py_isfinite max_risk_percent \<and> Fin 0 < max_risk_percent"
    by (cases max_risk_percent) (auto simp: usable_ceiling_def py_isfinite_def)
  show ?thesis
  proof (cases "usable_ceiling max_risk_percent")
    case False
    then have "\<not> av_valid r" using unf e1 e2 e3 by auto
    then show ?thesis using False ceiling by (simp add: agrees_with_def)
  next
    case ok: True
    then obtain e4 where e4: "risk_percent_errors parse proposal max_risk_percent e3 = Inr e4"
      and r: "av_valid r \<longleftrightarrow> e4 @ (if instrument_tradable then [] else [NotTradable]) = []"
      using unf e1 e2 e3 by (auto simp: bind_res_Inr Let_def)
    show ?thesis
      using r risk_percent_Inr [OF e4 ok] price_field_Inr [OF e1] price_field_Inr [OF e2] price_field_Inr [OF e3]
        e0 ok ceiling True by (auto simp: agrees_with_def)
  qed
qed

definition a_long :: evaluation_result where
  "a_long =
     \<lparr>er_matched = True, er_satisfied = [], er_missing = [], er_direction = Some ''bullish'',
      er_entry = Some (Fin 100), er_stop = Some (Fin 98), er_target = Some (Fin 106),
      er_risk_reward = Some (Fin 3), er_score = Fin 80\<rparr>"

definition a_proposal :: "(string \<times> json) list" where
  "a_proposal =
     [(''decision'', JStr '' trade ''), (''direction'', JStr ''BULLISH''), (''entry'', JInt 100), (''stop'', JFloat (Fin 98)),
      (''risk_reward'', JInt 3), (''risk_percent'', JFloat (Fin (1 / 2)))]"

lemma ai_proposal_valid_iff_agrees_witness:
  "av_valid \<lparr>av_valid = True, av_errors = []\<rparr> \<longleftrightarrow>
     True \<and> agrees_with (\<lambda>s. None) (\<lambda>v. []) a_proposal a_long (Fin 1)"
proof (rule ai_proposal_valid_iff_agrees)
  show "validate_ai_trade_proposal (\<lambda>s. None) (\<lambda>v. []) (JObj a_proposal) a_long True (Fin 1)
    = Inr \<lparr>av_valid = True, av_errors = []\<rparr>" by code_simp
qed

text \<open>An integer past the range of floats raises out of the check: \<open>float\<close> raises
  \<open>OverflowError\<close>, which is not among the exceptions the conversion catches.\<close>

lemma huge_integer_overflows: "float_of_int (2 ^ 1024) = Inl OverflowError"
  by code_simp

lemma huge_integer_escapes:
  assumes "er_matched result" "dict_get proposal ''entry'' = Some (JInt (2 ^ 1024))"
  shows "validate_ai_trade_proposal parse show (JObj proposal) result instrument_tradable max_risk_percent
    = Inl OverflowError"
  using assms huge_integer_overflows by (simp add: price_field_def numeric_field_def)

end
