(* ===== verification/OrderManager.thy ===== *)
theory OrderManager
  imports Domain
begin

text \<open>
  The order state machine and the idempotency index (\<open>trading/order_manager.py\<close>):
  \<open>OrderRecord\<close>, \<open>OrderManager\<close> and their operations. Orders live in the dictionary
  \<open>om_orders\<close>; where the code hands out a reference to a record it then mutates, the
  model names it by its id. The fresh \<open>uuid4()\<close> is an argument. The \<open>occurred_at\<close>
  stamps of events, which nothing here reads, are left out.
\<close>

subsection \<open>Records\<close>

record order_event =
  ev_from :: "order_status option"
  ev_to :: order_status
  ev_detail :: string

record order =
  o_id :: uuid
  o_idempotency_key :: string
  o_account_id :: string
  o_symbol :: string
  o_direction :: direction
  o_order_type :: order_type
  o_quantity :: pyfloat
  o_price :: "pyfloat option"
  o_status :: order_status
  o_broker_order_id :: "string option"
  o_filled_quantity :: pyfloat
  o_average_fill_price :: "pyfloat option"
  o_rejection_reason :: "string option"
  o_events :: "order_event list"

record order_manager =
  om_orders :: "(uuid, order) dict"
  om_by_key :: "(string, uuid) dict"

definition empty_manager :: order_manager where
  "empty_manager = \<lparr>om_orders = [], om_by_key = []\<rparr>"

subsection \<open>Operations\<close>

fun allowed_transitions :: "order_status \<Rightarrow> order_status set" where
  "allowed_transitions CREATED = {VALIDATING, REJECTED, FAILED}"
| "allowed_transitions VALIDATING = {RISK_APPROVED, REJECTED}"
| "allowed_transitions RISK_APPROVED = {SUBMITTED, REJECTED, FAILED}"
| "allowed_transitions SUBMITTED = {ACKNOWLEDGED, CANCELLED, REJECTED, FAILED}"
| "allowed_transitions ACKNOWLEDGED = {PARTIALLY_FILLED, FILLED, CANCELLED, EXPIRED}"
| "allowed_transitions PARTIALLY_FILLED = {PARTIALLY_FILLED, FILLED, CANCELLED}"
| "allowed_transitions FILLED = {MONITORING, CLOSED}"
| "allowed_transitions MONITORING = {CLOSED}"
| "allowed_transitions CLOSED = {}"
| "allowed_transitions REJECTED = {}"
| "allowed_transitions CANCELLED = {}"
| "allowed_transitions EXPIRED = {}"
| "allowed_transitions FAILED = {}"

definition create_order ::
  "order_manager \<Rightarrow> uuid \<Rightarrow> string \<Rightarrow> string \<Rightarrow> string \<Rightarrow> direction \<Rightarrow> order_type \<Rightarrow> pyfloat
   \<Rightarrow> pyfloat option \<Rightarrow> py_error + order \<times> bool \<times> order_manager" where
  "create_order om new_id key account symbol dir ty quantity price =
     (case dict_get (om_by_key om) key of
        Some existing_id \<Rightarrow>
          (case dict_get (om_orders om) existing_id of
             None \<Rightarrow> Inl KeyError
           | Some ord \<Rightarrow> Inr (ord, False, om))
      | None \<Rightarrow>
          (let ord = \<lparr>o_id = new_id, o_idempotency_key = key, o_account_id = account,
                      o_symbol = symbol, o_direction = dir, o_order_type = ty,
                      o_quantity = quantity, o_price = price, o_status = CREATED,
                      o_broker_order_id = None, o_filled_quantity = Fin 0,
                      o_average_fill_price = None, o_rejection_reason = None,
                      o_events = [\<lparr>ev_from = None, ev_to = CREATED, ev_detail = ''created''\<rparr>]\<rparr>
           in Inr (ord, True,
                   om\<lparr>om_orders := dict_put new_id ord (om_orders om),
                      om_by_key := dict_put key new_id (om_by_key om)\<rparr>)))"

definition restore_order :: "order_manager \<Rightarrow> order \<Rightarrow> order_manager" where
  "restore_order om ord =
     om\<lparr>om_orders := dict_put (o_id ord) ord (om_orders om),
        om_by_key := dict_put (o_idempotency_key ord) (o_id ord) (om_by_key om)\<rparr>"

definition restore :: "order_manager \<Rightarrow> order list \<Rightarrow> order_manager" where
  "restore om ords = foldl restore_order om ords"

definition get_order :: "order_manager \<Rightarrow> uuid \<Rightarrow> order option" where
  "get_order om i = dict_get (om_orders om) i"

definition list_all_orders :: "order_manager \<Rightarrow> string option \<Rightarrow> order list" where
  "list_all_orders om account =
     (let orders = dict_values (om_orders om)
      in case account of None \<Rightarrow> orders | Some a \<Rightarrow> filter (\<lambda>ord. o_account_id ord = a) orders)"

text \<open>Attribute assignments on an order the caller holds, e.g. \<open>order.filled_quantity = ...\<close>.\<close>

definition set_order :: "order_manager \<Rightarrow> uuid \<Rightarrow> (order \<Rightarrow> order) \<Rightarrow> order_manager" where
  "set_order om i f =
     (case dict_get (om_orders om) i of
        None \<Rightarrow> om
      | Some ord \<Rightarrow> om\<lparr>om_orders := dict_put i (f ord) (om_orders om)\<rparr>)"

definition move_order :: "order \<Rightarrow> order_status \<Rightarrow> string \<Rightarrow> order" where
  "move_order ord to_status detail =
     (let ord' = ord\<lparr>o_events := o_events ord @
                        [\<lparr>ev_from = Some (o_status ord), ev_to = to_status, ev_detail = detail\<rparr>],
                     o_status := to_status\<rparr>
      in if to_status = REJECTED then ord'\<lparr>o_rejection_reason := Some detail\<rparr> else ord')"

definition transition ::
  "order_manager \<Rightarrow> uuid \<Rightarrow> order_status \<Rightarrow> string \<Rightarrow> py_error + order_manager" where
  "transition om i to_status detail =
     (case dict_get (om_orders om) i of
        None \<Rightarrow> Inl KeyError
      | Some ord \<Rightarrow>
          (if to_status \<notin> allowed_transitions (o_status ord) then Inl IllegalTransitionError
           else Inr (om\<lparr>om_orders := dict_put i (move_order ord to_status detail) (om_orders om)\<rparr>)))"

subsection \<open>What an order's history may be\<close>

fun chain_from :: "order_status \<Rightarrow> order_event list \<Rightarrow> bool" where
  "chain_from s [] = True"
| "chain_from s (e # es) =
     (ev_from e = Some s \<and> ev_to e \<in> allowed_transitions s \<and> chain_from (ev_to e) es)"

fun end_of :: "order_status \<Rightarrow> order_event list \<Rightarrow> order_status" where
  "end_of s [] = s"
| "end_of s (e # es) = end_of (ev_to e) es"

definition history_ok :: "order \<Rightarrow> bool" where
  "history_ok ord =
     (case o_events ord of
        [] \<Rightarrow> False
      | e # es \<Rightarrow> ev_from e = None \<and> ev_to e = CREATED \<and> chain_from CREATED es
                  \<and> end_of CREATED es = o_status ord)"

definition is_terminal :: "order_status \<Rightarrow> bool" where
  "is_terminal s \<longleftrightarrow> allowed_transitions s = {}"


lemma chain_from_snoc:
  "chain_from s (es @ [e]) \<longleftrightarrow>
     chain_from s es \<and> ev_from e = Some (end_of s es) \<and> ev_to e \<in> allowed_transitions (end_of s es)"
  by (induction es arbitrary: s) auto

lemma end_of_snoc [simp]: "end_of s (es @ [e]) = ev_to e"
  by (induction es arbitrary: s) auto

lemma move_order_simps [simp]:
  "o_id (move_order ord s d) = o_id ord"
  "o_idempotency_key (move_order ord s d) = o_idempotency_key ord"
  "o_account_id (move_order ord s d) = o_account_id ord"
  "o_symbol (move_order ord s d) = o_symbol ord"
  "o_direction (move_order ord s d) = o_direction ord"
  "o_order_type (move_order ord s d) = o_order_type ord"
  "o_quantity (move_order ord s d) = o_quantity ord"
  "o_price (move_order ord s d) = o_price ord"
  "o_status (move_order ord s d) = s"
  "o_filled_quantity (move_order ord s d) = o_filled_quantity ord"
  "o_average_fill_price (move_order ord s d) = o_average_fill_price ord"
  "o_broker_order_id (move_order ord s d) = o_broker_order_id ord"
  "o_events (move_order ord s d) =
     o_events ord @ [\<lparr>ev_from = Some (o_status ord), ev_to = s, ev_detail = d\<rparr>]"
  by (simp_all add: move_order_def Let_def)

lemma history_ok_move:
  "history_ok ord \<Longrightarrow> s \<in> allowed_transitions (o_status ord) \<Longrightarrow> history_ok (move_order ord s d)"
  by (auto simp: history_ok_def chain_from_snoc split: list.splits)

subsection \<open>The invariant of the book\<close>

definition om_wf :: "order_manager \<Rightarrow> bool" where
  "om_wf om \<longleftrightarrow>
     dict_ok (om_orders om) \<and> dict_ok (om_by_key om) \<and>
     (\<forall>i ord. dict_get (om_orders om) i = Some ord \<longrightarrow> o_id ord = i \<and> history_ok ord) \<and>
     (\<forall>k i. dict_get (om_by_key om) k = Some i \<longrightarrow>
        (\<exists>ord. dict_get (om_orders om) i = Some ord \<and> o_idempotency_key ord = k)) \<and>
     (\<forall>i ord. dict_get (om_orders om) i = Some ord \<longrightarrow>
        dict_get (om_by_key om) (o_idempotency_key ord) = Some i)"

lemma om_wf_empty [simp]: "om_wf empty_manager"
  by (simp add: om_wf_def empty_manager_def)

lemma om_wf_get: "om_wf om \<Longrightarrow> get_order om i = Some ord \<Longrightarrow> o_id ord = i \<and> history_ok ord"
  by (simp add: om_wf_def get_order_def)

lemma om_wf_key:
  "om_wf om \<Longrightarrow> dict_get (om_by_key om) k = Some i \<Longrightarrow>
     \<exists>ord. get_order om i = Some ord \<and> o_idempotency_key ord = k"
  by (simp add: om_wf_def get_order_def)

lemma om_wf_indexed:
  "om_wf om \<Longrightarrow> get_order om i = Some ord \<Longrightarrow>
     dict_get (om_by_key om) (o_idempotency_key ord) = Some i"
  by (simp add: om_wf_def get_order_def)

lemma om_wfI:
  assumes "dict_ok (om_orders om)" and "dict_ok (om_by_key om)"
    and "\<And>i ord. get_order om i = Some ord \<Longrightarrow> o_id ord = i \<and> history_ok ord
           \<and> dict_get (om_by_key om) (o_idempotency_key ord) = Some i"
    and "\<And>k i. dict_get (om_by_key om) k = Some i \<Longrightarrow>
           \<exists>ord. get_order om i = Some ord \<and> o_idempotency_key ord = k"
  shows "om_wf om"
  using assms unfolding om_wf_def get_order_def by blast

lemma om_wf_insert:
  assumes wf: "om_wf om" and new: "get_order om (o_id ord) = None"
    and key: "dict_get (om_by_key om) (o_idempotency_key ord) = None" and h: "history_ok ord"
  shows "om_wf (restore_order om ord)"
proof (rule om_wfI)
  show "dict_ok (om_orders (restore_order om ord))" "dict_ok (om_by_key (restore_order om ord))"
    using wf by (simp_all add: om_wf_def restore_order_def)
next
  fix i old
  assume "get_order (restore_order om ord) i = Some old"
  then show "o_id old = i \<and> history_ok old
      \<and> dict_get (om_by_key (restore_order om ord)) (o_idempotency_key old) = Some i"
    using om_wf_get [OF wf, of i old] om_wf_indexed [OF wf, of i old] h key
    by (auto simp: restore_order_def get_order_def split: if_splits)
next
  fix k i
  assume "dict_get (om_by_key (restore_order om ord)) k = Some i"
  then show "\<exists>old. get_order (restore_order om ord) i = Some old \<and> o_idempotency_key old = k"
    using om_wf_key [OF wf, of k i] new
    by (auto simp: restore_order_def get_order_def split: if_splits)
qed

lemma om_wf_replace:
  assumes wf: "om_wf om" and old: "get_order om i = Some ord"
    and same: "o_id ord' = o_id ord" "o_idempotency_key ord' = o_idempotency_key ord"
    and h: "history_ok ord'"
  shows "om_wf (om\<lparr>om_orders := dict_put i ord' (om_orders om)\<rparr>)" (is "om_wf ?om")
proof (rule om_wfI)
  show "dict_ok (om_orders ?om)" "dict_ok (om_by_key ?om)"
    using wf by (simp_all add: om_wf_def)
next
  fix j new
  assume "get_order ?om j = Some new"
  then show "o_id new = j \<and> history_ok new
      \<and> dict_get (om_by_key ?om) (o_idempotency_key new) = Some j"
    using om_wf_get [OF wf] om_wf_indexed [OF wf] old same h
    by (auto simp: get_order_def split: if_splits)
next
  fix k j
  assume "dict_get (om_by_key ?om) k = Some j"
  then show "\<exists>new. get_order ?om j = Some new \<and> o_idempotency_key new = k"
    using om_wf_key [OF wf, of k j] old same by (auto simp: get_order_def)
qed

lemma create_order_cases:
  assumes "create_order om nid key account symbol dir ty q p = Inr (ord, created, om')"
  shows "(\<not> created \<and> om' = om \<and> (\<exists>i. dict_get (om_by_key om) key = Some i \<and> get_order om i = Some ord))
       \<or> (created \<and> dict_get (om_by_key om) key = None \<and> om' = restore_order om ord
          \<and> o_id ord = nid \<and> o_idempotency_key ord = key \<and> o_status ord = CREATED \<and> history_ok ord
          \<and> o_account_id ord = account \<and> o_symbol ord = symbol \<and> o_direction ord = dir
          \<and> o_order_type ord = ty \<and> o_quantity ord = q \<and> o_price ord = p
          \<and> o_filled_quantity ord = Fin 0)"
  using assms
  by (auto simp: create_order_def Let_def restore_order_def get_order_def history_ok_def
      split: option.splits)

lemma create_order_wf:
  assumes "om_wf om" and "get_order om nid = None"
    and "create_order om nid key account symbol dir ty q p = Inr (ord, created, om')"
  shows "om_wf om'"
  using create_order_cases [OF assms(3)] assms(1,2)
  by (auto simp: get_order_def intro: om_wf_insert)

lemma transition_Inr:
  "transition om i s d = Inr om' \<longleftrightarrow>
     (\<exists>ord. get_order om i = Some ord \<and> s \<in> allowed_transitions (o_status ord) \<and>
        om' = om\<lparr>om_orders := dict_put i (move_order ord s d) (om_orders om)\<rparr>)"
  by (auto simp: transition_def get_order_def split: option.splits if_splits)

lemma transition_get:
  assumes "transition om i s d = Inr om'"
  shows "get_order om' j =
     (if j = i then map_option (\<lambda>ord. move_order ord s d) (get_order om i) else get_order om j)"
  using assms by (auto simp: transition_Inr get_order_def)

lemma transition_wf:
  assumes "om_wf om" and "transition om i s d = Inr om'"
  shows "om_wf om'"
proof -
  from assms(2) obtain ord where ord: "get_order om i = Some ord"
    "s \<in> allowed_transitions (o_status ord)"
    "om' = om\<lparr>om_orders := dict_put i (move_order ord s d) (om_orders om)\<rparr>"
    by (auto simp: transition_Inr)
  then show ?thesis
    using assms(1) om_wf_get [OF assms(1) ord(1)]
    by (auto simp: get_order_def intro!: om_wf_replace history_ok_move)
qed

text \<open>What an order asks for, and what the execution engine assigns to one: never its identity, its
  terms, its status or its events.\<close>

definition order_terms ::
  "order \<Rightarrow> string \<times> string \<times> direction \<times> order_type \<times> pyfloat \<times> pyfloat option" where
  "order_terms ord = (o_account_id ord, o_symbol ord, o_direction ord, o_order_type ord, o_quantity ord, o_price ord)"

definition keeps_identity :: "(order \<Rightarrow> order) \<Rightarrow> bool" where
  "keeps_identity f \<longleftrightarrow>
     (\<forall>ord. o_id (f ord) = o_id ord \<and> o_idempotency_key (f ord) = o_idempotency_key ord
        \<and> o_status (f ord) = o_status ord \<and> o_events (f ord) = o_events ord
        \<and> order_terms (f ord) = order_terms ord)"

lemma set_order_get:
  "get_order (set_order om i f) j = (if j = i then map_option f (get_order om i) else get_order om j)"
  by (auto simp: set_order_def get_order_def split: option.splits)

lemma keeps_identity_history: "keeps_identity f \<Longrightarrow> history_ok ord \<Longrightarrow> history_ok (f ord)"
  by (cases "o_events ord") (simp_all add: keeps_identity_def history_ok_def)

lemma set_order_wf:
  assumes "om_wf om" and "keeps_identity f"
  shows "om_wf (set_order om i f)"
proof (cases "get_order om i")
  case None
  with assms show ?thesis by (simp add: set_order_def get_order_def)
next
  case (Some ord)
  have "om_wf (om\<lparr>om_orders := dict_put i (f ord) (om_orders om)\<rparr>)"
    using om_wf_get [OF assms(1) Some] assms(2) keeps_identity_history [of f ord]
    by (intro om_wf_replace [OF assms(1) Some]) (simp_all add: keeps_identity_def)
  with Some show ?thesis by (simp add: set_order_def get_order_def)
qed

subsection \<open>Reachable books\<close>

text \<open>
  Every way the program changes a book: creating an order under a fresh id, moving one
  along the state machine, the execution engine's field assignments, and restoring a
  row of the \<open>orders\<close> table whose id and key are not in the book.
\<close>

inductive om_step :: "order_manager \<Rightarrow> order_manager \<Rightarrow> bool" where
  create: "get_order om nid = None \<Longrightarrow>
     create_order om nid key account symbol dir ty q p = Inr (ord, created, om') \<Longrightarrow> om_step om om'"
| move: "transition om i s d = Inr om' \<Longrightarrow> om_step om om'"
| assign: "keeps_identity f \<Longrightarrow> om_step om (set_order om i f)"
| load: "get_order om (o_id ord) = None \<Longrightarrow>
     dict_get (om_by_key om) (o_idempotency_key ord) = None \<Longrightarrow> history_ok ord \<Longrightarrow>
     om_step om (restore_order om ord)"

inductive om_reachable :: "order_manager \<Rightarrow> bool" where
  start: "om_reachable empty_manager"
| step: "om_reachable om \<Longrightarrow> om_step om om' \<Longrightarrow> om_reachable om'"

lemma om_step_wf: "om_step om om' \<Longrightarrow> om_wf om \<Longrightarrow> om_wf om'"
  by (induction rule: om_step.induct)
    (auto intro: create_order_wf transition_wf set_order_wf om_wf_insert)

lemma om_reachable_wf: "om_reachable om \<Longrightarrow> om_wf om"
  by (induction rule: om_reachable.induct) (auto intro: om_step_wf)

subsection \<open>Facts about histories\<close>

definition passed :: "order \<Rightarrow> order_status \<Rightarrow> bool" where
  "passed ord s \<longleftrightarrow> s \<in> set (map ev_to (o_events ord))"

text \<open>The statuses an order can only have after the risk engine approved it.\<close>

definition past_risk :: "order_status \<Rightarrow> bool" where
  "past_risk s \<longleftrightarrow> s \<in> {SUBMITTED, ACKNOWLEDGED, PARTIALLY_FILLED, FILLED, MONITORING, CLOSED,
     CANCELLED, EXPIRED}"

lemma chain_past_risk:
  assumes "chain_from s es" and "past_risk (end_of s es)" and "\<not> past_risk s"
  shows "s = RISK_APPROVED \<or> RISK_APPROVED \<in> set (map ev_to es)"
  using assms
proof (induction es arbitrary: s)
  case Nil
  then show ?case by simp
next
  case (Cons e es)
  show ?case
  proof (cases "past_risk (ev_to e)")
    case True
    with Cons.prems show ?thesis by (cases s) (auto simp: past_risk_def)
  next
    case False
    with Cons.IH [of "ev_to e"] Cons.prems show ?thesis by auto
  qed
qed

lemma history_past_risk:
  assumes "history_ok ord" and "past_risk (o_status ord)"
  shows "passed ord RISK_APPROVED"
proof -
  from assms(1) obtain e es where e: "o_events ord = e # es" "chain_from CREATED es"
    "end_of CREATED es = o_status ord"
    by (auto simp: history_ok_def split: list.splits)
  from chain_past_risk [OF e(2)] e(3) assms(2) show ?thesis
    by (simp add: passed_def e(1) past_risk_def)
qed

text \<open>Progress of a status: every move but a repeated partial fill raises it.\<close>

fun status_rank :: "order_status \<Rightarrow> nat" where
  "status_rank CREATED = 0"
| "status_rank VALIDATING = 1"
| "status_rank RISK_APPROVED = 2"
| "status_rank SUBMITTED = 3"
| "status_rank ACKNOWLEDGED = 4"
| "status_rank PARTIALLY_FILLED = 5"
| "status_rank FILLED = 6"
| "status_rank MONITORING = 7"
| "status_rank CLOSED = 8"
| "status_rank REJECTED = 8"
| "status_rank CANCELLED = 8"
| "status_rank EXPIRED = 8"
| "status_rank FAILED = 8"

lemma allowed_rank:
  "t \<in> allowed_transitions s \<Longrightarrow> s = PARTIALLY_FILLED \<and> t = PARTIALLY_FILLED \<or> status_rank s < status_rank t"
  by (cases s) auto

lemma chain_length:
  "chain_from s es \<Longrightarrow>
     length (filter (\<lambda>e. ev_from e \<noteq> Some PARTIALLY_FILLED \<or> ev_to e \<noteq> PARTIALLY_FILLED) es) + status_rank s
       \<le> status_rank (end_of s es)"
proof (induction es arbitrary: s)
  case Nil
  then show ?case by simp
next
  case (Cons e es)
  then have "length (filter (\<lambda>e. ev_from e \<noteq> Some PARTIALLY_FILLED \<or> ev_to e \<noteq> PARTIALLY_FILLED) es)
      + status_rank (ev_to e) \<le> status_rank (end_of (ev_to e) es)" by simp
  moreover have "ev_to e \<in> allowed_transitions s" using Cons.prems by simp
  ultimately show ?case using allowed_rank [of "ev_to e" s] Cons.prems by auto
qed

section \<open>Properties\<close>

text \<open>C2: in every reachable book each order carries its own id, its events form a path of
  the transition table from \<open>CREATED\<close> to its current status, and its idempotency key is
  indexed to it.\<close>

theorem order_book_invariant:
  assumes "om_reachable om" and "get_order om i = Some ord"
  shows "o_id ord = i \<and> history_ok ord \<and> dict_get (om_by_key om) (o_idempotency_key ord) = Some i"
  using om_reachable_wf [OF assms(1)] assms(2) om_wf_get om_wf_indexed by blast

definition sample_order :: order where
  "sample_order = \<lparr>o_id = 7, o_idempotency_key = ''k'', o_account_id = ''acc'', o_symbol = ''INFY'',
     o_direction = LONG, o_order_type = MARKET, o_quantity = Fin 10, o_price = None,
     o_status = CREATED, o_broker_order_id = None, o_filled_quantity = Fin 0,
     o_average_fill_price = None, o_rejection_reason = None,
     o_events = [\<lparr>ev_from = None, ev_to = CREATED, ev_detail = ''created''\<rparr>]\<rparr>"

definition sample_book :: order_manager where
  "sample_book = restore_order empty_manager sample_order"

lemma sample_book_create:
  "create_order empty_manager 7 ''k'' ''acc'' ''INFY'' LONG MARKET (Fin 10) None
     = Inr (sample_order, True, sample_book)"
  by (simp add: create_order_def empty_manager_def sample_book_def restore_order_def sample_order_def Let_def)

lemma sample_book_get: "get_order sample_book 7 = Some sample_order"
  by (simp add: sample_book_def restore_order_def get_order_def sample_order_def)

lemma sample_book_reachable: "om_reachable sample_book"
  by (rule om_reachable.step [OF om_reachable.start om_step.create [OF _ sample_book_create]])
    (simp add: get_order_def empty_manager_def)

lemma order_book_invariant_witness:
  "om_reachable sample_book \<and> get_order sample_book 7 = Some sample_order
   \<and> history_ok sample_order \<and> dict_get (om_by_key sample_book) ''k'' = Some 7"
  using order_book_invariant [OF sample_book_reachable sample_book_get]
    sample_book_reachable sample_book_get
  by (simp add: sample_order_def)

text \<open>C1: no order reaches the broker, or any status behind it, without having passed
  \<open>RISK_APPROVED\<close>.\<close>

theorem no_order_bypasses_risk:
  assumes "om_reachable om" and "get_order om i = Some ord"
    and "o_status ord \<in> {SUBMITTED, ACKNOWLEDGED, PARTIALLY_FILLED, FILLED, MONITORING, CLOSED,
           CANCELLED, EXPIRED}"
  shows "passed ord RISK_APPROVED"
proof -
  have "history_ok ord" using om_wf_get [OF om_reachable_wf [OF assms(1)] assms(2)] by simp
  moreover have "past_risk (o_status ord)" using assms(3) by (simp add: past_risk_def)
  ultimately show ?thesis by (rule history_past_risk)
qed

definition submitted_book :: "py_error + order_manager" where
  "submitted_book =
     bind_res (transition sample_book 7 VALIDATING '''') (\<lambda>b1.
     bind_res (transition b1 7 RISK_APPROVED '''') (\<lambda>b2.
     transition b2 7 SUBMITTED ''sent to broker''))"

lemma submitted_book_run:
  "\<exists>om ord. submitted_book = Inr om \<and> om_reachable om \<and> get_order om 7 = Some ord
     \<and> o_status ord = SUBMITTED"
proof -
  have r: "o_status sample_order = CREATED" by (simp add: sample_order_def)
  obtain b1 where b1: "transition sample_book 7 VALIDATING '''' = Inr b1"
    by (simp add: transition_Inr sample_book_get r)
  note g1 = transition_get [OF b1, of 7]
  obtain b2 where b2: "transition b1 7 RISK_APPROVED '''' = Inr b2"
    using g1 by (simp add: transition_Inr sample_book_get)
  note g2 = transition_get [OF b2, of 7]
  obtain b3 where b3: "transition b2 7 SUBMITTED ''sent to broker'' = Inr b3"
    using g1 g2 by (simp add: transition_Inr sample_book_get)
  note g3 = transition_get [OF b3, of 7]
  have "om_reachable b3"
    using sample_book_reachable b1 b2 b3 om_step.move om_reachable.step by blast
  with b1 b2 b3 g1 g2 g3 show ?thesis by (simp add: submitted_book_def sample_book_get)
qed

lemma no_order_bypasses_risk_witness:
  "\<exists>om ord. submitted_book = Inr om \<and> get_order om 7 = Some ord \<and> passed ord RISK_APPROVED"
  using submitted_book_run no_order_bypasses_risk by blast

text \<open>One idempotency key means one order: in a reachable book, asking again with the key
  of a known order, whatever the other arguments, creates nothing and returns that order.\<close>

theorem create_order_idempotent:
  assumes "om_reachable om" and "get_order om i = Some ord"
  shows "create_order om nid (o_idempotency_key ord) account symbol dir ty q p = Inr (ord, False, om)"
proof -
  have "dict_get (om_by_key om) (o_idempotency_key ord) = Some i"
    using om_wf_indexed [OF om_reachable_wf [OF assms(1)] assms(2)] .
  with assms(2) show ?thesis by (simp add: create_order_def get_order_def)
qed

lemma create_order_idempotent_witness:
  "create_order sample_book 9 ''k'' ''other'' ''TCS'' SHORT LIMIT (Fin 3) (Some (Fin 5))
     = Inr (sample_order, False, sample_book)"
  using create_order_idempotent [OF sample_book_reachable sample_book_get]
  by (simp add: sample_order_def)

lemma om_step_keeps:
  assumes "om_step om om'" and "get_order om i = Some ord"
  shows "\<exists>ord'. get_order om' i = Some ord' \<and>
     (o_status ord' = o_status ord \<and> o_events ord' = o_events ord
      \<or> o_status ord' \<in> allowed_transitions (o_status ord))"
  using assms
proof (induction rule: om_step.induct)
  case (create om nid key account symbol dir ty q p new created om')
  then show ?case
    using create_order_cases [OF create.hyps(2)] by (auto simp: restore_order_def get_order_def)
next
  case (move om j s d om')
  then show ?case
    using transition_get [OF move.hyps, of i] by (auto simp: transition_Inr)
next
  case (assign f om j)
  then show ?case by (auto simp: set_order_get keeps_identity_def)
next
  case (load om new)
  then show ?case by (auto simp: restore_order_def get_order_def)
qed

lemma om_step_terms:
  assumes "om_step om om'" and "get_order om i = Some ord"
  shows "\<exists>ord'. get_order om' i = Some ord' \<and> order_terms ord' = order_terms ord"
  using assms
proof (induction rule: om_step.induct)
  case (create om nid key account symbol dir ty q p new created om')
  then show ?case
    using create_order_cases [OF create.hyps(2)] by (auto simp: restore_order_def get_order_def)
next
  case (move om j s d om')
  then show ?case
    using transition_get [OF move.hyps, of i] by (auto simp: transition_Inr order_terms_def)
next
  case (assign f om j)
  then show ?case by (auto simp: set_order_get keeps_identity_def)
next
  case (load om new)
  then show ?case by (auto simp: restore_order_def get_order_def)
qed

text \<open>A settled order stays settled: \<open>CLOSED\<close>, \<open>REJECTED\<close>, \<open>CANCELLED\<close>, \<open>EXPIRED\<close> and
  \<open>FAILED\<close> admit no transition, and no operation of the book changes such an order's status
  or adds an event to it.\<close>

theorem settled_order_is_final:
  assumes "om_step om om'" and "get_order om i = Some ord"
    and "o_status ord \<in> {CLOSED, REJECTED, CANCELLED, EXPIRED, FAILED}"
  shows "\<exists>ord'. get_order om' i = Some ord' \<and> o_status ord' = o_status ord \<and> o_events ord' = o_events ord"
  using om_step_keeps [OF assms(1,2)] assms(3) by auto

definition rejected_book :: order_manager where
  "rejected_book =
     sample_book\<lparr>om_orders := dict_put 7 (move_order sample_order REJECTED ''no'') (om_orders sample_book)\<rparr>"

lemma settled_order_is_final_witness:
  "\<exists>ord'. get_order (set_order rejected_book 7 (o_filled_quantity_update (\<lambda>_. Fin 1))) 7 = Some ord'
     \<and> o_status ord' = REJECTED \<and> length (o_events ord') = 2"
proof -
  have "om_step rejected_book (set_order rejected_book 7 (o_filled_quantity_update (\<lambda>_. Fin 1)))"
    by (rule om_step.assign) (simp add: keeps_identity_def order_terms_def)
  moreover have "get_order rejected_book 7 = Some (move_order sample_order REJECTED ''no'')"
    by (simp add: rejected_book_def get_order_def)
  ultimately show ?thesis
    using settled_order_is_final
      [of rejected_book "set_order rejected_book 7 (o_filled_quantity_update (\<lambda>_. Fin 1))" 7
        "move_order sample_order REJECTED ''no''"]
    by (auto simp: sample_order_def)
qed

text \<open>The life of an order is bounded: besides repeated partial fills, at most eight
  transitions ever happen to it.\<close>

theorem order_life_is_bounded:
  assumes "om_reachable om" and "get_order om i = Some ord"
  shows "length (filter (\<lambda>e. ev_from e \<noteq> Some PARTIALLY_FILLED \<or> ev_to e \<noteq> PARTIALLY_FILLED)
           (tl (o_events ord))) \<le> 8"
proof -
  have "history_ok ord" using om_wf_get [OF om_reachable_wf [OF assms(1)] assms(2)] by simp
  then obtain e es where "o_events ord = e # es" "chain_from CREATED es"
    by (auto simp: history_ok_def split: list.splits)
  moreover have "status_rank s \<le> 8" for s by (cases s) auto
  ultimately show ?thesis
    using chain_length [of CREATED es] le_trans by fastforce
qed

lemma order_life_is_bounded_witness:
  "length (filter (\<lambda>e. ev_from e \<noteq> Some PARTIALLY_FILLED \<or> ev_to e \<noteq> PARTIALLY_FILLED)
     (tl (o_events sample_order))) \<le> 8"
  using order_life_is_bounded [OF sample_book_reachable sample_book_get] .

lemma restore_reachable:
  assumes "om_reachable om" and "\<forall>ord \<in> set ords. history_ok ord"
    and "distinct (map o_id ords)" and "distinct (map o_idempotency_key ords)"
    and "\<forall>ord \<in> set ords. get_order om (o_id ord) = None
           \<and> dict_get (om_by_key om) (o_idempotency_key ord) = None"
  shows "om_reachable (restore om ords) \<and>
     (\<forall>ord \<in> set ords. get_order (restore om ords) (o_id ord) = Some ord) \<and>
     (\<forall>i. i \<notin> o_id ` set ords \<longrightarrow> get_order (restore om ords) i = get_order om i)"
  using assms
proof (induction ords arbitrary: om)
  case Nil
  then show ?case by (simp add: restore_def)
next
  case (Cons ord ords)
  let ?om = "restore_order om ord"
  have unf: "restore om (ord # ords) = restore ?om ords" by (simp add: restore_def)
  have "om_reachable ?om"
    using Cons.prems by (intro om_reachable.step [OF Cons.prems(1) om_step.load]) auto
  moreover have "\<forall>o' \<in> set ords. get_order ?om (o_id o') = None
      \<and> dict_get (om_by_key ?om) (o_idempotency_key o') = None"
  proof
    fix o'
    assume o': "o' \<in> set ords"
    have "o_id o' \<noteq> o_id ord" "o_idempotency_key o' \<noteq> o_idempotency_key ord"
      using Cons.prems(3,4) o' by (metis distinct.simps(2) imageI list.simps(9) set_map)+
    with Cons.prems(5) o' show "get_order ?om (o_id o') = None
        \<and> dict_get (om_by_key ?om) (o_idempotency_key o') = None"
      by (simp add: restore_order_def get_order_def)
  qed
  ultimately have IH: "om_reachable (restore ?om ords) \<and>
      (\<forall>o' \<in> set ords. get_order (restore ?om ords) (o_id o') = Some o') \<and>
      (\<forall>i. i \<notin> o_id ` set ords \<longrightarrow> get_order (restore ?om ords) i = get_order ?om i)"
    using Cons.prems by (intro Cons.IH) auto
  moreover have "get_order ?om (o_id ord) = Some ord"
    by (simp add: restore_order_def get_order_def)
  moreover have "i \<noteq> o_id ord \<Longrightarrow> get_order ?om i = get_order om i" for i
    by (simp add: restore_order_def get_order_def)
  ultimately show ?case using Cons.prems(3) by (auto simp: unf)
qed

text \<open>A book restored from the journal (rows with distinct ids and idempotency keys, as
  the table's constraints give) still knows its keys: a replayed request with the key of any
  restored order returns that order and creates nothing.\<close>

theorem restored_orders_dedupe:
  assumes "\<forall>ord \<in> set ords. history_ok ord"
    and "distinct (map o_id ords)" and "distinct (map o_idempotency_key ords)"
    and "ord \<in> set ords"
  shows "create_order (restore empty_manager ords) nid (o_idempotency_key ord) account symbol dir ty q p
     = Inr (ord, False, restore empty_manager ords)"
proof -
  have r: "om_reachable (restore empty_manager ords) \<and>
     (\<forall>ord \<in> set ords. get_order (restore empty_manager ords) (o_id ord) = Some ord) \<and>
     (\<forall>i. i \<notin> o_id ` set ords \<longrightarrow> get_order (restore empty_manager ords) i = get_order empty_manager i)"
    using assms by (intro restore_reachable om_reachable.start) (simp_all add: get_order_def empty_manager_def)
  then have "dict_get (om_by_key (restore empty_manager ords)) (o_idempotency_key ord) = Some (o_id ord)"
    using assms(4) om_wf_indexed om_reachable_wf by blast
  with r assms(4) show ?thesis by (simp add: create_order_def get_order_def)
qed

lemma restored_orders_dedupe_witness:
  "create_order (restore empty_manager [sample_order]) 9 ''k'' ''acc'' ''TCS'' SHORT LIMIT (Fin 3) None
     = Inr (sample_order, False, restore empty_manager [sample_order])"
  using restored_orders_dedupe [of "[sample_order]" sample_order]
  by (simp add: sample_order_def history_ok_def)

end
