(* ===== verification/PositionManager.thy ===== *)
theory PositionManager
  imports Domain
begin

text \<open>
  Position tracking (\<open>trading/position_manager.py\<close>): \<open>PositionRecord\<close>, \<open>PositionManager\<close>
  and their operations, on binary64 quantities and prices. The book is the dictionary
  from (account, symbol) to the record; where the code hands out a record it then
  mutates (\<open>new_position.stop = ...\<close>), the model uses \<open>set_position\<close>.
\<close>

subsection \<open>Records\<close>

record position =
  p_account_id :: string
  p_symbol :: string
  p_quantity :: pyfloat
  p_average_price :: pyfloat
  p_realized_pnl :: pyfloat
  p_unrealized_pnl :: pyfloat
  p_stop :: "pyfloat option"
  p_target :: "pyfloat option"
  p_strategy_id :: "string option"
  p_protective_order_id :: "string option"

definition new_position :: "string \<Rightarrow> string \<Rightarrow> position" where
  "new_position account symbol =
     \<lparr>p_account_id = account, p_symbol = symbol, p_quantity = Fin 0, p_average_price = Fin 0,
      p_realized_pnl = Fin 0, p_unrealized_pnl = Fin 0, p_stop = None, p_target = None,
      p_strategy_id = None, p_protective_order_id = None\<rparr>"

definition is_open :: "position \<Rightarrow> bool" where
  "is_open p \<longleftrightarrow> \<not> py_eq (p_quantity p) (Fin 0)"

definition is_long :: "position \<Rightarrow> bool" where
  "is_long p \<longleftrightarrow> Fin 0 < p_quantity p"

type_synonym position_book = "(string \<times> string, position) dict"

subsection \<open>Operations\<close>

definition restore_positions :: "position_book \<Rightarrow> position list \<Rightarrow> position_book" where
  "restore_positions book ps =
     foldl (\<lambda>b p. dict_put (p_account_id p, p_symbol p) p b) book ps"

definition get_position :: "position_book \<Rightarrow> string \<Rightarrow> string \<Rightarrow> position option" where
  "get_position book account symbol = dict_get book (account, symbol)"

definition set_position ::
  "position_book \<Rightarrow> string \<Rightarrow> string \<Rightarrow> (position \<Rightarrow> position) \<Rightarrow> position_book" where
  "set_position book account symbol f =
     (case dict_get book (account, symbol) of
        None \<Rightarrow> book
      | Some p \<Rightarrow> dict_put (account, symbol) (f p) book)"

text \<open>The body of \<open>apply_fill\<close> on the record it found or created.\<close>

definition fill_position :: "position \<Rightarrow> direction \<Rightarrow> pyfloat \<Rightarrow> pyfloat \<Rightarrow> position" where
  "fill_position pos dir quantity price =
     (let signed_qty = signed_quantity dir quantity;
          same_direction = py_eq (p_quantity pos) (Fin 0)
                           \<or> (Fin 0 < p_quantity pos) = (Fin 0 < signed_qty)
      in if same_direction then
           let new_quantity = p_quantity pos + signed_qty;
               total_cost = p_average_price pos * p_quantity pos + price * signed_qty
           in pos\<lparr>p_average_price := (if truthy new_quantity then total_cost / new_quantity else Fin 0),
                  p_quantity := new_quantity\<rparr>
         else
           let closing_qty = pymin \<bar>signed_qty\<bar> \<bar>p_quantity pos\<bar>;
               realized = closing_qty * (price - p_average_price pos)
                          * (if Fin 0 < p_quantity pos then Fin 1 else Fin (- 1));
               remainder = \<bar>signed_qty\<bar> - closing_qty;
               new_quantity = p_quantity pos + signed_qty;
               pos' = pos\<lparr>p_realized_pnl := p_realized_pnl pos + realized,
                          p_quantity := new_quantity\<rparr>
           in if Fin 0 < remainder then pos'\<lparr>p_average_price := price\<rparr>
              else if py_eq new_quantity (Fin 0) then pos'\<lparr>p_average_price := Fin 0\<rparr>
              else pos')"

definition apply_fill ::
  "position_book \<Rightarrow> string \<Rightarrow> string \<Rightarrow> direction \<Rightarrow> pyfloat \<Rightarrow> pyfloat \<Rightarrow> position_book" where
  "apply_fill book account symbol dir quantity price =
     (let pos = (case dict_get book (account, symbol) of
                   None \<Rightarrow> new_position account symbol
                 | Some p \<Rightarrow> p)
      in dict_put (account, symbol) (fill_position pos dir quantity price) book)"

definition mark_position :: "position \<Rightarrow> pyfloat \<Rightarrow> position" where
  "mark_position p price =
     (if \<not> is_open p then p
      else p\<lparr>p_unrealized_pnl := (price - p_average_price p) * p_quantity p\<rparr>)"

definition mark_to_market :: "position_book \<Rightarrow> string \<Rightarrow> string \<Rightarrow> pyfloat \<Rightarrow> position_book" where
  "mark_to_market book account symbol price =
     set_position book account symbol (\<lambda>p. mark_position p price)"

definition close_position :: "position_book \<Rightarrow> string \<Rightarrow> string \<Rightarrow> position_book" where
  "close_position book account symbol = dict_pop (account, symbol) book"

definition open_positions :: "position_book \<Rightarrow> string \<Rightarrow> position list" where
  "open_positions book account =
     map snd (filter (\<lambda>kv. fst (fst kv) = account \<and> is_open (snd kv)) book)"

subsection \<open>The book\<close>

definition book_ok :: "position_book \<Rightarrow> bool" where
  "book_ok book \<longleftrightarrow> dict_ok book \<and>
     (\<forall>k p. dict_get book k = Some p \<longrightarrow> k = (p_account_id p, p_symbol p))"

lemma fill_position_ids [simp]:
  "p_account_id (fill_position pos d q p) = p_account_id pos"
  "p_symbol (fill_position pos d q p) = p_symbol pos"
  "p_stop (fill_position pos d q p) = p_stop pos"
  "p_target (fill_position pos d q p) = p_target pos"
  "p_strategy_id (fill_position pos d q p) = p_strategy_id pos"
  "p_protective_order_id (fill_position pos d q p) = p_protective_order_id pos"
  "p_unrealized_pnl (fill_position pos d q p) = p_unrealized_pnl pos"
  by (simp_all add: fill_position_def Let_def)

lemma fill_position_quantity:
  "p_quantity (fill_position pos d q p) = p_quantity pos + signed_quantity d q"
  by (simp add: fill_position_def Let_def)

lemma mark_position_simps [simp]:
  "p_account_id (mark_position pos x) = p_account_id pos"
  "p_symbol (mark_position pos x) = p_symbol pos"
  "p_quantity (mark_position pos x) = p_quantity pos"
  "p_average_price (mark_position pos x) = p_average_price pos"
  "p_realized_pnl (mark_position pos x) = p_realized_pnl pos"
  "p_stop (mark_position pos x) = p_stop pos"
  "p_target (mark_position pos x) = p_target pos"
  by (simp_all add: mark_position_def)

lemma new_position_ids [simp]:
  "p_account_id (new_position a s) = a" "p_symbol (new_position a s) = s"
  "p_quantity (new_position a s) = Fin 0" "p_average_price (new_position a s) = Fin 0"
  "p_realized_pnl (new_position a s) = Fin 0"
  by (simp_all add: new_position_def)

lemma apply_fill_get:
  "get_position (apply_fill book a s d q p) a' s' =
     (if a' = a \<and> s' = s
      then Some (fill_position (case get_position book a s of None \<Rightarrow> new_position a s | Some pos \<Rightarrow> pos) d q p)
      else get_position book a' s')"
  by (simp add: get_position_def apply_fill_def Let_def)

lemma apply_fill_book_ok: "book_ok book \<Longrightarrow> book_ok (apply_fill book a s d q p)"
  by (auto simp: book_ok_def apply_fill_def Let_def split: if_splits option.splits)

lemma set_position_get:
  "get_position (set_position book a s f) a' s' =
     (if a' = a \<and> s' = s then map_option f (get_position book a s) else get_position book a' s')"
  by (auto simp: get_position_def set_position_def split: option.splits)

lemma set_position_book_ok:
  assumes "book_ok book" and "\<And>p. p_account_id (f p) = p_account_id p \<and> p_symbol (f p) = p_symbol p"
  shows "book_ok (set_position book a s f)"
  using assms by (auto simp: book_ok_def set_position_def split: if_splits option.splits)

lemma mark_to_market_get:
  "get_position (mark_to_market book a s x) a' s' =
     (if a' = a \<and> s' = s then map_option (\<lambda>p. mark_position p x) (get_position book a s)
      else get_position book a' s')"
  by (simp add: mark_to_market_def set_position_get)

lemma close_position_get:
  "get_position (close_position book a s) a' s' =
     (if a' = a \<and> s' = s then None else get_position book a' s')"
  by (simp add: close_position_def get_position_def)

lemma close_position_book_ok: "book_ok book \<Longrightarrow> book_ok (close_position book a s)"
  by (auto simp: book_ok_def close_position_def split: if_splits)

lemma open_positions_iff:
  assumes "book_ok book"
  shows "p \<in> set (open_positions book a) \<longleftrightarrow>
     (\<exists>s. get_position book a s = Some p) \<and> is_open p"
proof -
  have "p \<in> set (open_positions book a) \<longleftrightarrow> (\<exists>s. ((a, s), p) \<in> set book) \<and> is_open p"
    by (force simp: open_positions_def)
  with assms show ?thesis
    by (simp add: book_ok_def dict_items_get get_position_def)
qed

subsection \<open>Fills that reduce\<close>

lemma reduce_long:
  assumes "p_quantity pos = Fin q" "0 < q" "0 \<le> f" "f \<le> q"
  shows "\<exists>avg. fill_position pos SHORT (Fin f) price
     = pos\<lparr>p_quantity := rnd64 (q - f), p_average_price := avg,
           p_realized_pnl := p_realized_pnl pos + Fin f * (price - p_average_price pos) * Fin 1\<rparr>
     \<and> (avg = p_average_price pos \<or> rnd64 (q - f) = Fin 0 \<and> avg = Fin 0)
     \<and> (rnd64 (q - f) = Fin 0 \<longrightarrow> avg = Fin 0)"
  using assms
  by (auto simp: fill_position_def Let_def py_eq_def pymin_def)

lemma reduce_short:
  assumes "p_quantity pos = Fin q" "q < 0" "0 < f" "f \<le> - q"
  shows "\<exists>avg. fill_position pos LONG (Fin f) price
     = pos\<lparr>p_quantity := rnd64 (q + f), p_average_price := avg,
           p_realized_pnl := p_realized_pnl pos + Fin f * (price - p_average_price pos) * Fin (- 1)\<rparr>
     \<and> (avg = p_average_price pos \<or> rnd64 (q + f) = Fin 0 \<and> avg = Fin 0)
     \<and> (rnd64 (q + f) = Fin 0 \<longrightarrow> avg = Fin 0)"
  using assms
  by (auto simp: fill_position_def Let_def py_eq_def pymin_def)

subsection \<open>Accounting without rounding\<close>

text \<open>
  The exact ledger: a position as (quantity, average price, realized) over the rationals,
  and a fill of signed size \<open>s\<close> at price \<open>x\<close>. \<open>fill_exact\<close> says that none of the
  results the code computes for one fill needs rounding (whole quantities and prices of
  moderate size, for example); then \<open>fill_position\<close> is the ledger.
\<close>

definition ledger_fill :: "rat \<times> rat \<times> rat \<Rightarrow> rat \<Rightarrow> rat \<Rightarrow> rat \<times> rat \<times> rat" where
  "ledger_fill pos s x =
     (case pos of (q, a, r) \<Rightarrow>
        if q = 0 \<or> (0 < q) = (0 < s) then
          (q + s, if q + s = 0 then 0 else (a * q + x * s) / (q + s), r)
        else
          (let c = min \<bar>s\<bar> \<bar>q\<bar>
           in (q + s, if \<bar>q\<bar> < \<bar>s\<bar> then x else if q + s = 0 then 0 else a,
               r + c * (x - a) * (if 0 < q then 1 else - 1))))"

definition fill_exact :: "rat \<times> rat \<times> rat \<Rightarrow> rat \<Rightarrow> rat \<Rightarrow> bool" where
  "fill_exact pos s x =
     (case pos of (q, a, r) \<Rightarrow>
        representable (q + s) \<and>
        (if q = 0 \<or> (0 < q) = (0 < s) then
           representable (a * q) \<and> representable (x * s) \<and> representable (a * q + x * s)
           \<and> representable ((a * q + x * s) / (q + s))
         else
           (let c = min \<bar>s\<bar> \<bar>q\<bar>
            in representable (x - a) \<and> representable (c * (x - a))
               \<and> representable (\<bar>s\<bar> - c) \<and> representable (r + c * (x - a))
               \<and> representable (r - c * (x - a)))))"

definition pos_at :: "position \<Rightarrow> rat \<times> rat \<times> rat \<Rightarrow> position" where
  "pos_at pos l =
     (case l of (q, a, r) \<Rightarrow>
        pos\<lparr>p_quantity := Fin q, p_average_price := Fin a, p_realized_pnl := Fin r\<rparr>)"

lemma pymin_Fin: "pymin (Fin a) (Fin b) = Fin (min a b)"
  by (simp add: pymin_def min_def)

lemma fill_position_ledger:
  assumes "fill_exact (q, a, r) s x"
    and s: "signed_quantity d (Fin f) = Fin s"
  shows "fill_position (pos_at pos (q, a, r)) d (Fin f) (Fin x)
     = pos_at pos (ledger_fill (q, a, r) s x)"
proof (cases "q = 0 \<or> (0 < q) = (0 < s)")
  case True
  with assms(1) show ?thesis
    by (simp add: fill_exact_def fill_position_def s Let_def py_eq_def ledger_fill_def pos_at_def
        truthy_def rnd64_representable)
next
  case False
  define c where "c = min \<bar>s\<bar> \<bar>q\<bar>"
  from assms(1) False have e: "representable (q + s)" "representable (x - a)"
    "representable (c * (x - a))" "representable (\<bar>s\<bar> - c)" "representable (r + c * (x - a))"
    "representable (r - c * (x - a))"
    by (simp_all add: fill_exact_def c_def Let_def)
  have "representable (- (c * (x - a)))" using e(3) by (simp only: representable_minus)
  then have m: "rnd64 (- (c * (x - a))) = Fin (- (c * (x - a)))" by (rule rnd64_representable)
  have rem: "0 < \<bar>s\<bar> - c \<longleftrightarrow> \<bar>q\<bar> < \<bar>s\<bar>" by (auto simp: c_def min_def)
  show ?thesis
    using False rem m
    by (simp add: fill_position_def s Let_def py_eq_def ledger_fill_def pos_at_def pymin_Fin
        c_def [symmetric] e rnd64_representable)
qed

lemma ledger_equity:
  "case ledger_fill (q, a, r) s x of (q', a', r') \<Rightarrow>
     r' + q' * (m - a') = r + q * (m - a) + s * (m - x)"
proof (cases "q = 0 \<or> (0 < q) = (0 < s)")
  case True
  show ?thesis
  proof (cases "q + s = 0")
    case True
    with \<open>q = 0 \<or> (0 < q) = (0 < s)\<close> have "q = 0" "s = 0" by linarith+
    then show ?thesis by (simp add: ledger_fill_def)
  next
    case False
    define A where "A = (a * q + x * s) / (q + s)"
    have "(q + s) * A = a * q + x * s" using False by (simp add: A_def)
    moreover have "ledger_fill (q, a, r) s x = (q + s, A, r)"
      using True False by (simp add: ledger_fill_def A_def)
    ultimately show ?thesis by (simp add: algebra_simps)
  qed
next
  case False
  then consider "s = - q" | "0 < q" "s \<le> 0" "q + s \<noteq> 0" | "q < 0" "0 < s" "q + s \<noteq> 0"
    by linarith
  then show ?thesis
    using False
    by cases (auto simp: ledger_fill_def Let_def min_def algebra_simps split: if_splits)
qed

lemma clamped_exit:
  fixes price :: pyfloat
  assumes "p_quantity pos = Fin q" and "0 < f" and "f \<le> \<bar>q\<bar>" and "representable q"
  defines "pos' \<equiv> fill_position pos (if 0 < q then SHORT else LONG) (Fin f) price"
  shows "(if 0 < q then Fin 0 \<le> p_quantity pos' \<and> p_quantity pos' \<le> Fin q
          else Fin q \<le> p_quantity pos' \<and> p_quantity pos' \<le> Fin 0)
     \<and> (p_average_price pos' = p_average_price pos
        \<or> p_quantity pos' = Fin 0 \<and> p_average_price pos' = Fin 0)"
proof (cases "0 < q")
  case True
  have "rnd64 (q - f) \<le> rnd64 q" using assms(2) by (intro rnd64_mono) simp
  moreover have "Fin 0 \<le> rnd64 (q - f)" using assms(3) True by (intro rnd64_nonneg) simp
  ultimately show ?thesis
    using reduce_long [OF assms(1) True, of f price] assms(2-4) True
    by (auto simp: pos'_def rnd64_representable)
next
  case False
  then have q: "q < 0" "f \<le> - q" using assms(2,3) by auto
  have "rnd64 q \<le> rnd64 (q + f)" using assms(2) by (intro rnd64_mono) simp
  moreover have "rnd64 (q + f) \<le> Fin 0" using q by (intro rnd64_nonpos) simp
  ultimately show ?thesis
    using reduce_short [OF assms(1) q(1) assms(2) q(2), of price] False assms(4)
    by (auto simp: pos'_def rnd64_representable)
qed

section \<open>Properties\<close>

text \<open>C3: no fill creates or destroys money: where the arithmetic is exact, realized P&L plus
  the open quantity marked at any price \<open>m\<close> changes by the fill's own mark, \<open>s * (m - x)\<close>,
  whether the fill opens, adds, reduces, closes or flips the position.\<close>

theorem fill_conserves_equity:
  assumes "fill_exact (q, a, r) s x" and "signed_quantity d (Fin f) = Fin s"
  shows "\<exists>q' a' r'. fill_position (pos_at pos (q, a, r)) d (Fin f) (Fin x) = pos_at pos (q', a', r')
     \<and> q' = q + s \<and> (\<forall>m. r' + q' * (m - a') = r + q * (m - a) + s * (m - x))"
proof -
  obtain q' a' r' where l: "ledger_fill (q, a, r) s x = (q', a', r')"
    by (cases "ledger_fill (q, a, r) s x") auto
  have "q' = q + s" using l by (auto simp: ledger_fill_def Let_def split: if_splits)
  moreover have "r' + q' * (m - a') = r + q * (m - a) + s * (m - x)" for m
    using ledger_equity [where q = q and a = a and r = r and s = s and x = x and m = m] by (simp add: l)
  ultimately show ?thesis
    unfolding fill_position_ledger [OF assms] l
    by (intro exI [of _ q'] exI [of _ a'] exI [of _ r'] conjI allI refl)
qed


lemma fill_conserves_equity_witness:
  "fill_exact (100, 50, 0) (- 150) 60
   \<and> (\<exists>q' a' r'. fill_position (pos_at (new_position ''acc'' ''INFY'') (100, 50, 0)) SHORT (Fin 150) (Fin 60)
        = pos_at (new_position ''acc'' ''INFY'') (q', a', r')
      \<and> q' = - 50 \<and> (\<forall>m. r' + q' * (m - a') = 0 + 100 * (m - 50) + (- 150) * (m - 60)))"
proof -
  have e: "fill_exact (100, 50, 0) (- 150) 60"
    by (simp add: fill_exact_def Let_def)
  have s: "signed_quantity SHORT (Fin 150) = Fin (- 150)" by simp
  show ?thesis using e fill_conserves_equity [OF e s, of "new_position ''acc'' ''INFY''"] by simp
qed

text \<open>An exit clamped to the open quantity (what \<open>is_reducing\<close> orders are) never opens or
  flips a position, however the subtraction rounds: the quantity keeps its sign or becomes
  zero and does not grow, and the average price is kept, or reset to zero when flat.\<close>

theorem clamped_exit_never_flips:
  fixes price :: pyfloat
  assumes "p_quantity pos = Fin q" and "0 < f" and "f \<le> \<bar>q\<bar>" and "representable q"
  defines "pos' \<equiv> fill_position pos (if 0 < q then SHORT else LONG) (Fin f) price"
  shows "(if 0 < q then Fin 0 \<le> p_quantity pos' \<and> p_quantity pos' \<le> Fin q
          else Fin q \<le> p_quantity pos' \<and> p_quantity pos' \<le> Fin 0)
     \<and> (p_average_price pos' = p_average_price pos
        \<or> p_quantity pos' = Fin 0 \<and> p_average_price pos' = Fin 0)"
  unfolding pos'_def by (rule clamped_exit [OF assms(1-4)])

lemma clamped_exit_never_flips_witness:
  "Fin 0 \<le> p_quantity (fill_position (pos_at (new_position ''a'' ''s'') (100, 50, 0)) SHORT (Fin 30) (Fin 60))
   \<and> p_quantity (fill_position (pos_at (new_position ''a'' ''s'') (100, 50, 0)) SHORT (Fin 30) (Fin 60)) \<le> Fin 100"
proof -
  have "p_quantity (pos_at (new_position ''a'' ''s'') (100, 50, 0)) = Fin 100" by (simp add: pos_at_def)
  from clamped_exit_never_flips [OF this, of 30 "Fin 60"] show ?thesis
    by simp
qed

text \<open>The opposite fill of the whole quantity flattens a position exactly, at any price and
  with any rounding: no residue of quantity or average price is left.\<close>

theorem full_exit_flattens:
  fixes price :: pyfloat
  assumes "p_quantity pos = Fin q" and "q \<noteq> 0"
  defines "pos' \<equiv> fill_position pos (if is_long pos then SHORT else LONG) \<bar>p_quantity pos\<bar> price"
  shows "p_quantity pos' = Fin 0 \<and> p_average_price pos' = Fin 0 \<and> \<not> is_open pos'"
proof (cases "0 < q")
  case True
  with reduce_long [OF assms(1) True, of q price] assms show ?thesis
    by (auto simp: pos'_def is_long_def is_open_def py_eq_def)
next
  case False
  with assms(2) have "q < 0" by simp
  with reduce_short [OF assms(1) this, of "- q" price] assms show ?thesis
    by (auto simp: pos'_def is_long_def is_open_def py_eq_def)
qed

lemma full_exit_flattens_witness:
  "p_quantity (fill_position (pos_at (new_position ''a'' ''s'') (- 7, 50, 0)) LONG (Fin 7) (Fin 60)) = Fin 0"
  using full_exit_flattens [of "pos_at (new_position ''a'' ''s'') (- 7, 50, 0)" "- 7" "Fin 60"]
  by (simp add: pos_at_def is_long_def)

end
