(* ===== verification/Broker.thy ===== *)
theory Broker
  imports Domain
begin

text \<open>
  The broker interface (\<open>brokers/base.py\<close>): the data every adapter speaks, and the
  contract of \<open>place_order\<close> its docstring states, as the locale \<open>broker_contract\<close>:
  a well-formed request is answered, never raised; a fill comes with its price; a
  rejection or an unanswered order carries no fill. The time stamps \<open>updated_at\<close> and
  \<open>Quote.timestamp\<close>, which the modelled code only writes, are left out.
\<close>

record account_info =
  ai_account_id :: string
  ai_balance :: pyfloat
  ai_equity :: pyfloat

record broker_position =
  bp_symbol :: string
  bp_quantity :: pyfloat
  bp_average_price :: pyfloat
  bp_unrealized_pnl :: pyfloat

record broker_order =
  bo_broker_order_id :: string
  bo_symbol :: string
  bo_direction :: direction
  bo_order_type :: order_type
  bo_quantity :: pyfloat
  bo_price :: "pyfloat option"
  bo_status :: order_status
  bo_filled_quantity :: pyfloat
  bo_average_fill_price :: "pyfloat option"

record quote =
  qt_symbol :: string
  qt_ltp :: pyfloat
  qt_bid :: "pyfloat option"
  qt_ask :: "pyfloat option"

record order_request =
  rq_idempotency_key :: string
  rq_symbol :: string
  rq_direction :: direction
  rq_order_type :: order_type
  rq_quantity :: pyfloat
  rq_price :: "pyfloat option"
  rq_trigger_price :: "pyfloat option"

record order_result =
  rs_broker_order_id :: string
  rs_status :: order_status
  rs_filled_quantity :: pyfloat
  rs_average_fill_price :: "pyfloat option"
  rs_rejection_reason :: "string option"

text \<open>A quantity a request may carry: a positive, finite binary64 number.\<close>

definition sane_quantity :: "pyfloat \<Rightarrow> bool" where
  "sane_quantity q = (case q of Fin f \<Rightarrow> 0 < f \<and> rnd64 f = Fin f | _ \<Rightarrow> False)"

lemma sane_quantityE:
  assumes "sane_quantity q"
  obtains f where "q = Fin f" "0 < f" "rnd64 f = Fin f"
  using assms by (cases q) (auto simp: sane_quantity_def)

text \<open>What an answer may be, for a request of the given quantity.\<close>

definition answer_ok :: "order_result \<Rightarrow> bool" where
  "answer_ok res \<longleftrightarrow>
     (if rs_status res \<in> {REJECTED, FAILED} then \<not> Fin 0 < rs_filled_quantity res
      else rs_status res \<in> {SUBMITTED, ACKNOWLEDGED, PARTIALLY_FILLED, FILLED, CANCELLED})
     \<and> (Fin 0 < rs_filled_quantity res \<longrightarrow> rs_average_fill_price res \<noteq> None)"

locale broker_contract =
  fixes place :: "'b \<Rightarrow> order_request \<Rightarrow> py_error + order_result \<times> 'b"
    and alive :: "'b \<Rightarrow> bool"
  assumes place_answers:
    "alive b \<Longrightarrow> sane_quantity (rq_quantity r) \<Longrightarrow> rq_trigger_price r = None \<Longrightarrow>
       \<exists>res b'. place b r = Inr (res, b')"
    and place_alive: "alive b \<Longrightarrow> place b r = Inr (res, b') \<Longrightarrow> alive b'"
    and place_answer_ok: "alive b \<Longrightarrow> place b r = Inr (res, b') \<Longrightarrow> answer_ok res"

end
