(* ===== verification/MockBroker.thy ===== *)
theory MockBroker
  imports Broker
begin

text \<open>
  The in-memory broker behind paper trading and every unconnected account
  (\<open>brokers/mock.py\<close>): cash, orders, resting stops, positions and quotes, and every
  operation of \<open>MockBroker\<close>. The fresh \<open>uuid4()\<close> of an order and the draws of
  \<open>random\<close> are arguments (\<open>dice\<close>). A Python exception is \<open>Inl\<close>; the partly
  mutated object it would leave behind is not modelled.
\<close>

subsection \<open>State\<close>

record mock_broker =
  mb_balance :: pyfloat
  mb_starting_balance :: pyfloat
  mb_slippage_pct :: pyfloat
  mb_reject_probability :: pyfloat
  mb_partial_fill_probability :: pyfloat
  mb_orders :: "(string, broker_order) dict"
  mb_resting :: "(string, order_request) dict"
  mb_positions :: "(string, broker_position) dict"
  mb_quotes :: "(string, quote) dict"
  mb_healthy :: bool

record dice =
  dice_reject :: pyfloat
  dice_partial :: pyfloat
  dice_fraction :: pyfloat

definition new_mock_broker ::
  "pyfloat \<Rightarrow> pyfloat \<Rightarrow> pyfloat \<Rightarrow> pyfloat \<Rightarrow> mock_broker" where
  "new_mock_broker starting_balance slippage_pct reject_probability partial_fill_probability =
     \<lparr>mb_balance = starting_balance, mb_starting_balance = starting_balance,
      mb_slippage_pct = slippage_pct, mb_reject_probability = reject_probability,
      mb_partial_fill_probability = partial_fill_probability, mb_orders = [], mb_resting = [],
      mb_positions = [], mb_quotes = [], mb_healthy = True\<rparr>"

subsection \<open>Marking and fills\<close>

definition broker_mark :: "mock_broker \<Rightarrow> string \<Rightarrow> pyfloat \<Rightarrow> mock_broker" where
  "broker_mark mb symbol ltp =
     (case dict_get (mb_positions mb) symbol of
        None \<Rightarrow> mb
      | Some p \<Rightarrow>
          mb\<lparr>mb_positions := dict_put symbol
               (p\<lparr>bp_unrealized_pnl := (ltp - bp_average_price p) * bp_quantity p\<rparr>)
               (mb_positions mb)\<rparr>)"

text \<open>The end of \<open>_apply_fill_to_position\<close>: drop a flat position, otherwise write and mark it.\<close>

definition settle_fill ::
  "mock_broker \<Rightarrow> string \<Rightarrow> broker_position \<Rightarrow> pyfloat \<Rightarrow> pyfloat \<Rightarrow> pyfloat \<Rightarrow> mock_broker" where
  "settle_fill mb symbol p balance average new_quantity =
     (if py_eq new_quantity (Fin 0) then
        mb\<lparr>mb_balance := balance, mb_positions := dict_pop symbol (mb_positions mb)\<rparr>
      else
        let mb' = mb\<lparr>mb_balance := balance,
                     mb_positions := dict_put symbol
                       (p\<lparr>bp_average_price := average, bp_quantity := new_quantity\<rparr>)
                       (mb_positions mb)\<rparr>
        in case dict_get (mb_quotes mb) symbol of
             None \<Rightarrow> mb'
           | Some qt \<Rightarrow> broker_mark mb' symbol (qt_ltp qt))"

definition apply_fill_to_position ::
  "mock_broker \<Rightarrow> string \<Rightarrow> direction \<Rightarrow> pyfloat \<Rightarrow> pyfloat \<Rightarrow> py_error + mock_broker" where
  "apply_fill_to_position mb symbol dir quantity price =
     (let signed_qty = signed_quantity dir quantity
      in case dict_get (mb_positions mb) symbol of
           None \<Rightarrow>
             Inr (mb\<lparr>mb_positions := dict_put symbol
                    \<lparr>bp_symbol = symbol, bp_quantity = signed_qty, bp_average_price = price,
                     bp_unrealized_pnl = Fin 0\<rparr> (mb_positions mb)\<rparr>)
         | Some p \<Rightarrow>
             let new_quantity = bp_quantity p + signed_qty;
                 same_side = (Fin 0 < bp_quantity p) = (Fin 0 < signed_qty);
                 total_cost = bp_average_price p * bp_quantity p + price * signed_qty;
                 closed = pymin \<bar>signed_qty\<bar> \<bar>bp_quantity p\<bar>;
                 direction_sign = (if Fin 0 < bp_quantity p then Fin 1 else Fin (- 1));
                 balance = (if same_side then mb_balance mb
                            else mb_balance mb + (price - bp_average_price p) * closed * direction_sign);
                 flipped = \<not> py_eq new_quantity (Fin 0)
                           \<and> (Fin 0 < new_quantity) \<noteq> (Fin 0 < bp_quantity p)
             in bind_res
                  (if same_side then of_opt ZeroDivisionError (pydiv total_cost new_quantity)
                   else Inr (if flipped then price else bp_average_price p))
                  (\<lambda>average. Inr (settle_fill mb symbol p balance average new_quantity)))"

subsection \<open>Resting stops\<close>

definition stop_crossed :: "order_request \<Rightarrow> string \<Rightarrow> pyfloat \<Rightarrow> bool" where
  "stop_crossed rq symbol ltp =
     (case rq_trigger_price rq of
        None \<Rightarrow> False
      | Some trigger \<Rightarrow>
          rq_symbol rq = symbol \<and>
          (if rq_direction rq = SHORT then ltp \<le> trigger else trigger \<le> ltp))"

definition stop_fill_price :: "order_request \<Rightarrow> pyfloat \<Rightarrow> pyfloat" where
  "stop_fill_price rq ltp =
     (case (if rq_order_type rq = SL then rq_price rq else Some ltp) of
        None \<Rightarrow> ltp
      | Some x \<Rightarrow> if \<not> truthy x \<or> x \<le> Fin 0 then ltp else x)"

definition fire_stop ::
  "mock_broker \<Rightarrow> string \<Rightarrow> order_request \<Rightarrow> pyfloat \<Rightarrow> py_error + mock_broker" where
  "fire_stop mb bid rq ltp =
     (case dict_get (mb_orders mb) bid of
        None \<Rightarrow> Inl KeyError
      | Some bo \<Rightarrow>
          let price = stop_fill_price rq ltp;
              bo' = bo\<lparr>bo_status := FILLED, bo_filled_quantity := rq_quantity rq,
                      bo_average_fill_price := Some price\<rparr>;
              mb' = mb\<lparr>mb_resting := dict_pop bid (mb_resting mb),
                       mb_orders := dict_put bid bo' (mb_orders mb)\<rparr>
          in apply_fill_to_position mb' (rq_symbol rq) (rq_direction rq) (rq_quantity rq) price)"

text \<open>The loop over a snapshot of the resting orders.\<close>

fun trigger_loop ::
  "(string \<times> order_request) list \<Rightarrow> string \<Rightarrow> pyfloat \<Rightarrow> mock_broker \<Rightarrow> py_error + mock_broker" where
  "trigger_loop [] symbol ltp mb = Inr mb"
| "trigger_loop ((bid, rq) # rest) symbol ltp mb =
     (if stop_crossed rq symbol ltp
      then bind_res (fire_stop mb bid rq ltp) (trigger_loop rest symbol ltp)
      else trigger_loop rest symbol ltp mb)"

definition trigger_resting_orders :: "mock_broker \<Rightarrow> string \<Rightarrow> pyfloat \<Rightarrow> py_error + mock_broker" where
  "trigger_resting_orders mb symbol ltp = trigger_loop (mb_resting mb) symbol ltp mb"

definition set_quote ::
  "mock_broker \<Rightarrow> string \<Rightarrow> pyfloat \<Rightarrow> pyfloat option \<Rightarrow> pyfloat option \<Rightarrow> bool
   \<Rightarrow> py_error + mock_broker" where
  "set_quote mb symbol ltp bid ask is_market_print =
     (let mb1 = mb\<lparr>mb_quotes := dict_put symbol
                    \<lparr>qt_symbol = symbol, qt_ltp = ltp, qt_bid = bid, qt_ask = ask\<rparr> (mb_quotes mb)\<rparr>;
          mb2 = broker_mark mb1 symbol ltp
      in if is_market_print
         then bind_res (trigger_resting_orders mb2 symbol ltp) (\<lambda>mb3. Inr (broker_mark mb3 symbol ltp))
         else Inr mb2)"

subsection \<open>The account and the market data\<close>

definition restore_realized_pnl :: "mock_broker \<Rightarrow> pyfloat \<Rightarrow> mock_broker" where
  "restore_realized_pnl mb realized_pnl =
     mb\<lparr>mb_balance := mb_starting_balance mb + realized_pnl\<rparr>"

definition set_healthy :: "mock_broker \<Rightarrow> bool \<Rightarrow> mock_broker" where
  "set_healthy mb healthy = mb\<lparr>mb_healthy := healthy\<rparr>"

definition get_account :: "mock_broker \<Rightarrow> account_info" where
  "get_account mb =
     (let unrealized = pysum (map bp_unrealized_pnl (dict_values (mb_positions mb)))
      in \<lparr>ai_account_id = ''MOCK'', ai_balance = mb_balance mb,
          ai_equity = mb_balance mb + unrealized\<rparr>)"

definition get_positions :: "mock_broker \<Rightarrow> broker_position list" where
  "get_positions mb = dict_values (mb_positions mb)"

definition get_orders :: "mock_broker \<Rightarrow> broker_order list" where
  "get_orders mb = dict_values (mb_orders mb)"

definition get_quote :: "mock_broker \<Rightarrow> string \<Rightarrow> py_error + quote" where
  "get_quote mb symbol = of_opt KeyError (dict_get (mb_quotes mb) symbol)"

definition is_healthy :: "mock_broker \<Rightarrow> bool" where
  "is_healthy mb = mb_healthy mb"

subsection \<open>Placing an order\<close>

definition resolve_fill_price :: "mock_broker \<Rightarrow> order_request \<Rightarrow> pyfloat option" where
  "resolve_fill_price mb rq =
     (let base_price =
            (if rq_order_type rq = MARKET
             then case dict_get (mb_quotes mb) (rq_symbol rq) of
                    Some qt \<Rightarrow> Some (qt_ltp qt) | None \<Rightarrow> rq_price rq
             else rq_price rq)
      in case base_price of
           None \<Rightarrow> None
         | Some base \<Rightarrow>
             if \<not> truthy base \<or> base \<le> Fin 0 then None
             else
               let slippage = base * (mb_slippage_pct mb / Fin 100)
               in Some (if rq_direction rq = LONG then base + slippage else base - slippage))"

definition order_of :: "string \<Rightarrow> order_request \<Rightarrow> order_status \<Rightarrow> broker_order" where
  "order_of bid rq status =
     \<lparr>bo_broker_order_id = bid, bo_symbol = rq_symbol rq, bo_direction = rq_direction rq,
      bo_order_type = rq_order_type rq, bo_quantity = rq_quantity rq, bo_price = rq_price rq,
      bo_status = status, bo_filled_quantity = Fin 0, bo_average_fill_price = None\<rparr>"

definition record_order :: "mock_broker \<Rightarrow> string \<Rightarrow> broker_order \<Rightarrow> mock_broker" where
  "record_order mb bid bo = mb\<lparr>mb_orders := dict_put bid bo (mb_orders mb)\<rparr>"

definition no_price_reason :: "order_request \<Rightarrow> string" where
  "no_price_reason rq = ''No usable price for a '' @ order_type_value (rq_order_type rq)
     @ '' order on '' @ rq_symbol rq"

text \<open>\<open>random.random()\<close> is drawn only when the probability is positive.\<close>

definition roll :: "pyfloat \<Rightarrow> pyfloat \<Rightarrow> bool" where
  "roll probability draw \<longleftrightarrow> Fin 0 < probability \<and> draw < probability"

definition rest_stop ::
  "mock_broker \<Rightarrow> string \<Rightarrow> order_request \<Rightarrow> py_error + order_result \<times> mock_broker" where
  "rest_stop mb bid rq =
     (let mb1 = (record_order mb bid (order_of bid rq ACKNOWLEDGED))
                  \<lparr>mb_resting := dict_put bid rq (mb_resting mb)\<rparr>
      in bind_res
           (case dict_get (mb_quotes mb1) (rq_symbol rq) of
              None \<Rightarrow> Inr mb1
            | Some qt \<Rightarrow> trigger_resting_orders mb1 (rq_symbol rq) (qt_ltp qt))
           (\<lambda>mb2. bind_res (of_opt KeyError (dict_get (mb_orders mb2) bid))
              (\<lambda>filled. Inr
                 (\<lparr>rs_broker_order_id = bid, rs_status = bo_status filled,
                   rs_filled_quantity = bo_filled_quantity filled,
                   rs_average_fill_price = bo_average_fill_price filled,
                   rs_rejection_reason = None\<rparr>, mb2))))"

definition rejection :: "string \<Rightarrow> string \<Rightarrow> order_result" where
  "rejection bid reason =
     \<lparr>rs_broker_order_id = bid, rs_status = REJECTED, rs_filled_quantity = Fin 0,
      rs_average_fill_price = None, rs_rejection_reason = Some reason\<rparr>"

definition fill_order ::
  "mock_broker \<Rightarrow> string \<Rightarrow> dice \<Rightarrow> order_request \<Rightarrow> pyfloat \<Rightarrow> py_error + order_result \<times> mock_broker" where
  "fill_order mb bid dice rq fill_price =
     (let filled_quantity =
            (if roll (mb_partial_fill_probability mb) (dice_partial dice)
             then pyround 6 (rq_quantity rq * dice_fraction dice)
             else rq_quantity rq);
          status = (if rq_quantity rq \<le> filled_quantity then FILLED else PARTIALLY_FILLED);
          bo = (order_of bid rq status)\<lparr>bo_filled_quantity := filled_quantity,
                                       bo_average_fill_price := Some fill_price\<rparr>
      in bind_res
           (apply_fill_to_position (record_order mb bid bo) (rq_symbol rq) (rq_direction rq)
              filled_quantity fill_price)
           (\<lambda>mb'. Inr
              (\<lparr>rs_broker_order_id = bid, rs_status = status,
                rs_filled_quantity = filled_quantity, rs_average_fill_price = Some fill_price,
                rs_rejection_reason = None\<rparr>, mb')))"

definition mock_place_order ::
  "mock_broker \<Rightarrow> string \<Rightarrow> dice \<Rightarrow> order_request \<Rightarrow> py_error + order_result \<times> mock_broker" where
  "mock_place_order mb bid dice rq =
     (if roll (mb_reject_probability mb) (dice_reject dice)
      then Inr (rejection bid ''Simulated rejection'', record_order mb bid (order_of bid rq REJECTED))
      else if rq_order_type rq \<in> {SL, SL_M} \<and> rq_trigger_price rq \<noteq> None
      then rest_stop mb bid rq
      else case resolve_fill_price mb rq of
             None \<Rightarrow> Inr (rejection bid (no_price_reason rq),
                          record_order mb bid (order_of bid rq REJECTED))
           | Some fill_price \<Rightarrow> fill_order mb bid dice rq fill_price)"

subsection \<open>Changing and cancelling an order\<close>

datatype order_change =
    Change_broker_order_id string
  | Change_symbol string
  | Change_direction direction
  | Change_order_type order_type
  | Change_quantity pyfloat
  | Change_price "pyfloat option"
  | Change_status order_status
  | Change_filled_quantity pyfloat
  | Change_average_fill_price "pyfloat option"
  | Change_updated_at
  | Change_other string

fun change_order :: "order_change \<Rightarrow> broker_order \<Rightarrow> broker_order" where
  "change_order (Change_broker_order_id x) bo = bo\<lparr>bo_broker_order_id := x\<rparr>"
| "change_order (Change_symbol x) bo = bo\<lparr>bo_symbol := x\<rparr>"
| "change_order (Change_direction x) bo = bo\<lparr>bo_direction := x\<rparr>"
| "change_order (Change_order_type x) bo = bo\<lparr>bo_order_type := x\<rparr>"
| "change_order (Change_quantity x) bo = bo\<lparr>bo_quantity := x\<rparr>"
| "change_order (Change_price x) bo = bo\<lparr>bo_price := x\<rparr>"
| "change_order (Change_status x) bo = bo\<lparr>bo_status := x\<rparr>"
| "change_order (Change_filled_quantity x) bo = bo\<lparr>bo_filled_quantity := x\<rparr>"
| "change_order (Change_average_fill_price x) bo = bo\<lparr>bo_average_fill_price := x\<rparr>"
| "change_order Change_updated_at bo = bo"
| "change_order (Change_other _) bo = bo"

definition result_of :: "string \<Rightarrow> broker_order \<Rightarrow> order_result" where
  "result_of bid bo =
     \<lparr>rs_broker_order_id = bid, rs_status = bo_status bo,
      rs_filled_quantity = bo_filled_quantity bo,
      rs_average_fill_price = bo_average_fill_price bo, rs_rejection_reason = None\<rparr>"

definition modify_order ::
  "mock_broker \<Rightarrow> string \<Rightarrow> order_change list \<Rightarrow> py_error + order_result \<times> mock_broker" where
  "modify_order mb bid changes =
     (case dict_get (mb_orders mb) bid of
        None \<Rightarrow> Inl KeyError
      | Some bo \<Rightarrow>
          let bo' = fold change_order changes bo
          in Inr (result_of bid bo', record_order mb bid bo'))"

definition cancel_order :: "mock_broker \<Rightarrow> string \<Rightarrow> py_error + order_result \<times> mock_broker" where
  "cancel_order mb bid =
     (case dict_get (mb_orders mb) bid of
        None \<Rightarrow> Inl KeyError
      | Some bo \<Rightarrow>
          if bo_status bo \<in> {FILLED, CANCELLED, REJECTED} then Inr (result_of bid bo, mb)
          else Inr (\<lparr>rs_broker_order_id = bid, rs_status = CANCELLED, rs_filled_quantity = Fin 0,
                     rs_average_fill_price = None, rs_rejection_reason = None\<rparr>,
                    (record_order mb bid (bo\<lparr>bo_status := CANCELLED\<rparr>))
                      \<lparr>mb_resting := dict_pop bid (mb_resting mb)\<rparr>))"

subsection \<open>What a fill leaves alone\<close>

definition frame :: "mock_broker \<Rightarrow> mock_broker \<Rightarrow> bool" where
  "frame mb mb' \<longleftrightarrow> mb_orders mb' = mb_orders mb \<and> mb_resting mb' = mb_resting mb
     \<and> mb_quotes mb' = mb_quotes mb \<and> mb_healthy mb' = mb_healthy mb
     \<and> mb_slippage_pct mb' = mb_slippage_pct mb
     \<and> mb_reject_probability mb' = mb_reject_probability mb
     \<and> mb_partial_fill_probability mb' = mb_partial_fill_probability mb
     \<and> mb_starting_balance mb' = mb_starting_balance mb"

text \<open>The settings no operation changes.\<close>

definition settings :: "mock_broker \<Rightarrow> pyfloat \<times> pyfloat \<times> pyfloat \<times> pyfloat" where
  "settings mb = (mb_slippage_pct mb, mb_reject_probability mb, mb_partial_fill_probability mb,
     mb_starting_balance mb)"

definition broker_qty :: "mock_broker \<Rightarrow> string \<Rightarrow> pyfloat" where
  "broker_qty mb symbol =
     (case dict_get (mb_positions mb) symbol of None \<Rightarrow> Fin 0 | Some p \<Rightarrow> bp_quantity p)"

definition broker_ok :: "mock_broker \<Rightarrow> bool" where
  "broker_ok mb \<longleftrightarrow> dict_ok (mb_orders mb) \<and> dict_ok (mb_resting mb) \<and> dict_ok (mb_positions mb)
     \<and> dict_ok (mb_quotes mb)
     \<and> (\<forall>s p. dict_get (mb_positions mb) s = Some p \<longrightarrow> bp_symbol p = s \<and> \<not> py_eq (bp_quantity p) (Fin 0))
     \<and> (\<forall>bid rq. dict_get (mb_resting mb) bid = Some rq \<longrightarrow>
          (\<exists>bo. dict_get (mb_orders mb) bid = Some bo \<and> bo_status bo = ACKNOWLEDGED
             \<and> bo_filled_quantity bo = Fin 0 \<and> bo_average_fill_price bo = None))"

lemma frame_refl [simp]: "frame mb mb"
  by (simp add: frame_def)

lemma frame_trans: "frame a b \<Longrightarrow> frame b c \<Longrightarrow> frame a c"
  by (simp add: frame_def)

lemma broker_mark_frame [simp]: "frame mb (broker_mark mb s x)"
  by (simp add: frame_def broker_mark_def split: option.split)

lemma broker_mark_keeps [simp]:
  "mb_orders (broker_mark mb s x) = mb_orders mb" "mb_resting (broker_mark mb s x) = mb_resting mb"
  "mb_quotes (broker_mark mb s x) = mb_quotes mb" "mb_balance (broker_mark mb s x) = mb_balance mb"
  "settings (broker_mark mb s x) = settings mb"
  by (simp_all add: broker_mark_def settings_def split: option.split)

lemma broker_mark_position:
  "dict_get (mb_positions (broker_mark mb s x)) s' =
     (if s' = s then map_option (\<lambda>p. p\<lparr>bp_unrealized_pnl := (x - bp_average_price p) * bp_quantity p\<rparr>)
                       (dict_get (mb_positions mb) s)
      else dict_get (mb_positions mb) s')"
  by (auto simp: broker_mark_def split: option.split)

lemma broker_mark_qty [simp]: "broker_qty (broker_mark mb s x) s' = broker_qty mb s'"
  by (auto simp: broker_qty_def broker_mark_position split: option.split)

lemma broker_mark_dict_ok [simp]:
  "dict_ok (mb_positions mb) \<Longrightarrow> dict_ok (mb_positions (broker_mark mb s x))"
  by (simp add: broker_mark_def split: option.split)

lemma py_eq_0_iff: "py_eq x (Fin 0) \<longleftrightarrow> x = Fin 0"
  by (auto simp: py_eq_def)

lemma Fin0_add: "rnd64 f = Fin f \<Longrightarrow> Fin 0 + Fin f = Fin f"
  by simp

lemma settle_fill_frame: "frame mb (settle_fill mb s p b avg n)"
proof -
  have "frame mb (broker_mark (mb\<lparr>mb_balance := b, mb_positions := ps\<rparr>) s x)" for ps x
    by (rule frame_trans [OF _ broker_mark_frame]) (simp add: frame_def)
  then show ?thesis
    by (auto simp: settle_fill_def Let_def frame_def split: option.splits)
qed

lemma settle_fill_position:
  "\<exists>u. dict_get (mb_positions (settle_fill mb s p b avg n)) s' =
     (if s' = s then
        (if py_eq n (Fin 0) then None
         else Some (p\<lparr>bp_average_price := avg, bp_quantity := n, bp_unrealized_pnl := u\<rparr>))
      else dict_get (mb_positions mb) s')"
proof -
  have "\<exists>u. p\<lparr>bp_average_price := avg, bp_quantity := n\<rparr>
      = p\<lparr>bp_average_price := avg, bp_quantity := n, bp_unrealized_pnl := u\<rparr>"
    by (rule exI [where x = "bp_unrealized_pnl p"]) simp
  then show ?thesis
    by (auto simp: settle_fill_def Let_def broker_mark_position split: option.splits)
qed

lemma settle_fill_qty:
  "broker_qty (settle_fill mb s p b avg n) s' =
     (if s' = s then n else broker_qty mb s')"
  using settle_fill_position [of mb s p b avg n s'] by (auto simp: broker_qty_def py_eq_0_iff)

lemma apply_fill_to_position_cases:
  assumes "apply_fill_to_position mb s d q p = Inr mb'"
  shows "(dict_get (mb_positions mb) s = None \<and>
           mb' = mb\<lparr>mb_positions := dict_put s
                   \<lparr>bp_symbol = s, bp_quantity = signed_quantity d q, bp_average_price = p,
                    bp_unrealized_pnl = Fin 0\<rparr> (mb_positions mb)\<rparr>)
       \<or> (\<exists>pos b avg. dict_get (mb_positions mb) s = Some pos \<and>
           mb' = settle_fill mb s pos b avg (bp_quantity pos + signed_quantity d q))"
proof (cases "dict_get (mb_positions mb) s")
  case None
  with assms show ?thesis by (simp add: apply_fill_to_position_def Let_def)
next
  case (Some pos)
  with assms show ?thesis
    by (simp add: apply_fill_to_position_def Let_def bind_res_Inr) blast
qed

lemma apply_fill_to_position_frame:
  assumes "apply_fill_to_position mb s d q p = Inr mb'"
  shows "frame mb mb'"
  using apply_fill_to_position_cases [OF assms] settle_fill_frame by (auto simp: frame_def)

lemma apply_fill_to_position_qty:
  assumes "apply_fill_to_position mb s d q p = Inr mb'"
    and "Fin 0 + signed_quantity d q = signed_quantity d q"
  shows "broker_qty mb' s' =
     (if s' = s then broker_qty mb s + signed_quantity d q else broker_qty mb s')"
  using apply_fill_to_position_cases [OF assms(1)] assms(2)
  by (auto simp: settle_fill_qty) (simp_all add: broker_qty_def)

lemma sane_sum_nonzero:
  assumes "sane_quantity q" and "(Fin 0 < x) = (Fin 0 < signed_quantity d q)"
  shows "\<not> py_eq (x + signed_quantity d q) (Fin 0)"
proof -
  obtain f where f: "q = Fin f" "0 < f" "rnd64 f = Fin f" using assms(1) by (rule sane_quantityE)
  show ?thesis
  proof (cases x)
    case (Fin g)
    show ?thesis
    proof (cases d)
      case LONG
      with Fin assms(2) f have "0 < g" by simp
      with f have "rnd64 f \<le> rnd64 (g + f)" by (intro rnd64_mono) simp
      then have "Fin 0 < rnd64 (g + f)" using f flt_fle_trans [of "Fin 0" "Fin f"] by simp
      with LONG Fin f show ?thesis by (auto simp: py_eq_0_iff)
    next
      case SHORT
      with Fin assms(2) f have "g \<le> 0" by simp
      then have "rnd64 (g - f) \<le> rnd64 (- f)" by (intro rnd64_mono) simp
      also have "rnd64 (- f) = Fin (- f)" using f by (simp add: rnd64_minus)
      finally have "rnd64 (g - f) < Fin 0" using f(2) fle_flt_trans [of _ "Fin (- f)" "Fin 0"] by simp
      with SHORT Fin f show ?thesis by (auto simp: py_eq_0_iff)
    qed
  next
    case PInf
    with f show ?thesis by (cases d) (simp_all add: py_eq_def plus_pyfloat_def)
  next
    case NInf
    with f show ?thesis by (cases d) (simp_all add: py_eq_def plus_pyfloat_def)
  next
    case NaN
    then show ?thesis by (simp add: py_eq_def)
  qed
qed

lemma apply_fill_to_position_total:
  assumes "sane_quantity q"
  shows "\<exists>mb'. apply_fill_to_position mb s d q p = Inr mb'"
  using sane_sum_nonzero [OF assms, of _ d]
  by (auto simp: apply_fill_to_position_def Let_def pydiv_def of_opt_def truthy_def py_eq_0_iff
      split: option.split)

subsection \<open>The invariant of the broker\<close>

lemma broker_okD:
  assumes "broker_ok mb"
  shows "dict_ok (mb_orders mb)" "dict_ok (mb_resting mb)" "dict_ok (mb_positions mb)"
    "dict_get (mb_positions mb) s = Some pos \<Longrightarrow> bp_symbol pos = s \<and> \<not> py_eq (bp_quantity pos) (Fin 0)"
    "dict_get (mb_resting mb) bid = Some rq \<Longrightarrow>
       \<exists>bo. dict_get (mb_orders mb) bid = Some bo \<and> bo_status bo = ACKNOWLEDGED
          \<and> bo_filled_quantity bo = Fin 0 \<and> bo_average_fill_price bo = None"
  using assms by (auto simp: broker_ok_def)

definition positions_ok :: "(string, broker_position) dict \<Rightarrow> bool" where
  "positions_ok ps \<longleftrightarrow> dict_ok ps \<and>
     (\<forall>s p. dict_get ps s = Some p \<longrightarrow> bp_symbol p = s \<and> \<not> py_eq (bp_quantity p) (Fin 0))"

definition resting_ok :: "(string, order_request) dict \<Rightarrow> (string, broker_order) dict \<Rightarrow> bool" where
  "resting_ok rest orders \<longleftrightarrow> dict_ok orders \<and> dict_ok rest \<and>
     (\<forall>bid rq. dict_get rest bid = Some rq \<longrightarrow>
        (\<exists>bo. dict_get orders bid = Some bo \<and> bo_status bo = ACKNOWLEDGED
           \<and> bo_filled_quantity bo = Fin 0 \<and> bo_average_fill_price bo = None))"

lemma broker_ok_split:
  "broker_ok mb \<longleftrightarrow> positions_ok (mb_positions mb) \<and> resting_ok (mb_resting mb) (mb_orders mb)
     \<and> dict_ok (mb_quotes mb)"
  by (auto simp: broker_ok_def positions_ok_def resting_ok_def)

lemma positions_ok_mark: "positions_ok (mb_positions mb) \<Longrightarrow> positions_ok (mb_positions (broker_mark mb s x))"
  by (auto simp: positions_ok_def broker_mark_position split: if_splits)

lemma positions_ok_fill:
  assumes ok: "positions_ok (mb_positions mb)" and q: "sane_quantity q"
    and fill: "apply_fill_to_position mb s d q p = Inr mb'"
  shows "positions_ok (mb_positions mb')"
proof -
  have nz: "\<not> py_eq (signed_quantity d q) (Fin 0)"
    using q by (cases d) (auto simp: py_eq_def elim!: sane_quantityE)
  have "positions_ok (mb_positions (settle_fill mb s pos b avg n))"
    if pos: "dict_get (mb_positions mb) s = Some pos" for pos b avg n
  proof -
    have "dict_ok (mb_positions (settle_fill mb s pos b avg n))"
      using ok by (auto simp: positions_ok_def settle_fill_def Let_def split: option.split)
    moreover have "bp_symbol p' = s' \<and> \<not> py_eq (bp_quantity p') (Fin 0)"
      if p': "dict_get (mb_positions (settle_fill mb s pos b avg n)) s' = Some p'" for s' p'
    proof -
      obtain u where u: "dict_get (mb_positions (settle_fill mb s pos b avg n)) s' =
          (if s' = s then
             (if py_eq n (Fin 0) then None
              else Some (pos\<lparr>bp_average_price := avg, bp_quantity := n, bp_unrealized_pnl := u\<rparr>))
           else dict_get (mb_positions mb) s')"
        using settle_fill_position by blast
      have "bp_symbol pos = s" using ok pos by (simp add: positions_ok_def)
      moreover have "dict_get (mb_positions mb) s' = Some p' \<Longrightarrow>
          bp_symbol p' = s' \<and> \<not> py_eq (bp_quantity p') (Fin 0)"
        using ok by (simp add: positions_ok_def)
      ultimately show ?thesis using p' [unfolded u] by (auto split: if_splits)
    qed
    ultimately show ?thesis by (simp add: positions_ok_def)
  qed
  moreover have "positions_ok (dict_put s \<lparr>bp_symbol = s, bp_quantity = signed_quantity d q,
      bp_average_price = p, bp_unrealized_pnl = Fin 0\<rparr> (mb_positions mb))"
    using ok nz by (simp add: positions_ok_def)
  ultimately show ?thesis using apply_fill_to_position_cases [OF fill] by auto
qed

lemma positions_frame_fill:
  assumes "apply_fill_to_position mb s d q p = Inr mb'" and "s' \<noteq> s"
  shows "dict_get (mb_positions mb') s' = dict_get (mb_positions mb) s'"
proof -
  have "dict_get (mb_positions (settle_fill mb s pos b avg n)) s' = dict_get (mb_positions mb) s'" for pos b avg n
    using settle_fill_position [of mb s pos b avg n s'] assms(2) by simp
  with apply_fill_to_position_cases [OF assms(1)] assms(2) show ?thesis by auto
qed

definition filled_stop :: "order_request \<Rightarrow> pyfloat \<Rightarrow> broker_order \<Rightarrow> broker_order" where
  "filled_stop rq ltp bo = bo\<lparr>bo_status := FILLED, bo_filled_quantity := rq_quantity rq,
     bo_average_fill_price := Some (stop_fill_price rq ltp)\<rparr>"

lemma resting_ok_fire:
  assumes "resting_ok rest orders"
  shows "resting_ok (dict_pop bid rest) (dict_put bid bo orders)"
  using assms by (auto simp: resting_ok_def split: if_splits)

text \<open>One stop fires.\<close>

lemma fire_stop_spec:
  assumes ok: "broker_ok mb" and rest: "dict_get (mb_resting mb) bid = Some rq"
    and q: "sane_quantity (rq_quantity rq)"
  shows "\<exists>mb' bo. fire_stop mb bid rq ltp = Inr mb' \<and> dict_get (mb_orders mb) bid = Some bo
     \<and> broker_ok mb' \<and> mb_resting mb' = dict_pop bid (mb_resting mb)
     \<and> mb_orders mb' = dict_put bid (filled_stop rq ltp bo) (mb_orders mb)
     \<and> mb_quotes mb' = mb_quotes mb \<and> settings mb' = settings mb
     \<and> (\<forall>s. s \<noteq> rq_symbol rq \<longrightarrow> dict_get (mb_positions mb') s = dict_get (mb_positions mb) s)
     \<and> broker_qty mb' (rq_symbol rq)
         = broker_qty mb (rq_symbol rq) + signed_quantity (rq_direction rq) (rq_quantity rq)"
proof -
  obtain bo where bo: "dict_get (mb_orders mb) bid = Some bo"
    using broker_okD(5) [OF ok rest] by blast
  let ?mb = "mb\<lparr>mb_resting := dict_pop bid (mb_resting mb),
                mb_orders := dict_put bid (filled_stop rq ltp bo) (mb_orders mb)\<rparr>"
  obtain mb' where fill: "apply_fill_to_position ?mb (rq_symbol rq) (rq_direction rq) (rq_quantity rq)
      (stop_fill_price rq ltp) = Inr mb'"
    using apply_fill_to_position_total [OF q] by blast
  have z: "Fin 0 + signed_quantity (rq_direction rq) (rq_quantity rq)
      = signed_quantity (rq_direction rq) (rq_quantity rq)"
    using q by (cases "rq_direction rq") (auto simp: rnd64_minus elim!: sane_quantityE)
  have "fire_stop mb bid rq ltp = Inr mb'"
    using bo fill by (simp add: fire_stop_def Let_def filled_stop_def)
  moreover have "broker_ok mb'"
    using ok resting_ok_fire positions_ok_fill [OF _ q fill] apply_fill_to_position_frame [OF fill]
    by (auto simp: broker_ok_split frame_def)
  moreover have "broker_qty mb' (rq_symbol rq)
      = broker_qty mb (rq_symbol rq) + signed_quantity (rq_direction rq) (rq_quantity rq)"
    using apply_fill_to_position_qty [OF fill z] by (simp add: broker_qty_def)
  ultimately show ?thesis
    using bo apply_fill_to_position_frame [OF fill] positions_frame_fill [OF fill]
    by (auto simp: frame_def settings_def)
qed

subsection \<open>The whole tape\<close>

definition still_resting :: "string \<Rightarrow> pyfloat \<Rightarrow> (string, order_request) dict \<Rightarrow> (string, order_request) dict" where
  "still_resting symbol ltp rest = filter (\<lambda>kv. \<not> stop_crossed (snd kv) symbol ltp) rest"

text \<open>The order book after a print: every crossed stop filled, nothing else touched.\<close>

definition fired_order ::
  "string \<Rightarrow> pyfloat \<Rightarrow> (string, order_request) dict \<Rightarrow> string \<Rightarrow> broker_order option \<Rightarrow> broker_order option" where
  "fired_order symbol ltp rest bid old =
     (case dict_get rest bid of
        None \<Rightarrow> old
      | Some rq \<Rightarrow> if stop_crossed rq symbol ltp then map_option (filled_stop rq ltp) old else old)"

definition stops_sane :: "(string, order_request) dict \<Rightarrow> bool" where
  "stops_sane rest \<longleftrightarrow> (\<forall>kv \<in> set rest. sane_quantity (rq_quantity (snd kv)))"

lemma dict_pop_mid:
  assumes "dict_ok (kept @ (k, v) # rest)"
  shows "dict_pop k (kept @ (k, v) # rest) = kept @ rest"
proof -
  have "\<forall>kv \<in> set (kept @ rest). fst kv \<noteq> k" using assms by (auto simp: dict_ok_def)
  then have "filter (\<lambda>(k', _). k \<noteq> k') kept = kept" "filter (\<lambda>(k', _). k \<noteq> k') rest = rest"
    by (force simp: filter_id_conv)+
  then show ?thesis by (simp add: dict_pop_def AList.delete_eq)
qed

lemma trigger_loop_spec:
  assumes "broker_ok mb" and "mb_resting mb = kept @ rest" and "stops_sane rest"
  shows "\<exists>mb'. trigger_loop rest s x mb = Inr mb' \<and> broker_ok mb'
     \<and> mb_resting mb' = kept @ still_resting s x rest
     \<and> mb_quotes mb' = mb_quotes mb \<and> settings mb' = settings mb
     \<and> (\<forall>bid. dict_get (mb_orders mb') bid = fired_order s x rest bid (dict_get (mb_orders mb) bid))
     \<and> (\<forall>s'. s' \<noteq> s \<longrightarrow> dict_get (mb_positions mb') s' = dict_get (mb_positions mb) s')"
  using assms
proof (induction rest arbitrary: mb kept)
  case Nil
  then show ?case by (simp add: still_resting_def fired_order_def)
next
  case (Cons kv rest)
  obtain bid rq where kv: "kv = (bid, rq)" by force
  have distinct: "dict_ok (kept @ (bid, rq) # rest)"
    using broker_okD(2) [OF Cons.prems(1)] Cons.prems(2) kv by simp
  then have fresh: "dict_get rest bid = None"
    by (auto simp: dict_ok_def dict_get_def map_of_eq_None_iff)
  have sane: "stops_sane rest" "sane_quantity (rq_quantity rq)"
    using Cons.prems(3) kv by (auto simp: stops_sane_def)
  show ?case
  proof (cases "stop_crossed rq s x")
    case False
    have "mb_resting mb = (kept @ [kv]) @ rest" using Cons.prems(2) by simp
    from Cons.IH [OF Cons.prems(1) this sane(1)] obtain mb' where mb': "trigger_loop rest s x mb = Inr mb'"
      "broker_ok mb'" "mb_resting mb' = (kept @ [kv]) @ still_resting s x rest"
      "mb_quotes mb' = mb_quotes mb" "settings mb' = settings mb"
      "\<And>bid. dict_get (mb_orders mb') bid = fired_order s x rest bid (dict_get (mb_orders mb) bid)"
      "\<And>s'. s' \<noteq> s \<Longrightarrow> dict_get (mb_positions mb') s' = dict_get (mb_positions mb) s'"
      by blast
    have "fired_order s x (kv # rest) b old = fired_order s x rest b old" for b old
      using False fresh by (simp add: kv fired_order_def dict_get_Cons)
    then show ?thesis
      using mb' False by (intro exI [of _ mb']) (simp add: kv still_resting_def)
  next
    case True
    have sym: "rq_symbol rq = s" using True by (auto simp: stop_crossed_def split: option.splits)
    have "(bid, rq) \<in> set (mb_resting mb)" using Cons.prems(2) kv by simp
    then have get: "dict_get (mb_resting mb) bid = Some rq"
      using dict_items_get [OF broker_okD(2) [OF Cons.prems(1)], of bid rq] by simp
    obtain mb1 bo where mb1: "fire_stop mb bid rq x = Inr mb1" "dict_get (mb_orders mb) bid = Some bo"
      "broker_ok mb1" "mb_resting mb1 = dict_pop bid (mb_resting mb)"
      "mb_orders mb1 = dict_put bid (filled_stop rq x bo) (mb_orders mb)"
      "mb_quotes mb1 = mb_quotes mb" "settings mb1 = settings mb"
      "\<And>s'. s' \<noteq> s \<Longrightarrow> dict_get (mb_positions mb1) s' = dict_get (mb_positions mb) s'"
      using fire_stop_spec [OF Cons.prems(1) get sane(2), of x] sym by blast
    have "mb_resting mb1 = kept @ rest"
      using mb1(4) Cons.prems(2) kv dict_pop_mid [OF distinct] by simp
    from Cons.IH [OF mb1(3) this sane(1)] obtain mb' where mb': "trigger_loop rest s x mb1 = Inr mb'"
      "broker_ok mb'" "mb_resting mb' = kept @ still_resting s x rest"
      "mb_quotes mb' = mb_quotes mb1" "settings mb' = settings mb1"
      "\<And>bid. dict_get (mb_orders mb') bid = fired_order s x rest bid (dict_get (mb_orders mb1) bid)"
      "\<And>s'. s' \<noteq> s \<Longrightarrow> dict_get (mb_positions mb') s' = dict_get (mb_positions mb1) s'"
      by blast
    have "fired_order s x rest b (dict_get (mb_orders mb1) b)
        = fired_order s x (kv # rest) b (dict_get (mb_orders mb) b)" for b
      using True fresh mb1(2) by (simp add: kv fired_order_def dict_get_Cons mb1(5))
    then show ?thesis
      using mb' mb1(1,6,7,8) True by (intro exI [of _ mb']) (simp add: kv still_resting_def)
  qed
qed

lemma trigger_resting_orders_spec:
  assumes "broker_ok mb" and "stops_sane (mb_resting mb)"
  shows "\<exists>mb'. trigger_resting_orders mb s x = Inr mb' \<and> broker_ok mb'
     \<and> mb_resting mb' = still_resting s x (mb_resting mb)
     \<and> mb_quotes mb' = mb_quotes mb \<and> settings mb' = settings mb
     \<and> (\<forall>bid. dict_get (mb_orders mb') bid
           = fired_order s x (mb_resting mb) bid (dict_get (mb_orders mb) bid))
     \<and> (\<forall>s'. s' \<noteq> s \<longrightarrow> dict_get (mb_positions mb') s' = dict_get (mb_positions mb) s')"
  using trigger_loop_spec [OF assms(1) _ assms(2), of "[]"] by (simp add: trigger_resting_orders_def)

lemma set_quote_print:
  assumes ok: "broker_ok mb" and sane: "stops_sane (mb_resting mb)"
  shows "\<exists>mb'. set_quote mb s x bid ask True = Inr mb' \<and> broker_ok mb'
     \<and> mb_resting mb' = still_resting s x (mb_resting mb) \<and> settings mb' = settings mb
     \<and> (\<forall>i. dict_get (mb_orders mb') i = fired_order s x (mb_resting mb) i (dict_get (mb_orders mb) i))
     \<and> (\<forall>s'. s' \<noteq> s \<longrightarrow> dict_get (mb_positions mb') s' = dict_get (mb_positions mb) s')"
proof -
  let ?q = "\<lparr>qt_symbol = s, qt_ltp = x, qt_bid = bid, qt_ask = ask\<rparr>"
  let ?mb2 = "broker_mark (mb\<lparr>mb_quotes := dict_put s ?q (mb_quotes mb)\<rparr>) s x"
  have ok2: "broker_ok ?mb2" and sane2: "stops_sane (mb_resting ?mb2)"
    using ok sane by (auto simp: broker_ok_split intro: positions_ok_mark)
  obtain mb3 where mb3: "trigger_resting_orders ?mb2 s x = Inr mb3" "broker_ok mb3"
    "mb_resting mb3 = still_resting s x (mb_resting ?mb2)" "settings mb3 = settings ?mb2"
    "\<And>i. dict_get (mb_orders mb3) i = fired_order s x (mb_resting ?mb2) i (dict_get (mb_orders ?mb2) i)"
    "\<And>s'. s' \<noteq> s \<Longrightarrow> dict_get (mb_positions mb3) s' = dict_get (mb_positions ?mb2) s'"
    using trigger_resting_orders_spec [OF ok2 sane2, of s x] by blast
  have "set_quote mb s x bid ask True = Inr (broker_mark mb3 s x)"
    using mb3(1) by (simp add: set_quote_def Let_def)
  moreover have "broker_ok (broker_mark mb3 s x)"
    using mb3(2) by (auto simp: broker_ok_split intro: positions_ok_mark)
  ultimately show ?thesis using mb3(3-6)
    by (intro exI [of _ "broker_mark mb3 s x"]) (simp add: broker_mark_position, simp add: settings_def)
qed

subsection \<open>What place\_order answers\<close>

lemma rest_stop_spec:
  assumes ok: "broker_ok mb" and sane: "stops_sane (mb_resting mb)"
    and fresh: "dict_get (mb_orders mb) bid = None" and q: "sane_quantity (rq_quantity rq)"
  shows "\<exists>res mb'. rest_stop mb bid rq = Inr (res, mb') \<and> broker_ok mb' \<and> settings mb' = settings mb
     \<and> (case dict_get (mb_quotes mb) (rq_symbol rq) of
          Some qt \<Rightarrow>
            if stop_crossed rq (rq_symbol rq) (qt_ltp qt)
            then rs_status res = FILLED \<and> rs_filled_quantity res = rq_quantity rq
               \<and> rs_average_fill_price res = Some (stop_fill_price rq (qt_ltp qt))
               \<and> dict_get (mb_resting mb') bid = None
            else rs_status res = ACKNOWLEDGED \<and> rs_filled_quantity res = Fin 0
               \<and> dict_get (mb_resting mb') bid = Some rq
        | None \<Rightarrow> rs_status res = ACKNOWLEDGED \<and> rs_filled_quantity res = Fin 0
               \<and> mb_resting mb' = dict_put bid rq (mb_resting mb)
               \<and> mb_positions mb' = mb_positions mb)"
proof -
  let ?mb1 = "(record_order mb bid (order_of bid rq ACKNOWLEDGED))
                \<lparr>mb_resting := dict_put bid rq (mb_resting mb)\<rparr>"
  have unrested: "dict_get (mb_resting mb) bid = None"
    using broker_okD(5) [OF ok, of bid] fresh by (cases "dict_get (mb_resting mb) bid") auto
  have rok: "resting_ok (mb_resting ?mb1) (mb_orders ?mb1)"
    using ok by (auto simp: broker_ok_split resting_ok_def record_order_def order_of_def)
  have ok1: "broker_ok ?mb1" using ok rok by (simp add: broker_ok_split record_order_def)
  have "set (dict_put bid rq (mb_resting mb)) \<subseteq> insert (bid, rq) (set (mb_resting mb))"
    using broker_okD(2) [OF ok] dict_items_get [OF dict_ok_put [OF broker_okD(2) [OF ok]], of _ _ bid rq]
      dict_items_get [OF broker_okD(2) [OF ok]] by (auto split: if_splits)
  then have sane1: "stops_sane (mb_resting ?mb1)"
    using sane q by (auto simp: stops_sane_def)
  have bo: "dict_get (mb_orders ?mb1) bid = Some (order_of bid rq ACKNOWLEDGED)"
    by (simp add: record_order_def)
  have set1: "settings ?mb1 = settings mb" by (simp add: settings_def record_order_def)
  have q1: "mb_quotes ?mb1 = mb_quotes mb" by (simp add: record_order_def)
  show ?thesis
  proof (cases "dict_get (mb_quotes mb) (rq_symbol rq)")
    case None
    then show ?thesis using ok1 set1
      by (simp add: rest_stop_def Let_def record_order_def order_of_def settings_def)
  next
    case (Some qt)
    obtain mb2 where mb2: "trigger_resting_orders ?mb1 (rq_symbol rq) (qt_ltp qt) = Inr mb2" "broker_ok mb2"
      "mb_resting mb2 = still_resting (rq_symbol rq) (qt_ltp qt) (mb_resting ?mb1)"
      "settings mb2 = settings ?mb1"
      "\<And>i. dict_get (mb_orders mb2) i
         = fired_order (rq_symbol rq) (qt_ltp qt) (mb_resting ?mb1) i (dict_get (mb_orders ?mb1) i)"
      using trigger_resting_orders_spec [OF ok1 sane1, of "rq_symbol rq" "qt_ltp qt"] by blast
    have ord: "dict_get (mb_orders mb2) bid
        = Some (if stop_crossed rq (rq_symbol rq) (qt_ltp qt)
                then filled_stop rq (qt_ltp qt) (order_of bid rq ACKNOWLEDGED)
                else order_of bid rq ACKNOWLEDGED)"
      by (simp add: mb2(5) bo fired_order_def record_order_def)
    have "dict_get (mb_resting ?mb1) bid = Some rq" by simp
    then have "(bid, rq) \<in> set (mb_resting ?mb1)"
      using dict_items_get [OF broker_okD(2) [OF ok1]] by blast
    moreover have only: "r = rq" if "(bid, r) \<in> set (mb_resting ?mb1)" for r
      using that dict_items_get [OF broker_okD(2) [OF ok1]] by auto
    ultimately have res: "dict_get (mb_resting mb2) bid
        = (if stop_crossed rq (rq_symbol rq) (qt_ltp qt) then None else Some rq)"
      using dict_items_get [OF broker_okD(2) [OF mb2(2)], of bid] mb2(3)
      by (cases "dict_get (mb_resting mb2) bid") (auto simp: still_resting_def)
    show ?thesis using Some mb2(1,2,4) ord res set1 q1
      by (auto simp: rest_stop_def Let_def filled_stop_def order_of_def)
  qed
qed

definition answered_stop :: "broker_order \<Rightarrow> bool" where
  "answered_stop bo \<longleftrightarrow>
     bo_status bo = ACKNOWLEDGED \<and> bo_filled_quantity bo = Fin 0
     \<or> bo_status bo = FILLED \<and> bo_average_fill_price bo \<noteq> None"

lemma fire_stop_frame:
  assumes "fire_stop mb bid rq x = Inr mb'"
  shows "settings mb' = settings mb \<and> mb_quotes mb' = mb_quotes mb
     \<and> (\<exists>bo. dict_get (mb_orders mb) bid = Some bo
          \<and> mb_orders mb' = dict_put bid (filled_stop rq x bo) (mb_orders mb))"
proof -
  obtain bo where bo: "dict_get (mb_orders mb) bid = Some bo"
    and f: "apply_fill_to_position
      (mb\<lparr>mb_resting := dict_pop bid (mb_resting mb),
         mb_orders := dict_put bid (filled_stop rq x bo) (mb_orders mb)\<rparr>)
      (rq_symbol rq) (rq_direction rq) (rq_quantity rq) (stop_fill_price rq x) = Inr mb'"
    using assms by (auto simp: fire_stop_def filled_stop_def Let_def split: option.splits)
  show ?thesis using apply_fill_to_position_frame [OF f] bo by (simp add: frame_def settings_def)
qed

lemma trigger_loop_frame:
  assumes "trigger_loop rest s x mb = Inr mb'"
    and "dict_get (mb_orders mb) i = Some bo" and "answered_stop bo"
  shows "settings mb' = settings mb
     \<and> (\<exists>bo'. dict_get (mb_orders mb') i = Some bo' \<and> answered_stop bo')"
  using assms
proof (induction rest s x mb arbitrary: bo rule: trigger_loop.induct)
  case (1 s x mb)
  then show ?case by auto
next
  case (2 bid rq rest s x mb)
  show ?case
  proof (cases "stop_crossed rq s x")
    case False
    with 2 show ?thesis by simp
  next
    case True
    with 2(3) obtain mb1 where mb1: "fire_stop mb bid rq x = Inr mb1"
      "trigger_loop rest s x mb1 = Inr mb'"
      by (auto simp: bind_res_Inr)
    from fire_stop_frame [OF mb1(1)] obtain old where old: "settings mb1 = settings mb"
      "mb_orders mb1 = dict_put bid (filled_stop rq x old) (mb_orders mb)" by blast
    define bo1 where "bo1 = (if i = bid then filled_stop rq x old else bo)"
    have "dict_get (mb_orders mb1) i = Some bo1" "answered_stop bo1"
      using old(2) 2(4,5) by (auto simp: bo1_def answered_stop_def filled_stop_def)
    from 2(1) [OF True mb1(2) this] old(1) show ?thesis by simp
  qed
qed

lemma mock_place_order_answer:
  assumes "mock_place_order mb bid dice rq = Inr (res, mb')"
    and "\<not> Fin 0 < mb_partial_fill_probability mb"
  shows "answer_ok res \<and> settings mb' = settings mb"
proof -
  have "roll (mb_reject_probability mb) (dice_reject dice)
      \<or> rest_stop mb bid rq = Inr (res, mb')
      \<or> mb' = record_order mb bid (order_of bid rq REJECTED) \<and> res = rejection bid (no_price_reason rq)
      \<or> (\<exists>price. fill_order mb bid dice rq price = Inr (res, mb'))"
    using assms(1) by (simp add: mock_place_order_def split: if_splits option.splits) auto
  then consider (reject) "roll (mb_reject_probability mb) (dice_reject dice)"
    | (rest) "rest_stop mb bid rq = Inr (res, mb')"
    | (none) "mb' = record_order mb bid (order_of bid rq REJECTED)"
        "res = rejection bid (no_price_reason rq)"
    | (fill) price where "fill_order mb bid dice rq price = Inr (res, mb')"
    by blast
  then show ?thesis
  proof cases
    case reject
    then show ?thesis using assms(1)
      by (auto simp: mock_place_order_def rejection_def answer_ok_def settings_def record_order_def)
  next
    case none
    then show ?thesis by (simp add: rejection_def answer_ok_def settings_def record_order_def)
  next
    case rest
    let ?mb1 = "(record_order mb bid (order_of bid rq ACKNOWLEDGED))
                  \<lparr>mb_resting := dict_put bid rq (mb_resting mb)\<rparr>"
    have bo: "dict_get (mb_orders ?mb1) bid = Some (order_of bid rq ACKNOWLEDGED)"
      "answered_stop (order_of bid rq ACKNOWLEDGED)"
      by (simp_all add: record_order_def answered_stop_def order_of_def)
    have set1: "settings ?mb1 = settings mb" by (simp add: settings_def record_order_def)
    obtain filled where filled: "dict_get (mb_orders mb') bid = Some filled" "res = result_of bid filled"
      and run: "mb' = ?mb1 \<or> (\<exists>x. trigger_loop (mb_resting ?mb1) (rq_symbol rq) x ?mb1 = Inr mb')"
      using rest by (auto simp: rest_stop_def Let_def bind_res_Inr of_opt_Inr result_of_def
          trigger_resting_orders_def split: option.splits)
    have "settings mb' = settings ?mb1 \<and> answered_stop filled"
      using run trigger_loop_frame [OF _ bo] bo filled(1) by fastforce
    with set1 filled(2) show ?thesis by (auto simp: answered_stop_def answer_ok_def result_of_def)
  next
    case (fill price)
    obtain bo where f: "apply_fill_to_position (record_order mb bid bo) (rq_symbol rq) (rq_direction rq)
        (rq_quantity rq) price = Inr mb'"
      and res: "rs_status res \<in> {FILLED, PARTIALLY_FILLED}" "rs_average_fill_price res = Some price"
      using fill assms(2) by (auto simp: fill_order_def Let_def roll_def bind_res_Inr split: if_splits)
    have "settings mb' = settings mb"
      using apply_fill_to_position_frame [OF f] by (simp add: frame_def settings_def record_order_def)
    with res show ?thesis by (auto simp: answer_ok_def)
  qed
qed

text \<open>
  The broker with its supply of order ids and draws, as an instance of the contract. It is
  \<open>alive\<close> when partial fills are off, the setting of every account the application makes:
  a simulated partial fill may round a small order to a fill of zero.
\<close>

type_synonym mock_session = "mock_broker \<times> (nat \<Rightarrow> string \<times> dice)"

definition mock_place :: "mock_session \<Rightarrow> order_request \<Rightarrow> py_error + order_result \<times> mock_session" where
  "mock_place b rq =
     bind_res (mock_place_order (fst b) (fst (snd b 0)) (snd (snd b 0)) rq)
       (\<lambda>(res, mb'). Inr (res, mb', \<lambda>n. snd b (Suc n)))"

definition mock_alive :: "mock_session \<Rightarrow> bool" where
  "mock_alive b \<longleftrightarrow> \<not> Fin 0 < mb_partial_fill_probability (fst b)"

lemma mock_place_order_total:
  assumes "\<not> Fin 0 < mb_partial_fill_probability mb" and "sane_quantity (rq_quantity rq)"
    and "rq_trigger_price rq = None"
  shows "\<exists>res mb'. mock_place_order mb bid dice rq = Inr (res, mb')"
proof -
  have "\<exists>res mb'. fill_order mb bid dice rq price = Inr (res, mb')" for price
  proof -
    have "\<exists>mb'. apply_fill_to_position (record_order mb bid bo) (rq_symbol rq) (rq_direction rq)
        (rq_quantity rq) price = Inr mb'" for bo
      using apply_fill_to_position_total [OF assms(2)] .
    then show ?thesis using assms(1) by (auto simp: fill_order_def Let_def roll_def bind_res_Inr)
  qed
  then show ?thesis using assms(3) by (auto simp: mock_place_order_def split: option.split)
qed

interpretation mock: broker_contract mock_place mock_alive
proof
  fix b and r :: order_request
  assume "mock_alive b" "sane_quantity (rq_quantity r)" "rq_trigger_price r = None"
  then show "\<exists>res b'. mock_place b r = Inr (res, b')"
    using mock_place_order_total [of "fst b" r "fst (snd b 0)" "snd (snd b 0)"]
    by (auto simp: mock_place_def mock_alive_def)
next
  fix b and r :: order_request and res b'
  assume "mock_alive b" "mock_place b r = Inr (res, b')"
  then show "mock_alive b'" "answer_ok res"
    using mock_place_order_answer [of "fst b" "fst (snd b 0)" "snd (snd b 0)" r]
    by (auto simp: mock_place_def mock_alive_def bind_res_Inr settings_def)
qed

subsection \<open>Properties\<close>


definition demo_stop :: order_request where
  "demo_stop = \<lparr>rq_idempotency_key = ''k'', rq_symbol = ''INFY'', rq_direction = SHORT,
     rq_order_type = SL_M, rq_quantity = Fin 100, rq_price = None, rq_trigger_price = Some (Fin 95)\<rparr>"

definition demo_broker :: mock_broker where
  "demo_broker =
     (record_order (new_mock_broker (Fin 100000) (Fin 0) (Fin 0) (Fin 0)) ''b1''
        (order_of ''b1'' demo_stop ACKNOWLEDGED))
       \<lparr>mb_resting := [(''b1'', demo_stop)],
        mb_positions := [(''INFY'', \<lparr>bp_symbol = ''INFY'', bp_quantity = Fin 100,
           bp_average_price = Fin 100, bp_unrealized_pnl = Fin 0\<rparr>)]\<rparr>"

lemma demo_broker_ok: "broker_ok demo_broker" "stops_sane (mb_resting demo_broker)"
  by (auto simp: broker_ok_def demo_broker_def record_order_def new_mock_broker_def order_of_def
      dict_ok_def dict_get_def dict_put_def py_eq_def stops_sane_def sane_quantity_def demo_stop_def
      split: if_splits)


text \<open>A price the market never printed moves nothing but the mark: with
  \<open>is_market_print=False\<close> no stop fires, no order, cash or quantity changes.\<close>

theorem seeded_price_moves_nothing:
  "\<exists>mb'. set_quote mb s x bid ask False = Inr mb' \<and> mb_orders mb' = mb_orders mb
     \<and> mb_resting mb' = mb_resting mb \<and> mb_balance mb' = mb_balance mb
     \<and> (\<forall>s'. broker_qty mb' s' = broker_qty mb s')"
  by (simp add: set_quote_def Let_def) (simp add: broker_qty_def)

text \<open>Cancelling never un-fills and always disarms: a settled order is answered with its
  own fill and nothing changes; any other order becomes \<open>CANCELLED\<close> and no later print,
  however far through its trigger, fills it.\<close>

theorem cancelled_stop_never_fires:
  assumes "broker_ok mb" and "stops_sane (mb_resting mb)"
    and "dict_get (mb_orders mb) bid = Some bo"
  shows "if bo_status bo \<in> {FILLED, CANCELLED, REJECTED}
     then cancel_order mb bid = Inr (result_of bid bo, mb)
     else \<exists>res mb' mb''. cancel_order mb bid = Inr (res, mb') \<and> rs_status res = CANCELLED
       \<and> set_quote mb' s x qbid qask True = Inr mb''
       \<and> dict_get (mb_orders mb'') bid = Some (bo\<lparr>bo_status := CANCELLED\<rparr>)"
proof (cases "bo_status bo \<in> {FILLED, CANCELLED, REJECTED}")
  case True
  with assms(3) show ?thesis by (simp add: cancel_order_def)
next
  case False
  let ?mb' = "(record_order mb bid (bo\<lparr>bo_status := CANCELLED\<rparr>))
                \<lparr>mb_resting := dict_pop bid (mb_resting mb)\<rparr>"
  have ok: "broker_ok ?mb'"
    using assms(1) resting_ok_fire by (simp add: broker_ok_split record_order_def)
  have "set (dict_pop bid (mb_resting mb)) \<subseteq> set (mb_resting mb)"
    by (auto simp: dict_pop_def AList.delete_eq)
  then have sane: "stops_sane (mb_resting ?mb')"
    using assms(2) by (auto simp: stops_sane_def)
  have cancel: "\<exists>res. cancel_order mb bid = Inr (res, ?mb') \<and> rs_status res = CANCELLED"
    using False assms(3) by (simp add: cancel_order_def)
  obtain mb'' where mb'': "set_quote ?mb' s x qbid qask True = Inr mb''"
    "dict_get (mb_orders mb'') bid
       = fired_order s x (mb_resting ?mb') bid (dict_get (mb_orders ?mb') bid)"
    using set_quote_print [OF ok sane, of s x qbid qask] by blast
  have "dict_get (mb_orders mb'') bid = Some (bo\<lparr>bo_status := CANCELLED\<rparr>)"
    using mb''(2) by (simp add: fired_order_def record_order_def)
  with False cancel mb''(1) show ?thesis by auto
qed

lemma cancelled_stop_never_fires_witness:
  "\<exists>res mb' mb''. cancel_order demo_broker ''b1'' = Inr (res, mb') \<and> rs_status res = CANCELLED
     \<and> set_quote mb' ''INFY'' (Fin 50) None None True = Inr mb''"
proof -
  have bo: "dict_get (mb_orders demo_broker) ''b1'' = Some (order_of ''b1'' demo_stop ACKNOWLEDGED)"
    by (simp add: demo_broker_def record_order_def new_mock_broker_def)
  show ?thesis
    using cancelled_stop_never_fires [OF demo_broker_ok bo, of "''INFY''" "Fin 50" None None]
    by (auto simp: order_of_def)
qed

end
