(* ===== verification/Execution.thy ===== *)
theory Execution
  imports OrderManager PositionManager MockBroker
begin

text \<open>
  The execution engine (\<open>trading/execution.py\<close>): \<open>submit\<close> drives a risk-approved order
  through a broker, then through the order state machine and into the position book. The
  broker is the argument \<open>place\<close>; an exception of any step leaves the state as it was when
  the step was reached, so an outcome is the state and, if one was raised, the exception.
\<close>

subsection \<open>State\<close>

record 'b engine =
  ex_broker :: 'b
  ex_orders :: order_manager
  ex_positions :: position_book

type_synonym 'b outcome = "'b engine \<times> py_error option"

type_synonym 'b place_order = "'b \<Rightarrow> order_request \<Rightarrow> py_error + order_result \<times> 'b"

subsection \<open>Submitting an order\<close>

definition request_of :: "order \<Rightarrow> order_request" where
  "request_of ord =
     \<lparr>rq_idempotency_key = o_idempotency_key ord, rq_symbol = o_symbol ord,
      rq_direction = o_direction ord, rq_order_type = o_order_type ord,
      rq_quantity = o_quantity ord, rq_price = o_price ord, rq_trigger_price = None\<rparr>"

lemma request_of_simps [simp]:
  "rq_symbol (request_of ord) = o_symbol ord" "rq_direction (request_of ord) = o_direction ord"
  "rq_quantity (request_of ord) = o_quantity ord" "rq_trigger_price (request_of ord) = None"
  "rq_order_type (request_of ord) = o_order_type ord"
  by (simp_all add: request_of_def)

text \<open>\<open>reason or fallback\<close>: an absent or empty reason gives the fallback.\<close>

definition or_default :: "string option \<Rightarrow> string \<Rightarrow> string" where
  "or_default reason fallback =
     (case reason of None \<Rightarrow> fallback | Some r \<Rightarrow> if r = [] then fallback else r)"

definition move_to ::
  "'b engine \<Rightarrow> uuid \<Rightarrow> order_status \<Rightarrow> string \<Rightarrow> ('b engine \<Rightarrow> 'b outcome) \<Rightarrow> 'b outcome" where
  "move_to st oid status detail continue =
     (case transition (ex_orders st) oid status detail of
        Inl e \<Rightarrow> (st, Some e)
      | Inr om \<Rightarrow> continue (st\<lparr>ex_orders := om\<rparr>))"

definition returned :: "'b engine \<Rightarrow> 'b outcome" where
  "returned st = (st, None)"

text \<open>A fill with no price makes \<open>apply_fill\<close> raise after it created the position.\<close>

definition book_fill ::
  "'b engine \<Rightarrow> order \<Rightarrow> pyfloat \<Rightarrow> pyfloat option \<Rightarrow> ('b engine \<Rightarrow> 'b outcome) \<Rightarrow> 'b outcome" where
  "book_fill st ord quantity price continue =
     (case price of
        Some p \<Rightarrow>
          continue (st\<lparr>ex_positions := apply_fill (ex_positions st) (o_account_id ord) (o_symbol ord)
                         (o_direction ord) quantity p\<rparr>)
      | None \<Rightarrow>
          (st\<lparr>ex_positions :=
                (case get_position (ex_positions st) (o_account_id ord) (o_symbol ord) of
                   None \<Rightarrow> dict_put (o_account_id ord, o_symbol ord)
                             (new_position (o_account_id ord) (o_symbol ord)) (ex_positions st)
                 | Some _ \<Rightarrow> ex_positions st)\<rparr>, Some TypeError))"

text \<open>What \<open>submit\<close> does with the broker's answer.\<close>

definition settle_answer :: "'b engine \<Rightarrow> order \<Rightarrow> uuid \<Rightarrow> order_result \<Rightarrow> 'b outcome" where
  "settle_answer st ord oid res =
     (if rs_status res = REJECTED then
        move_to st oid REJECTED (or_default (rs_rejection_reason res) ''rejected by broker'') returned
      else if rs_status res = FAILED then
        move_to st oid FAILED (or_default (rs_rejection_reason res) ''broker did not answer'') returned
      else
        move_to st oid ACKNOWLEDGED ''broker acknowledged''
          (\<lambda>st. if Fin 0 < rs_filled_quantity res then
             (let st' = st\<lparr>ex_orders := set_order (ex_orders st) oid
                             (\<lambda>x. x\<lparr>o_filled_quantity := rs_filled_quantity res,
                                    o_average_fill_price := rs_average_fill_price res\<rparr>)\<rparr>;
                  next_status = (if o_quantity ord \<le> rs_filled_quantity res then FILLED
                                 else PARTIALLY_FILLED)
              in move_to st' oid next_status ''filled by broker''
                   (\<lambda>st. book_fill st ord (rs_filled_quantity res) (rs_average_fill_price res)
                      (\<lambda>st. if next_status = FILLED
                         then move_to st oid MONITORING ''position open'' returned
                         else returned st)))
           else returned st))"

definition submit :: "'b place_order \<Rightarrow> 'b engine \<Rightarrow> uuid \<Rightarrow> 'b outcome" where
  "submit place st oid =
     (case get_order (ex_orders st) oid of
        None \<Rightarrow> (st, Some KeyError)
      | Some ord \<Rightarrow>
          if o_status ord \<noteq> RISK_APPROVED
          then (st, Some (ValueError ''Order must be RISK_APPROVED before submission''))
          else move_to st oid SUBMITTED ''sent to broker''
            (\<lambda>st. case place (ex_broker st) (request_of ord) of
               Inl e \<Rightarrow> (st, Some e)
             | Inr (res, broker) \<Rightarrow>
                 settle_answer
                   (st\<lparr>ex_broker := broker,
                       ex_orders := set_order (ex_orders st) oid
                         (\<lambda>x. x\<lparr>o_broker_order_id := Some (rs_broker_order_id res)\<rparr>)\<rparr>)
                   ord oid res))"

subsection \<open>The book stays reachable\<close>

text \<open>Whatever the broker does, \<open>submit\<close> only takes steps of the order state machine.\<close>

definition om_evolves :: "order_manager \<Rightarrow> order_manager \<Rightarrow> bool" where
  "om_evolves om om' \<longleftrightarrow> om_step\<^sup>*\<^sup>* om om'"

lemma om_evolves_refl [simp]: "om_evolves om om"
  by (simp add: om_evolves_def)

lemma om_evolves_trans: "om_evolves a b \<Longrightarrow> om_evolves b c \<Longrightarrow> om_evolves a c"
  unfolding om_evolves_def by (rule rtranclp_trans)

lemma om_evolves_step: "om_step a b \<Longrightarrow> om_evolves b c \<Longrightarrow> om_evolves a c"
  unfolding om_evolves_def by (rule converse_rtranclp_into_rtranclp)

lemma om_evolves_set: "keeps_identity f \<Longrightarrow> om_evolves om (set_order om i f)"
  by (rule om_evolves_step [OF om_step.assign om_evolves_refl])

lemma om_evolves_reachable: "om_reachable om \<Longrightarrow> om_evolves om om' \<Longrightarrow> om_reachable om'"
  unfolding om_evolves_def by (rotate_tac, induction rule: rtranclp_induct) (auto intro: om_reachable.step)

lemma om_evolves_terms:
  assumes "om_evolves om om'" and "get_order om i = Some ord"
  shows "\<exists>ord'. get_order om' i = Some ord' \<and> order_terms ord' = order_terms ord"
  using assms unfolding om_evolves_def
  by (induction rule: rtranclp_induct) (auto dest: om_step_terms)

lemma move_to_evolves:
  assumes "\<And>st'. om_evolves (ex_orders st') (ex_orders (fst (k st')))"
  shows "om_evolves (ex_orders st) (ex_orders (fst (move_to st oid s d k)))"
proof (cases "transition (ex_orders st) oid s d")
  case (Inr om)
  have "om_evolves om (ex_orders (fst (k (st\<lparr>ex_orders := om\<rparr>))))"
    using assms [of "st\<lparr>ex_orders := om\<rparr>"] by simp
  with Inr om_evolves_step [OF om_step.move [OF Inr]] show ?thesis by (simp add: move_to_def)
qed (simp add: move_to_def)

lemma returned_evolves [simp]: "om_evolves (ex_orders st) (ex_orders (fst (returned st)))"
  by (simp add: returned_def)

lemma book_fill_evolves:
  assumes "\<And>st'. om_evolves (ex_orders st') (ex_orders (fst (k st')))"
  shows "om_evolves (ex_orders st) (ex_orders (fst (book_fill st ord q p k)))"
proof (cases p)
  case (Some x)
  then show ?thesis
    using assms [of "st\<lparr>ex_positions := apply_fill (ex_positions st) (o_account_id ord)
                     (o_symbol ord) (o_direction ord) q x\<rparr>"]
    by (simp add: book_fill_def)
qed (simp add: book_fill_def)

lemma set_then_move_evolves:
  assumes "keeps_identity f" and "\<And>st'. om_evolves (ex_orders st') (ex_orders (fst (k st')))"
  shows "om_evolves (ex_orders st)
     (ex_orders (fst (move_to (st\<lparr>ex_orders := set_order (ex_orders st) oid f\<rparr>) oid s d k)))"
proof (rule om_evolves_trans)
  show "om_evolves (ex_orders st) (ex_orders (st\<lparr>ex_orders := set_order (ex_orders st) oid f\<rparr>))"
    using om_evolves_set [OF assms(1)] by simp
qed (rule move_to_evolves [OF assms(2)])

lemma settle_answer_evolves:
  "om_evolves (ex_orders st) (ex_orders (fst (settle_answer st ord oid res)))"
  unfolding settle_answer_def Let_def
  by (auto intro!: move_to_evolves set_then_move_evolves book_fill_evolves simp: keeps_identity_def order_terms_def)

lemma submit_evolves:
  "om_evolves (ex_orders st) (ex_orders (fst (submit place st oid)))"
proof (cases "get_order (ex_orders st) oid")
  case None
  then show ?thesis by (simp add: submit_def)
next
  case (Some ord)
  have "om_evolves (ex_orders st') (ex_orders (fst (settle_answer
      (st'\<lparr>ex_broker := b, ex_orders := set_order (ex_orders st') oid
         (\<lambda>x. x\<lparr>o_broker_order_id := Some i\<rparr>)\<rparr>) ord oid res)))" for st' :: "'a engine" and b i res
  proof (rule om_evolves_trans [OF _ settle_answer_evolves])
    show "om_evolves (ex_orders st') (ex_orders (st'\<lparr>ex_broker := b,
        ex_orders := set_order (ex_orders st') oid (\<lambda>x. x\<lparr>o_broker_order_id := Some i\<rparr>)\<rparr>))"
      using om_evolves_set [of "\<lambda>x. x\<lparr>o_broker_order_id := Some i\<rparr>"] by (simp add: keeps_identity_def order_terms_def)
  qed
  with Some show ?thesis
    by (auto simp: submit_def intro!: move_to_evolves split: sum.split)
qed

subsection \<open>What submit does with an answer\<close>

definition put_order :: "order_manager \<Rightarrow> uuid \<Rightarrow> order \<Rightarrow> order_manager" where
  "put_order om i ord = om\<lparr>om_orders := dict_put i ord (om_orders om)\<rparr>"

lemma put_order_get [simp]:
  "get_order (put_order om i ord) j = (if j = i then Some ord else get_order om j)"
  by (simp add: put_order_def get_order_def)

lemma move_to_ok:
  "get_order (ex_orders st) oid = Some ord \<Longrightarrow> s \<in> allowed_transitions (o_status ord) \<Longrightarrow>
     move_to st oid s d k = k (st\<lparr>ex_orders := put_order (ex_orders st) oid (move_order ord s d)\<rparr>)"
  by (simp add: move_to_def transition_def get_order_def put_order_def)

lemma set_order_put:
  "get_order om oid = Some ord \<Longrightarrow> set_order om oid f = put_order om oid (f ord)"
  by (simp add: set_order_def get_order_def put_order_def)

definition unfilled :: "order_result \<Rightarrow> bool" where
  "unfilled res \<longleftrightarrow> rs_status res \<in> {REJECTED, FAILED} \<or> \<not> Fin 0 < rs_filled_quantity res"

definition final_status :: "order \<Rightarrow> order_result \<Rightarrow> order_status" where
  "final_status ord res =
     (if rs_status res \<in> {REJECTED, FAILED} then rs_status res
      else if \<not> Fin 0 < rs_filled_quantity res then ACKNOWLEDGED
      else if o_quantity ord \<le> rs_filled_quantity res then MONITORING else PARTIALLY_FILLED)"

definition positions_after :: "position_book \<Rightarrow> order \<Rightarrow> order_result \<Rightarrow> position_book" where
  "positions_after book ord res =
     (if unfilled res then book
      else apply_fill book (o_account_id ord) (o_symbol ord) (o_direction ord)
             (rs_filled_quantity res) (the (rs_average_fill_price res)))"

lemmas exec_simps = move_to_ok set_order_put returned_def book_fill_def unfilled_def
  final_status_def positions_after_def Let_def

lemma settle_answer_spec:
  assumes ord: "get_order (ex_orders st) oid = Some o'" "o_status o' = SUBMITTED"
    and same: "o_quantity o' = o_quantity ord" "o_filled_quantity o' = Fin 0"
    and res: "answer_ok res"
  shows "\<exists>st' ord'. settle_answer st ord oid res = (st', None) \<and> ex_broker st' = ex_broker st
     \<and> ex_positions st' = positions_after (ex_positions st) ord res
     \<and> get_order (ex_orders st') oid = Some ord' \<and> o_status ord' = final_status ord res
     \<and> o_filled_quantity ord' = (if unfilled res then Fin 0 else rs_filled_quantity res)
     \<and> (\<not> unfilled res \<longrightarrow> o_average_fill_price ord' = rs_average_fill_price res)
     \<and> o_broker_order_id ord' = o_broker_order_id o'
     \<and> (\<forall>j. j \<noteq> oid \<longrightarrow> get_order (ex_orders st') j = get_order (ex_orders st) j)"
proof (cases "unfilled res")
  case True
  then show ?thesis using ord same
    by (auto simp: settle_answer_def exec_simps)
next
  case False
  then obtain p where "rs_average_fill_price res = Some p"
    using res by (auto simp: unfilled_def answer_ok_def)
  with False ord same show ?thesis
    by (auto simp: settle_answer_def exec_simps)
qed

lemma submit_answered:
  assumes ord: "get_order (ex_orders st) oid = Some ord" "o_status ord = RISK_APPROVED"
    and unfilled_yet: "o_filled_quantity ord = Fin 0"
    and place: "place (ex_broker st) (request_of ord) = Inr (res, b')" and res: "answer_ok res"
  shows "\<exists>st' ord'. submit place st oid = (st', None) \<and> ex_broker st' = b'
     \<and> ex_positions st' = positions_after (ex_positions st) ord res
     \<and> get_order (ex_orders st') oid = Some ord' \<and> o_status ord' = final_status ord res
     \<and> o_filled_quantity ord' = (if unfilled res then Fin 0 else rs_filled_quantity res)
     \<and> (\<not> unfilled res \<longrightarrow> o_average_fill_price ord' = rs_average_fill_price res)
     \<and> o_broker_order_id ord' = Some (rs_broker_order_id res)
     \<and> (\<forall>j. j \<noteq> oid \<longrightarrow> get_order (ex_orders st') j = get_order (ex_orders st) j)"
proof -
  let ?o = "(move_order ord SUBMITTED ''sent to broker'')
              \<lparr>o_broker_order_id := Some (rs_broker_order_id res)\<rparr>"
  let ?om1 = "put_order (ex_orders st) oid (move_order ord SUBMITTED ''sent to broker'')"
  let ?st = "st\<lparr>ex_broker := b', ex_orders := set_order ?om1 oid
                (\<lambda>x. x\<lparr>o_broker_order_id := Some (rs_broker_order_id res)\<rparr>)\<rparr>"
  have "submit place st oid = settle_answer ?st ord oid res"
    using ord place by (simp add: submit_def move_to_ok)
  moreover have "get_order (ex_orders ?st) oid = Some ?o" "o_status ?o = SUBMITTED"
    "o_quantity ?o = o_quantity ord" "o_filled_quantity ?o = Fin 0"
    using unfilled_yet by (simp_all add: set_order_put)
  moreover have "ex_positions ?st = ex_positions st" "ex_broker ?st = b'"
    "o_broker_order_id ?o = Some (rs_broker_order_id res)"
    "\<forall>j. j \<noteq> oid \<longrightarrow> get_order (ex_orders ?st) j = get_order (ex_orders st) j"
    by (simp_all add: set_order_put)
  ultimately show ?thesis
    using settle_answer_spec [of ?st oid ?o ord res, OF _ _ _ _ res] by metis
qed

text \<open>The same, for any broker that keeps the contract: \<open>submit\<close> always returns.\<close>

context broker_contract
begin

lemma submit_returns:
  assumes "get_order (ex_orders st) oid = Some ord" "o_status ord = RISK_APPROVED"
    and "o_filled_quantity ord = Fin 0" "alive (ex_broker st)" "sane_quantity (o_quantity ord)"
  shows "\<exists>st' ord' res b'. submit place st oid = (st', None) \<and> alive (ex_broker st')
     \<and> place (ex_broker st) (request_of ord) = Inr (res, b') \<and> answer_ok res
     \<and> ex_broker st' = b'
     \<and> ex_positions st' = positions_after (ex_positions st) ord res
     \<and> get_order (ex_orders st') oid = Some ord' \<and> o_status ord' = final_status ord res
     \<and> (\<forall>j. j \<noteq> oid \<longrightarrow> get_order (ex_orders st') j = get_order (ex_orders st) j)"
proof -
  obtain res b' where p: "place (ex_broker st) (request_of ord) = Inr (res, b')"
    using place_answers [OF assms(4), of "request_of ord"] assms(5) by (auto simp: request_of_def)
  then have "answer_ok res" "alive b'"
    using place_answer_ok place_alive assms(4) by blast+
  with submit_answered [OF assms(1-3), of place, OF p] p show ?thesis by blast
qed

end

subsection \<open>The engine over the in-memory broker\<close>

definition local_qty :: "position_book \<Rightarrow> string \<Rightarrow> string \<Rightarrow> pyfloat" where
  "local_qty book account symbol =
     (case get_position book account symbol of None \<Rightarrow> Fin 0 | Some p \<Rightarrow> p_quantity p)"

lemma local_qty_fill:
  "local_qty (apply_fill book a s d q p) a' s' =
     (if a' = a \<and> s' = s then local_qty book a s + signed_quantity d q else local_qty book a' s')"
  by (auto simp: local_qty_def apply_fill_get fill_position_quantity split: option.split)

text \<open>The account's local quantities are the broker's.\<close>

definition in_step :: "string \<Rightarrow> mock_session engine \<Rightarrow> bool" where
  "in_step account st \<longleftrightarrow>
     (\<forall>s. broker_qty (fst (ex_broker st)) s = local_qty (ex_positions st) account s)"

lemma sane_signed: "sane_quantity q \<Longrightarrow> Fin 0 + signed_quantity d q = signed_quantity d q"
  by (cases d) (auto simp: rnd64_minus elim!: sane_quantityE)

lemma sane_pos: "sane_quantity q \<Longrightarrow> Fin 0 < q \<and> q \<le> q"
  by (auto elim!: sane_quantityE)

lemma mock_place_books:
  assumes alive: "mock_alive b" and q: "sane_quantity (rq_quantity rq)" and t: "rq_trigger_price rq = None"
    and place: "mock_place b rq = Inr (res, b')" and ok: "broker_ok (fst b)"
    and fresh: "dict_get (mb_resting (fst b)) (fst (snd b 0)) = None"
  shows "broker_ok (fst b') \<and>
     (rs_status res = REJECTED \<and> mb_positions (fst b') = mb_positions (fst b)
      \<or> rs_status res = FILLED \<and> rs_filled_quantity res = rq_quantity rq
        \<and> (\<forall>s. broker_qty (fst b') s =
             (if s = rq_symbol rq then broker_qty (fst b) s + signed_quantity (rq_direction rq) (rq_quantity rq)
              else broker_qty (fst b) s)))"
proof -
  let ?mb = "fst b" and ?bid = "fst (snd b 0)"
  have rest: "resting_ok (mb_resting (record_order ?mb ?bid bo)) (mb_orders (record_order ?mb ?bid bo))" for bo
    using ok fresh by (auto simp: broker_ok_split resting_ok_def record_order_def)
  have rec: "broker_ok (record_order ?mb ?bid bo)" for bo
    using ok rest [of bo] by (simp add: broker_ok_split record_order_def)
  obtain mb' where mb': "mock_place_order ?mb ?bid (snd (snd b 0)) rq = Inr (res, mb')" "fst b' = mb'"
    using place by (auto simp: mock_place_def bind_res_Inr)
  have "(rs_status res = REJECTED \<and> (\<exists>bo. mb' = record_order ?mb ?bid bo))
     \<or> (\<exists>price. fill_order ?mb ?bid (snd (snd b 0)) rq price = Inr (res, mb'))"
    using mb'(1) t by (auto simp: mock_place_order_def rejection_def split: if_splits option.splits)
  then show ?thesis
  proof (elim disjE exE conjE)
    fix bo
    assume "rs_status res = REJECTED" "mb' = record_order ?mb ?bid bo"
    with rec [of bo] mb'(2) show ?thesis by (simp add: record_order_def)
  next
    fix price
    assume f: "fill_order ?mb ?bid (snd (snd b 0)) rq price = Inr (res, mb')"
    obtain bo where fill: "apply_fill_to_position (record_order ?mb ?bid bo) (rq_symbol rq)
        (rq_direction rq) (rq_quantity rq) price = Inr mb'"
      and res: "rs_status res = FILLED" "rs_filled_quantity res = rq_quantity rq"
      using f alive sane_pos [OF q]
      by (auto simp: fill_order_def Let_def roll_def bind_res_Inr mock_alive_def split: if_splits)
    have "broker_qty (record_order ?mb ?bid bo) s = broker_qty ?mb s" for s
      by (simp add: record_order_def broker_qty_def)
    moreover have "broker_ok mb'"
      using positions_ok_fill [OF _ q fill] apply_fill_to_position_frame [OF fill] rec [of bo]
      by (auto simp: broker_ok_split frame_def)
    ultimately show ?thesis
      using apply_fill_to_position_qty [OF fill sane_signed [OF q]] res mb'(2) by simp
  qed
qed

lemma submit_in_step:
  assumes sync: "in_step (o_account_id ord) st" and ok: "broker_ok (fst (ex_broker st))"
    and ord: "get_order (ex_orders st) oid = Some ord" "o_status ord = RISK_APPROVED"
      "o_filled_quantity ord = Fin 0" "sane_quantity (o_quantity ord)"
    and alive: "mock_alive (ex_broker st)"
    and fresh: "dict_get (mb_resting (fst (ex_broker st))) (fst (snd (ex_broker st) 0)) = None"
  shows "\<exists>st' ord'. submit mock_place st oid = (st', None) \<and> broker_ok (fst (ex_broker st'))
     \<and> in_step (o_account_id ord) st' \<and> mock_alive (ex_broker st')
     \<and> get_order (ex_orders st') oid = Some ord' \<and> o_status ord' \<in> {REJECTED, MONITORING}
     \<and> (book_ok (ex_positions st) \<longrightarrow> book_ok (ex_positions st'))"
proof -
  obtain st' ord' res b' where s: "submit mock_place st oid = (st', None)" "mock_alive (ex_broker st')"
    "mock_place (ex_broker st) (request_of ord) = Inr (res, b')" "answer_ok res" "ex_broker st' = b'"
    "ex_positions st' = positions_after (ex_positions st) ord res"
    "get_order (ex_orders st') oid = Some ord'" "o_status ord' = final_status ord res"
    using mock.submit_returns [OF ord(1-3) alive ord(4)] by blast
  have q: "sane_quantity (rq_quantity (request_of ord))" using ord(4) by simp
  have b: "broker_ok (fst b') \<and>
     (rs_status res = REJECTED \<and> mb_positions (fst b') = mb_positions (fst (ex_broker st))
      \<or> rs_status res = FILLED \<and> rs_filled_quantity res = o_quantity ord
        \<and> (\<forall>s. broker_qty (fst b') s =
             (if s = o_symbol ord then broker_qty (fst (ex_broker st)) s
                + signed_quantity (o_direction ord) (o_quantity ord)
              else broker_qty (fst (ex_broker st)) s)))"
    using mock_place_books [OF alive q _ s(3) ok fresh] by (simp cong: if_cong)
  have "in_step (o_account_id ord) st' \<and> o_status ord' \<in> {REJECTED, MONITORING}"
    using b sync sane_pos [OF ord(4)]
    by (auto simp: in_step_def s(5,6,8) final_status_def positions_after_def unfilled_def
        local_qty_fill broker_qty_def)
  moreover have "book_ok (ex_positions st) \<longrightarrow> book_ok (ex_positions st')"
    by (simp add: s(6) positions_after_def apply_fill_book_ok)
  ultimately show ?thesis using s b by blast
qed

text \<open>A market order on a quoted symbol, with simulated rejections and partial fills off, is filled whole.\<close>

definition market_fill_price :: "mock_broker \<Rightarrow> direction \<Rightarrow> rat \<Rightarrow> pyfloat" where
  "market_fill_price mb d ltp =
     (let slippage = Fin ltp * (mb_slippage_pct mb / Fin 100)
      in if d = LONG then Fin ltp + slippage else Fin ltp - slippage)"

lemma submit_market_fills:
  assumes ord: "get_order (ex_orders st) oid = Some ord" "o_status ord = RISK_APPROVED"
      "o_filled_quantity ord = Fin 0" "sane_quantity (o_quantity ord)" "o_order_type ord = MARKET"
    and alive: "mock_alive (ex_broker st)" "\<not> Fin 0 < mb_reject_probability (fst (ex_broker st))"
    and quoted: "dict_get (mb_quotes (fst (ex_broker st))) (o_symbol ord) = Some qt" "qt_ltp qt = Fin v" "0 < v"
  defines "price \<equiv> market_fill_price (fst (ex_broker st)) (o_direction ord) v"
  shows "\<exists>st' ord'. submit mock_place st oid = (st', None)
     \<and> get_order (ex_orders st') oid = Some ord' \<and> o_status ord' = MONITORING \<and> o_average_fill_price ord' = Some price
     \<and> ex_positions st' = apply_fill (ex_positions st) (o_account_id ord) (o_symbol ord) (o_direction ord)
          (o_quantity ord) price
     \<and> mb_resting (fst (ex_broker st')) = mb_resting (fst (ex_broker st))
     \<and> mb_reject_probability (fst (ex_broker st')) = mb_reject_probability (fst (ex_broker st))"
proof -
  let ?mb = "fst (ex_broker st)" and ?bid = "fst (snd (ex_broker st) 0)" and ?dice = "snd (snd (ex_broker st) 0)"
  have resolved: "resolve_fill_price ?mb (request_of ord) = Some price"
    using quoted ord(5) by (simp add: resolve_fill_price_def price_def market_fill_price_def Let_def truthy_def)
  have q: "sane_quantity (rq_quantity (request_of ord))" "o_quantity ord \<le> o_quantity ord" "Fin 0 < o_quantity ord"
    using ord(4) by (auto elim!: sane_quantityE)
  define bo where "bo = (order_of ?bid (request_of ord) FILLED)
    \<lparr>bo_filled_quantity := o_quantity ord, bo_average_fill_price := Some price\<rparr>"
  obtain mb' where mb': "apply_fill_to_position (record_order ?mb ?bid bo) (o_symbol ord) (o_direction ord) (o_quantity ord) price = Inr mb'"
    using apply_fill_to_position_total [of "o_quantity ord" "record_order ?mb ?bid bo" "o_symbol ord" "o_direction ord" price] ord(4)
    by auto
  let ?res = "\<lparr>rs_broker_order_id = ?bid, rs_status = FILLED, rs_filled_quantity = o_quantity ord,
     rs_average_fill_price = Some price, rs_rejection_reason = None\<rparr>"
  have "mock_place (ex_broker st) (request_of ord) = Inr (?res, mb', \<lambda>n. snd (ex_broker st) (Suc n))"
    using alive ord(5) mb' q
    by (simp add: mock_place_def mock_place_order_def roll_def resolved fill_order_def mock_alive_def Let_def bo_def)
  moreover have "mb_resting mb' = mb_resting ?mb \<and> mb_reject_probability mb' = mb_reject_probability ?mb"
    using apply_fill_to_position_frame [OF mb'] by (simp add: frame_def record_order_def)
  ultimately show ?thesis using submit_answered [OF ord(1-3), of mock_place ?res] q
    by (fastforce simp: answer_ok_def unfilled_def positions_after_def final_status_def)
qed

subsection \<open>A broker that raises\<close>

text \<open>C6: the hazard the broker interface documents: if \<open>place_order\<close> raises, \<open>submit\<close> raises
  too and the order stays \<open>SUBMITTED\<close> for good as far as a client can tell: asking again with
  the same idempotency key returns that order without reaching the broker, and submitting it
  again is refused.\<close>

theorem raising_broker_wedges_order:
  assumes "om_reachable (ex_orders st)" and "get_order (ex_orders st) oid = Some ord"
    and "o_status ord = RISK_APPROVED" and "place (ex_broker st) (request_of ord) = Inl e"
  shows "\<exists>st' ord'. submit place st oid = (st', Some e)
     \<and> get_order (ex_orders st') oid = Some ord' \<and> o_status ord' = SUBMITTED
     \<and> ex_positions st' = ex_positions st
     \<and> create_order (ex_orders st') nid (o_idempotency_key ord) account symbol dir ty q p
         = Inr (ord', False, ex_orders st')
     \<and> (\<exists>refusal. submit other_place st' oid = (st', Some (ValueError refusal)))"
proof -
  let ?o = "move_order ord SUBMITTED ''sent to broker''"
  let ?st = "st\<lparr>ex_orders := put_order (ex_orders st) oid ?o\<rparr>"
  have run: "submit place st oid = (?st, Some e)"
    using assms(2-4) by (simp add: submit_def move_to_ok)
  have wf: "om_wf (ex_orders ?st)"
    using om_reachable_wf [OF om_evolves_reachable [OF assms(1) submit_evolves [of st place oid]]]
    unfolding run by simp
  have o': "get_order (ex_orders ?st) oid = Some ?o" by simp
  have "dict_get (om_by_key (ex_orders ?st)) (o_idempotency_key ord) = Some oid"
    using om_wf_indexed [OF wf o'] by simp
  then have "create_order (ex_orders ?st) nid (o_idempotency_key ord) account symbol dir ty q p
      = Inr (?o, False, ex_orders ?st)"
    using o' by (simp add: create_order_def get_order_def)
  moreover have "submit other_place ?st oid
      = (?st, Some (ValueError ''Order must be RISK_APPROVED before submission''))"
    using o' by (simp add: submit_def)
  ultimately show ?thesis using run o' by (intro exI [of _ ?st] exI [of _ ?o]) auto
qed

definition approved_book :: "py_error + order_manager" where
  "approved_book = bind_res (transition sample_book 7 VALIDATING ''validating'')
     (\<lambda>om. transition om 7 RISK_APPROVED ''approved'')"

lemma raising_broker_wedges_order_witness:
  "\<exists>om st' ord'. approved_book = Inr om
     \<and> submit (\<lambda>b r. Inl (BrokerError ''timeout'')) \<lparr>ex_broker = (), ex_orders = om, ex_positions = []\<rparr> 7
         = (st', Some (BrokerError ''timeout''))
     \<and> get_order (ex_orders st') 7 = Some ord' \<and> o_status ord' = SUBMITTED"
proof -
  obtain om1 om where om1: "transition sample_book 7 VALIDATING ''validating'' = Inr om1"
    and om: "transition om1 7 RISK_APPROVED ''approved'' = Inr om"
    by (simp add: transition_def sample_book_get [unfolded get_order_def] sample_order_def move_order_def)
  have "om_reachable om"
    using sample_book_reachable om1 om by (metis om_reachable.step om_step.move)
  moreover obtain ord where "get_order om 7 = Some ord" "o_status ord = RISK_APPROVED"
    using transition_get [OF om, of 7] transition_get [OF om1, of 7] sample_book_get by auto
  ultimately show ?thesis
    using raising_broker_wedges_order [where st = "\<lparr>ex_broker = (), ex_orders = om, ex_positions = []\<rparr>"
        and place = "\<lambda>b r. Inl (BrokerError ''timeout'')" and oid = 7 and ord = ord
        and e = "BrokerError ''timeout''" and nid = 0 and account = "''a''" and symbol = "''s''"
        and dir = LONG and ty = MARKET and q = "Fin 0" and p = None
        and other_place = "\<lambda>b r. Inl KeyError"] om1 om
    by (simp add: approved_book_def) blast
qed

end
