(* ===== verification/Reconciliation.thy ===== *)
theory Reconciliation
  imports Execution
begin

text \<open>
  Reconciliation of local state against the broker's (\<open>trading/reconciliation.py\<close>) and the
  pass that halts an account on a mismatch (\<open>workers/reconciliation_worker.py\<close>,
  \<open>core/redis.py\<close> halts). A mismatch line is a constructor with the values the code prints
  into it; the join of the lines is the list. Audit rows and notifications are counted as
  alerts.
\<close>

subsection \<open>Comparing orders and positions\<close>

datatype mismatch =
    Never_submitted uuid order_status
  | Not_at_broker uuid string
  | Status_mismatch uuid string order_status order_status
  | Filled_mismatch uuid string pyfloat pyfloat
  | Unknown_at_broker string string
  | Open_locally_only string pyfloat
  | Quantity_mismatch string pyfloat pyfloat
  | Open_at_broker_only string pyfloat

record report =
  rp_order_mismatches :: "mismatch list"
  rp_position_mismatches :: "mismatch list"

definition in_sync :: "report \<Rightarrow> bool" where
  "in_sync r \<longleftrightarrow> rp_order_mismatches r = [] \<and> rp_position_mismatches r = []"

definition tolerance :: pyfloat where
  "tolerance = rnd64 (1 / 10 ^ 9)"

definition open_order_statuses :: "order_status set" where
  "open_order_statuses = {SUBMITTED, ACKNOWLEDGED, PARTIALLY_FILLED}"

text \<open>One turn of the loop over the local orders.\<close>

definition check_order :: "(string, broker_order) dict \<Rightarrow> order \<Rightarrow> mismatch list" where
  "check_order broker_by_id local =
     (if o_status local \<notin> open_order_statuses then []
      else case o_broker_order_id local of
             None \<Rightarrow> [Never_submitted (o_id local) (o_status local)]
           | Some bid \<Rightarrow>
               (case dict_get broker_by_id bid of
                  None \<Rightarrow> [Not_at_broker (o_id local) bid]
                | Some bo \<Rightarrow>
                    if bo_status bo \<noteq> o_status local
                    then [Status_mismatch (o_id local) bid (o_status local) (bo_status bo)]
                    else if tolerance < \<bar>bo_filled_quantity bo - o_filled_quantity local\<bar>
                    then [Filled_mismatch (o_id local) bid (o_filled_quantity local) (bo_filled_quantity bo)]
                    else []))"

text \<open>\<open>{o.broker_order_id for o in local_orders if o.broker_order_id} | protective_order_ids\<close>\<close>

definition known_ids :: "order list \<Rightarrow> string list \<Rightarrow> string set" where
  "known_ids local_orders protective_ids =
     {bid. \<exists>ord \<in> set local_orders. o_broker_order_id ord = Some bid \<and> bid \<noteq> []} \<union> set protective_ids"

definition is_known :: "order list \<Rightarrow> string list \<Rightarrow> string \<Rightarrow> bool" where
  "is_known local_orders protective_ids bid \<longleftrightarrow>
     (\<exists>ord \<in> set local_orders. o_broker_order_id ord = Some bid \<and> bid \<noteq> []) \<or> bid \<in> set protective_ids"

definition reconcile_orders :: "order list \<Rightarrow> broker_order list \<Rightarrow> string list \<Rightarrow> mismatch list" where
  "reconcile_orders local_orders broker_orders protective_ids =
     (let broker_by_id = dict_of bo_broker_order_id (\<lambda>bo. bo) broker_orders
      in concat (map (check_order broker_by_id) local_orders)
         @ map (\<lambda>bo. Unknown_at_broker (bo_broker_order_id bo) (bo_symbol bo))
             (filter (\<lambda>bo. \<not> is_known local_orders protective_ids (bo_broker_order_id bo)
                \<and> bo_status bo \<in> {SUBMITTED, ACKNOWLEDGED, PARTIALLY_FILLED, FILLED}) broker_orders))"

definition check_position :: "(string, broker_position) dict \<Rightarrow> string \<times> position \<Rightarrow> mismatch list" where
  "check_position broker_by_symbol sp =
     (case dict_get broker_by_symbol (fst sp) of
        None \<Rightarrow> [Open_locally_only (fst sp) (p_quantity (snd sp))]
      | Some bp \<Rightarrow>
          if tolerance < \<bar>bp_quantity bp - p_quantity (snd sp)\<bar>
          then [Quantity_mismatch (fst sp) (p_quantity (snd sp)) (bp_quantity bp)] else [])"

definition reconcile_positions :: "position list \<Rightarrow> broker_position list \<Rightarrow> mismatch list" where
  "reconcile_positions local_positions broker_positions =
     (let broker_by_symbol = dict_of bp_symbol (\<lambda>p. p) broker_positions;
          local_by_symbol = dict_of p_symbol (\<lambda>p. p) (filter is_open local_positions)
      in concat (map (check_position broker_by_symbol) local_by_symbol)
         @ map (\<lambda>sp. Open_at_broker_only (fst sp) (bp_quantity (snd sp)))
             (filter (\<lambda>sp. dict_get local_by_symbol (fst sp) = None
                \<and> \<not> py_eq (bp_quantity (snd sp)) (Fin 0)) broker_by_symbol))"

text \<open>\<open>frozenset(position.protective_order_id for position in ... if ...)\<close>: an empty id is falsy.\<close>

definition protective_ids_of :: "position list \<Rightarrow> string list" where
  "protective_ids_of ps =
     filter (\<lambda>bid. bid \<noteq> []) (List.map_filter p_protective_order_id ps)"

definition reconcile :: "order list \<Rightarrow> broker_order list \<Rightarrow> position list \<Rightarrow> broker_position list \<Rightarrow> report" where
  "reconcile local_orders broker_orders local_positions broker_positions =
     \<lparr>rp_order_mismatches =
        reconcile_orders local_orders broker_orders (protective_ids_of local_positions),
      rp_position_mismatches = reconcile_positions local_positions broker_positions\<rparr>"

subsection \<open>The worker's pass\<close>

datatype halt_reason =
    Broker_unreachable string
  | Mismatch_found "mismatch list"

record worker_state =
  wk_halts :: "(string, halt_reason) dict"
  wk_alerts :: "(string \<times> halt_reason) list"

definition halt_account :: "string \<Rightarrow> halt_reason \<Rightarrow> worker_state \<Rightarrow> worker_state" where
  "halt_account account reason ws = ws\<lparr>wk_halts := dict_put account reason (wk_halts ws)\<rparr>"

definition resume_account :: "string \<Rightarrow> worker_state \<Rightarrow> worker_state" where
  "resume_account account ws = ws\<lparr>wk_halts := dict_pop account (wk_halts ws)\<rparr>"

definition account_halt_reason :: "string \<Rightarrow> worker_state \<Rightarrow> halt_reason option" where
  "account_halt_reason account ws = dict_get (wk_halts ws) account"

text \<open>Halt, and alert only when the account was not halted already.\<close>

definition raise_halt :: "string \<Rightarrow> halt_reason \<Rightarrow> worker_state \<Rightarrow> worker_state" where
  "raise_halt account reason ws =
     (let already_halted = account_halt_reason account ws \<noteq> None;
          ws' = halt_account account reason ws
      in if \<not> already_halted then ws'\<lparr>wk_alerts := wk_alerts ws' @ [(account, reason)]\<rparr> else ws')"

text \<open>
  One pass. The broker's two listings are an argument: \<open>Inl\<close> for the exceptions the pass
  catches, with their text. \<open>None\<close> is the report of an unreachable broker.
\<close>

definition run_once ::
  "string \<Rightarrow> string + broker_order list \<times> broker_position list \<Rightarrow> order_manager \<Rightarrow> position_book
   \<Rightarrow> worker_state \<Rightarrow> report option \<times> worker_state" where
  "run_once account answer om book ws =
     (case answer of
        Inl exc \<Rightarrow> (None, raise_halt account (Broker_unreachable exc) ws)
      | Inr (broker_orders, broker_positions) \<Rightarrow>
          let rep = reconcile (list_all_orders om (Some account)) broker_orders
                      (open_positions book account) broker_positions
          in if \<not> in_sync rep
             then (Some rep, raise_halt account
                     (Mismatch_found (rp_order_mismatches rep @ rp_position_mismatches rep)) ws)
             else (Some rep, ws))"

subsection \<open>Lemmas\<close>

lemma is_known_iff: "is_known ords ids bid \<longleftrightarrow> bid \<in> known_ids ords ids"
  by (auto simp: is_known_def known_ids_def)

lemma protective_ids_iff:
  "bid \<in> set (protective_ids_of ps) \<longleftrightarrow> bid \<noteq> [] \<and> (\<exists>p \<in> set ps. p_protective_order_id p = Some bid)"
  by (auto simp: protective_ids_of_def List.map_filter_def intro!: rev_image_eqI)

lemma self_diff_tolerated: "\<not> tolerance < \<bar>x - x\<bar>"
proof -
  have "Fin 0 \<le> tolerance" by (simp add: tolerance_def rnd64_nonneg)
  then show ?thesis
    by (cases x) (auto simp: minus_pyfloat_def plus_pyfloat_def dest: fle_flt_trans)
qed

lemma dict_of_self:
  assumes "distinct (map key xs)" and "x \<in> set xs"
  shows "dict_get (dict_of key (\<lambda>x. x) xs) (key x) = Some x"
  using dict_of_get_distinct [OF assms, of "\<lambda>x. x"] by simp

lemma reconcile_positions_clean:
  assumes "\<And>p. p \<in> set ps \<Longrightarrow> is_open p \<Longrightarrow>
      \<exists>bp. dict_get (dict_of bp_symbol (\<lambda>p. p) bps) (p_symbol p) = Some bp \<and> bp_quantity bp = p_quantity p"
    and "\<And>bp. bp \<in> set bps \<Longrightarrow> \<not> py_eq (bp_quantity bp) (Fin 0) \<Longrightarrow>
      \<exists>p \<in> set ps. is_open p \<and> p_symbol p = bp_symbol bp"
  shows "reconcile_positions ps bps = []"
proof -
  let ?B = "dict_of bp_symbol (\<lambda>p. p) bps" and ?L = "dict_of p_symbol (\<lambda>p. p) (filter is_open ps)"
  have "check_position ?B sp = []" if "sp \<in> set ?L" for sp
  proof -
    obtain s p where sp: "sp = (s, p)" by force
    then have "dict_get ?L s = Some p" using that dict_items_get [OF dict_ok_of] by metis
    then have "p \<in> set ps" "is_open p" "p_symbol p = s" using dict_of_get_SomeD by fastforce+
    with assms(1) [of p] self_diff_tolerated sp show ?thesis by (auto simp: check_position_def)
  qed
  moreover have "\<not> (dict_get ?L (fst sp) = None \<and> \<not> py_eq (bp_quantity (snd sp)) (Fin 0))"
    if "sp \<in> set ?B" for sp
  proof -
    obtain s bp where sp: "sp = (s, bp)" by force
    then have "dict_get ?B s = Some bp" using that dict_items_get [OF dict_ok_of] by metis
    then have bp: "bp \<in> set bps" "bp_symbol bp = s" using dict_of_get_SomeD by fastforce+
    show ?thesis
    proof
      assume a: "dict_get ?L (fst sp) = None \<and> \<not> py_eq (bp_quantity (snd sp)) (Fin 0)"
      then obtain p where p: "p \<in> set ps" "is_open p" "p_symbol p = s"
        using assms(2) [OF bp(1)] sp bp(2) by auto
      then have "\<exists>v. dict_get ?L (p_symbol p) = Some v"
        by (intro dict_of_get_present) simp
      with a sp p show False by simp
    qed
  qed
  ultimately show ?thesis
    by (auto simp: reconcile_positions_def Let_def filter_empty_conv)
qed

lemma open_position_get:
  "book_ok book \<Longrightarrow> p \<in> set (open_positions book a) \<longleftrightarrow>
     get_position book a (p_symbol p) = Some p \<and> is_open p"
  using open_positions_iff [of book p a] by (auto simp: book_ok_def get_position_def)

lemma broker_position_in:
  assumes "broker_ok mb"
  shows "bp \<in> set (get_positions mb) \<longleftrightarrow> dict_get (mb_positions mb) (bp_symbol bp) = Some bp"
  using assms dict_values_get [of "mb_positions mb" bp]
  by (auto simp: get_positions_def broker_ok_def)

lemma broker_positions_by_symbol:
  assumes "broker_ok mb"
  shows "dict_get (dict_of bp_symbol (\<lambda>p. p) (get_positions mb)) s = dict_get (mb_positions mb) s"
proof -
  have ok: "dict_ok (mb_positions mb)" using broker_okD(3) [OF assms] .
  have "map bp_symbol (get_positions mb) = map fst (mb_positions mb)"
    using assms dict_items_get [OF ok]
    by (auto simp: get_positions_def dict_values_def broker_ok_def)
  then have d: "distinct (map bp_symbol (get_positions mb))" using ok by (simp add: dict_ok_def)
  show ?thesis
  proof (cases "dict_get (mb_positions mb) s")
    case (Some bp)
    then have "bp_symbol bp = s" using broker_okD(4) [OF assms] by blast
    with Some broker_position_in [OF assms] dict_of_self [OF d, of bp] show ?thesis by simp
  next
    case None
    then show ?thesis
      using broker_position_in [OF assms] dict_of_get_SomeD [of bp_symbol "\<lambda>p. p" "get_positions mb" s]
      by (cases "dict_get (dict_of bp_symbol (\<lambda>p. p) (get_positions mb)) s") auto
  qed
qed

lemma in_step_reconciles:
  assumes sync: "in_step a st" and ok: "broker_ok (fst (ex_broker st))" and book: "book_ok (ex_positions st)"
  shows "reconcile_positions (open_positions (ex_positions st) a) (get_positions (fst (ex_broker st))) = []"
proof (rule reconcile_positions_clean)
  fix p
  assume "p \<in> set (open_positions (ex_positions st) a)" "is_open p"
  then have p: "local_qty (ex_positions st) a (p_symbol p) = p_quantity p"
    using open_position_get [OF book] by (simp add: local_qty_def)
  then have "broker_qty (fst (ex_broker st)) (p_symbol p) = p_quantity p"
    using sync by (simp add: in_step_def)
  with \<open>is_open p\<close> show "\<exists>bp. dict_get (dict_of bp_symbol (\<lambda>p. p) (get_positions (fst (ex_broker st))))
      (p_symbol p) = Some bp \<and> bp_quantity bp = p_quantity p"
    by (auto simp: broker_positions_by_symbol [OF ok] broker_qty_def is_open_def py_eq_def
        split: option.splits)
next
  fix bp
  assume "bp \<in> set (get_positions (fst (ex_broker st)))" "\<not> py_eq (bp_quantity bp) (Fin 0)"
  then have bp: "broker_qty (fst (ex_broker st)) (bp_symbol bp) = bp_quantity bp" "bp_quantity bp \<noteq> Fin 0"
    using broker_position_in [OF ok] by (auto simp: broker_qty_def py_eq_0_iff)
  then have "local_qty (ex_positions st) a (bp_symbol bp) = bp_quantity bp"
    using sync by (simp add: in_step_def)
  then obtain p where p: "get_position (ex_positions st) a (bp_symbol bp) = Some p" "p_quantity p = bp_quantity bp"
    using bp(2) by (auto simp: local_qty_def split: option.splits)
  moreover have "p_symbol p = bp_symbol bp" using book p(1) by (auto simp: book_ok_def get_position_def)
  ultimately show "\<exists>p \<in> set (open_positions (ex_positions st) a). is_open p \<and> p_symbol p = bp_symbol bp"
    using bp(2) by (intro bexI [of _ p]) (auto simp: open_position_get [OF book] is_open_def py_eq_0_iff)
qed

subsection \<open>Properties\<close>

text \<open>C5: an approved order submitted to the simulated broker is settled in the same call,
  filled and monitored or rejected, and leaves the local positions and the broker's in step:
  quantities agree on every symbol and reconciling the positions finds nothing.\<close>

theorem submit_keeps_books_in_step:
  assumes "in_step (o_account_id ord) st" and "broker_ok (fst (ex_broker st))"
    and "book_ok (ex_positions st)" and "mock_alive (ex_broker st)"
    and "get_order (ex_orders st) oid = Some ord" and "o_status ord = RISK_APPROVED"
    and "o_filled_quantity ord = Fin 0" and "sane_quantity (o_quantity ord)"
    and "dict_get (mb_resting (fst (ex_broker st))) (fst (snd (ex_broker st) 0)) = None"
  shows "\<exists>st' ord'. submit mock_place st oid = (st', None)
     \<and> get_order (ex_orders st') oid = Some ord' \<and> o_status ord' \<in> {REJECTED, MONITORING}
     \<and> in_step (o_account_id ord) st'
     \<and> reconcile_positions (open_positions (ex_positions st') (o_account_id ord))
          (get_positions (fst (ex_broker st'))) = []"
proof -
  obtain st' ord' where s: "submit mock_place st oid = (st', None)" "broker_ok (fst (ex_broker st'))"
    "in_step (o_account_id ord) st'" "book_ok (ex_positions st')"
    "get_order (ex_orders st') oid = Some ord'" "o_status ord' \<in> {REJECTED, MONITORING}"
    using submit_in_step [OF assms(1,2,5-8,4,9)] assms(3) by blast
  with in_step_reconciles [OF s(3,2,4)] show ?thesis by blast
qed

definition demo_order :: order where
  "demo_order =
     \<lparr>o_id = 1, o_idempotency_key = ''k1'', o_account_id = ''acc'', o_symbol = ''INFY'',
      o_direction = LONG, o_order_type = LIMIT, o_quantity = Fin 10, o_price = Some (Fin 100),
      o_status = RISK_APPROVED, o_broker_order_id = None, o_filled_quantity = Fin 0,
      o_average_fill_price = None, o_rejection_reason = None, o_events = []\<rparr>"

definition demo_engine :: "mock_session engine" where
  "demo_engine =
     \<lparr>ex_broker = (new_mock_broker (Fin 100000) (Fin 0) (Fin 0) (Fin 0),
                   \<lambda>n. (''b'' @ replicate n (CHR ''x''), \<lparr>dice_reject = Fin 0, dice_partial = Fin 0, dice_fraction = Fin 0\<rparr>)),
      ex_orders = restore_order empty_manager demo_order, ex_positions = []\<rparr>"

lemma submit_keeps_books_in_step_witness:
  "\<exists>st'. submit mock_place demo_engine 1 = (st', None) \<and> in_step ''acc'' st'
     \<and> reconcile_positions (open_positions (ex_positions st') ''acc'')
          (get_positions (fst (ex_broker st'))) = []"
proof -
  have ord: "get_order (ex_orders demo_engine) 1 = Some demo_order"
    by (simp add: demo_engine_def restore_order_def get_order_def demo_order_def)
  have "in_step (o_account_id demo_order) demo_engine" "broker_ok (fst (ex_broker demo_engine))"
    "book_ok (ex_positions demo_engine)" "mock_alive (ex_broker demo_engine)"
    "dict_get (mb_resting (fst (ex_broker demo_engine))) (fst (snd (ex_broker demo_engine) 0)) = None"
    by (simp_all add: in_step_def broker_ok_def book_ok_def mock_alive_def demo_engine_def
        new_mock_broker_def broker_qty_def local_qty_def get_position_def)
  from submit_keeps_books_in_step [OF this(1-4) ord _ _ _ this(5)] show ?thesis
    by (auto simp: demo_order_def sane_quantity_def)
qed

text \<open>The unknown-order check exempts exactly what this system placed: a live or filled
  broker order is reported as unknown if and only if no local order carries its id and no
  local position names it as its protective stop.\<close>

theorem unknown_orders_reported_exactly:
  assumes "bo \<in> set broker_orders"
    and "bo_status bo \<in> {SUBMITTED, ACKNOWLEDGED, PARTIALLY_FILLED, FILLED}"
    and "bo_broker_order_id bo \<noteq> []"
  shows "Unknown_at_broker (bo_broker_order_id bo) (bo_symbol bo)
       \<in> set (rp_order_mismatches (reconcile local_orders broker_orders ps bps))
     \<longleftrightarrow> (\<forall>ord \<in> set local_orders. o_broker_order_id ord \<noteq> Some (bo_broker_order_id bo))
       \<and> (\<forall>p \<in> set ps. p_protective_order_id p \<noteq> Some (bo_broker_order_id bo))"
    (is "?U \<in> _ \<longleftrightarrow> ?R")
proof -
  have no: "?U \<notin> set (check_order d ord)" for d ord
    by (auto simp: check_order_def split: option.splits if_splits)
  have known: "is_known local_orders (protective_ids_of ps) (bo_broker_order_id bo) \<longleftrightarrow> \<not> ?R"
    using assms(3) by (auto simp: is_known_def protective_ids_iff)
  have "?U \<in> set (rp_order_mismatches (reconcile local_orders broker_orders ps bps)) \<longleftrightarrow>
      (\<exists>bo' \<in> set broker_orders. bo_broker_order_id bo' = bo_broker_order_id bo \<and> bo_symbol bo' = bo_symbol bo
         \<and> \<not> is_known local_orders (protective_ids_of ps) (bo_broker_order_id bo')
         \<and> bo_status bo' \<in> {SUBMITTED, ACKNOWLEDGED, PARTIALLY_FILLED, FILLED})"
    using no by (simp add: reconcile_def reconcile_orders_def Let_def image_iff) metis
  also have "\<dots> \<longleftrightarrow> \<not> is_known local_orders (protective_ids_of ps) (bo_broker_order_id bo)"
    using assms(1,2) by auto
  finally show ?thesis using known by blast
qed

definition resting_stop_order :: broker_order where
  "resting_stop_order = (order_of ''stop-1'' demo_stop ACKNOWLEDGED)"

lemma unknown_orders_reported_exactly_witness:
  "Unknown_at_broker ''stop-1'' ''INFY'' \<in> set (rp_order_mismatches (reconcile [] [resting_stop_order] [] []))
   \<and> Unknown_at_broker ''stop-1'' ''INFY'' \<notin> set (rp_order_mismatches (reconcile [] [resting_stop_order]
        [(new_position ''acc'' ''INFY'')\<lparr>p_protective_order_id := Some ''stop-1''\<rparr>] []))"
  using unknown_orders_reported_exactly [of resting_stop_order "[resting_stop_order]" "[]"]
  by (simp add: resting_stop_order_def order_of_def demo_stop_def)

lemma run_once_cases:
  "(\<exists>rep. fst (run_once account answer om book ws) = Some rep \<and> in_sync rep)
     \<and> snd (run_once account answer om book ws) = ws
   \<or> (\<exists>r. snd (run_once account answer om book ws) = raise_halt account r ws)"
proof (cases answer)
  case (Inr a)
  then show ?thesis by (cases a) (auto simp: run_once_def Let_def)
qed (auto simp: run_once_def)

text \<open>A mismatch, or a broker that cannot be reached, halts the account, and only a manual
  resume lifts the halt: no pass clears it, and however many passes run while the account is
  halted, only the first one alerts.\<close>

theorem halt_is_raised_once_and_kept:
  assumes "\<And>rep. fst (run_once account answer om book ws) = Some rep \<Longrightarrow> \<not> in_sync rep"
  shows "account_halt_reason account (snd (run_once account answer om book ws)) \<noteq> None
     \<and> (\<forall>answer2 om2 book2. let ws' = snd (run_once account answer om book ws);
           ws'' = snd (run_once account answer2 om2 book2 ws')
         in account_halt_reason account ws'' \<noteq> None \<and> wk_alerts ws'' = wk_alerts ws')
     \<and> length (wk_alerts (snd (run_once account answer om book ws)))
       = length (wk_alerts ws) + (if account_halt_reason account ws = None then 1 else 0)"
proof -
  have raise: "account_halt_reason account (raise_halt account r w) \<noteq> None" for r w
    by (simp add: raise_halt_def Let_def account_halt_reason_def halt_account_def)
  have again: "account_halt_reason account w \<noteq> None \<Longrightarrow> wk_alerts (raise_halt account r w) = wk_alerts w" for r w
    by (simp add: raise_halt_def Let_def halt_account_def)
  have one: "length (wk_alerts (raise_halt account r w))
      = length (wk_alerts w) + (if account_halt_reason account w = None then 1 else 0)" for r w
    by (simp add: raise_halt_def Let_def halt_account_def)
  obtain r where ws': "snd (run_once account answer om book ws) = raise_halt account r ws"
    using run_once_cases assms by blast
  have "account_halt_reason account (snd (run_once account a2 om2 book2 w)) \<noteq> None
      \<and> wk_alerts (snd (run_once account a2 om2 book2 w)) = wk_alerts w"
    if "account_halt_reason account w \<noteq> None" for a2 om2 book2 w
    using run_once_cases [of account a2 om2 book2 w] that raise again by auto
  with raise ws' one show ?thesis by (simp add: Let_def)
qed

lemma halt_is_raised_once_and_kept_witness:
  "let ws = snd (run_once ''acc'' (Inl ''timeout'') empty_manager [] \<lparr>wk_halts = [], wk_alerts = []\<rparr>)
   in account_halt_reason ''acc'' ws \<noteq> None \<and> length (wk_alerts ws) = 1"
proof -
  have "fst (run_once ''acc'' (Inl ''timeout'') empty_manager [] \<lparr>wk_halts = [], wk_alerts = []\<rparr>) = None"
    by (simp add: run_once_def)
  then show ?thesis
    using halt_is_raised_once_and_kept [of "''acc''" "Inl ''timeout''" empty_manager "[]"
        "\<lparr>wk_halts = [], wk_alerts = []\<rparr>"]
    by (simp add: Let_def account_halt_reason_def)
qed

definition flat_holder :: position where
  "flat_holder = (new_position ''acc'' ''INFY'')\<lparr>p_protective_order_id := Some ''stop-1''\<rparr>"

text \<open>The exemption does not survive a position going flat in the worker's pass:
  \<open>reconcile\<close> says it takes the protective ids of every local position, not just the open
  ones, and over all of them it is in sync; but the pass hands it \<open>open_positions\<close> only, so a
  flat position still naming a live stop halts the account.\<close>

theorem flat_position_loses_exemption:
  "in_sync (reconcile [] [resting_stop_order] [flat_holder] [])
   \<and> (\<exists>rep ws'. run_once ''acc'' (Inr ([resting_stop_order], [])) empty_manager
          [((''acc'', ''INFY''), flat_holder)] \<lparr>wk_halts = [], wk_alerts = []\<rparr> = (Some rep, ws')
        \<and> rp_order_mismatches rep = [Unknown_at_broker ''stop-1'' ''INFY'']
        \<and> account_halt_reason ''acc'' ws' \<noteq> None)"
  by (simp add: run_once_def Let_def reconcile_def reconcile_orders_def reconcile_positions_def
      in_sync_def is_known_def protective_ids_of_def List.map_filter_def flat_holder_def
      resting_stop_order_def order_of_def demo_stop_def open_positions_def is_open_def py_eq_def
      dict_of_def list_all_orders_def empty_manager_def dict_values_def account_halt_reason_def
      raise_halt_def halt_account_def)

end
