(* ===== verification/PortfolioRisk.thy ===== *)
theory PortfolioRisk
  imports FloatBounds Candles PositionManager PySqrt
begin

text \<open>
  What the risk engine is told about the rest of the book: correlations of close-to-close returns
  (\<open>risk/correlation.py\<close>), the participation of an order in the traded volume
  (\<open>risk/liquidity.py\<close>) and exposure (\<open>risk/portfolio.py\<close>). The database is an argument: the
  candles of a symbol, \<open>None\<close> for one with no registered instrument. Its timestamps are all aware,
  so one is its instant. \<open>x ** 2\<close> and \<open>x ** 0.5\<close> are the arguments \<open>sqr\<close> and \<open>rt\<close>. Python iterates
  a set of symbols in an arbitrary order, which is an argument too.
\<close>

subsection \<open>Correlation\<close>

fun returns_of :: "pyfloat list \<Rightarrow> pyfloat list" where
  "returns_of (p # c # cs) =
     (if py_eq p (Fin 0) then returns_of (c # cs) else ((c - p) / p) # returns_of (c # cs))"
| "returns_of _ = []"

definition close_returns :: "candle list \<Rightarrow> pyfloat list" where
  "close_returns candles = returns_of (map c_close candles)"

type_synonym closes = "(int, pyfloat) dict"

definition closes_by_timestamp :: "candle list \<Rightarrow> closes" where
  "closes_by_timestamp candles = dict_of (\<lambda>c. instant (c_time c)) c_close candles"

text \<open>\<open>closes[t]\<close>, at a bar the dictionary has.\<close>

definition close_at :: "closes \<Rightarrow> int \<Rightarrow> pyfloat" where
  "close_at closes t = (case dict_get closes t of Some x \<Rightarrow> x | None \<Rightarrow> NaN)"

fun paired_returns :: "closes \<Rightarrow> closes \<Rightarrow> int list \<Rightarrow> pyfloat list \<times> pyfloat list" where
  "paired_returns as bs (p # t # ts) =
     (let (ra, rb) = paired_returns as bs (t # ts);
          previous_a = close_at as p;
          previous_b = close_at bs p
      in if py_eq previous_a (Fin 0) \<or> py_eq previous_b (Fin 0) then (ra, rb)
         else ((close_at as t - previous_a) / previous_a # ra, (close_at bs t - previous_b) / previous_b # rb))"
| "paired_returns as bs _ = ([], [])"

definition covariance_sum :: "pyfloat list \<Rightarrow> pyfloat list \<Rightarrow> pyfloat \<Rightarrow> pyfloat \<Rightarrow> pyfloat" where
  "covariance_sum a b mean_a mean_b = pysum (map2 (\<lambda>x y. (x - mean_a) * (y - mean_b)) a b)"

definition pearson_correlation ::
  "power_fn \<Rightarrow> power_fn \<Rightarrow> pyfloat list \<Rightarrow> pyfloat list \<Rightarrow> py_error + pyfloat option" where
  "pearson_correlation sqr rt xs ys =
     (let n = min (length xs) (length ys)
      in if n < 2 then Inr None
         else
           let a = drop (length xs - n) xs;
               b = drop (length ys - n) ys;
               mean_a = pysum a / of_len a;
               mean_b = pysum b / of_len b;
               cov = covariance_sum a b mean_a mean_b
           in bind_res (map_res (\<lambda>x. sqr (x - mean_a)) a) (\<lambda>squares_a.
              bind_res (map_res (\<lambda>y. sqr (y - mean_b)) b) (\<lambda>squares_b.
                let var_a = pysum squares_a; var_b = pysum squares_b
                in if py_eq var_a (Fin 0) \<or> py_eq var_b (Fin 0) then Inr None
                   else bind_res (rt (var_a * var_b)) (\<lambda>d.
                     if py_eq d (Fin 0) then Inl ZeroDivisionError else Inr (Some (cov / d))))))"

type_synonym correlations = "(string set, pyfloat) dict"

text \<open>The body of the loop over pairs: the correlation of two symbols, if it can be computed.\<close>

definition pair_correlation ::
  "power_fn \<Rightarrow> power_fn \<Rightarrow> closes \<Rightarrow> closes \<Rightarrow> py_error + pyfloat option" where
  "pair_correlation sqr rt as bs =
     (let shared = sorted_list_of_set (set (map fst as) \<inter> set (map fst bs))
      in if length shared < 3 then Inr None
         else case paired_returns as bs shared of (ra, rb) \<Rightarrow> pearson_correlation sqr rt ra rb)"

fun pairs_of :: "'a list \<Rightarrow> ('a \<times> 'a) list" where
  "pairs_of [] = []"
| "pairs_of (x # xs) = map (Pair x) xs @ pairs_of xs"

fun matrix_loop ::
  "power_fn \<Rightarrow> power_fn \<Rightarrow> ((string \<times> closes) \<times> string \<times> closes) list \<Rightarrow> correlations \<Rightarrow> py_error + correlations" where
  "matrix_loop sqr rt [] matrix = Inr matrix"
| "matrix_loop sqr rt (((sym_a, as), (sym_b, bs)) # ps) matrix =
     bind_res (pair_correlation sqr rt as bs) (\<lambda>corr.
       matrix_loop sqr rt ps (case corr of None \<Rightarrow> matrix | Some c \<Rightarrow> dict_put {sym_a, sym_b} c matrix))"

definition build_correlation_matrix ::
  "power_fn \<Rightarrow> power_fn \<Rightarrow> (string, closes) dict \<Rightarrow> py_error + correlations" where
  "build_correlation_matrix sqr rt closes_by_symbol = matrix_loop sqr rt (pairs_of closes_by_symbol) []"

definition add_correlated ::
  "string \<Rightarrow> correlations \<Rightarrow> pyfloat \<Rightarrow> pyfloat \<Rightarrow> string \<times> pyfloat \<Rightarrow> pyfloat" where
  "add_correlated target_symbol matrix threshold running item =
     (case item of (symbol, notional) \<Rightarrow>
        if symbol = target_symbol then running
        else case dict_get matrix {target_symbol, symbol} of
               None \<Rightarrow> running
             | Some corr \<Rightarrow>
                 if threshold \<le> \<bar>corr\<bar> then running + (if Fin 0 < corr then notional else - notional)
                 else running)"

definition correlated_exposure ::
  "string \<Rightarrow> pyfloat \<Rightarrow> (string, pyfloat) dict \<Rightarrow> correlations \<Rightarrow> pyfloat \<Rightarrow> pyfloat" where
  "correlated_exposure target_symbol target_notional open_position_notionals matrix threshold =
     foldl (add_correlated target_symbol matrix threshold) target_notional open_position_notionals"

subsection \<open>Exposure\<close>

definition signed_notionals_excluding :: "position list \<Rightarrow> string \<Rightarrow> (string, pyfloat) dict" where
  "signed_notionals_excluding positions exclude_symbol =
     dict_of p_symbol (\<lambda>p. p_quantity p * p_average_price p) (filter (\<lambda>p. p_symbol p \<noteq> exclude_symbol) positions)"

text \<open>The candles of a symbol in time order, \<open>None\<close> for an unregistered one.\<close>

type_synonym history = "string \<Rightarrow> candle list option"

text \<open>\<open>xs[-k:]\<close>\<close>

definition py_tail :: "nat \<Rightarrow> 'a list \<Rightarrow> 'a list" where
  "py_tail k xs = (if k = 0 then xs else drop (length xs - k) xs)"

definition closes_for :: "history \<Rightarrow> nat \<Rightarrow> string \<Rightarrow> (string \<times> closes) list" where
  "closes_for history lookback symbol =
     (case history symbol of
        None \<Rightarrow> []
      | Some candles \<Rightarrow>
          if 3 \<le> length candles then [(symbol, closes_by_timestamp (py_tail lookback candles))] else [])"

definition compute_correlated_exposure ::
  "power_fn \<Rightarrow> power_fn \<Rightarrow> history \<Rightarrow> string list \<Rightarrow> string \<Rightarrow> pyfloat \<Rightarrow> (string, pyfloat) dict \<Rightarrow> pyfloat
   \<Rightarrow> nat \<Rightarrow> py_error + pyfloat" where
  "compute_correlated_exposure sqr rt history symbols target_symbol target_notional notionals threshold lookback =
     bind_res (build_correlation_matrix sqr rt (concat (map (closes_for history lookback) symbols)))
       (\<lambda>matrix. Inr (correlated_exposure target_symbol target_notional notionals matrix threshold))"

text \<open>What \<open>{target_symbol, *open_position_notionals}\<close> may be iterated as.\<close>

definition iterates :: "string list \<Rightarrow> string \<Rightarrow> (string, pyfloat) dict \<Rightarrow> bool" where
  "iterates symbols target_symbol notionals \<longleftrightarrow>
     distinct symbols \<and> set symbols = insert target_symbol (set (map fst notionals))"

record exposure_row =
  xr_instrument :: uuid
  xr_quantity :: pyfloat
  xr_average_price :: pyfloat

record portfolio_exposure =
  px_total_exposure :: pyfloat
  px_exposure_by_market :: "(string, pyfloat) dict"
  px_total_realized_pnl :: pyfloat

definition add_exposure ::
  "(uuid \<Rightarrow> string option) \<Rightarrow> pyfloat \<times> (string, pyfloat) dict \<Rightarrow> exposure_row \<Rightarrow> pyfloat \<times> (string, pyfloat) dict" where
  "add_exposure market acc row =
     (case market (xr_instrument row) of
        None \<Rightarrow> acc
      | Some m \<Rightarrow>
          let notional = \<bar>xr_quantity row * xr_average_price row\<bar>;
              old = (case dict_get (snd acc) m of None \<Rightarrow> Fin 0 | Some x \<Rightarrow> x)
          in (fst acc + notional, dict_put m (old + notional) (snd acc)))"

text \<open>Over the open rows and the realized sum the two queries return.\<close>

definition compute_portfolio_exposure ::
  "(uuid \<Rightarrow> string option) \<Rightarrow> exposure_row list \<Rightarrow> pyfloat \<Rightarrow> portfolio_exposure" where
  "compute_portfolio_exposure market rows realized =
     (let acc = foldl (add_exposure market) (Fin 0, []) rows
      in \<lparr>px_total_exposure = fst acc, px_exposure_by_market = snd acc, px_total_realized_pnl = realized\<rparr>)"

subsection \<open>Participation\<close>

definition default_volume_window_bars :: nat where
  "default_volume_window_bars = 20"

definition assess_participation :: "pyfloat \<Rightarrow> pyfloat option \<Rightarrow> pyfloat \<Rightarrow> bool option" where
  "assess_participation quantity average_bar_volume max_participation_pct =
     (case average_bar_volume of
        None \<Rightarrow> None
      | Some average \<Rightarrow>
          if average \<le> Fin 0 then Some False
          else Some (quantity / average * Fin 100 \<le> max_participation_pct))"

definition average_bar_volume :: "history \<Rightarrow> string \<Rightarrow> nat \<Rightarrow> pyfloat option" where
  "average_bar_volume history symbol window =
     (case history symbol of
        None \<Rightarrow> None
      | Some candles \<Rightarrow>
          if candles = [] then None
          else let recent = py_tail window candles in Some (pysum (map c_volume recent) / of_len recent))"

text \<open>A session may be absent, and a session may fail to read.\<close>

definition assess_equity_liquidity ::
  "(py_error + history) option \<Rightarrow> string \<Rightarrow> pyfloat \<Rightarrow> pyfloat \<Rightarrow> nat \<Rightarrow> bool option" where
  "assess_equity_liquidity db symbol quantity max_participation_pct window =
     (case db of
        None \<Rightarrow> None
      | Some (Inl e) \<Rightarrow> None
      | Some (Inr history) \<Rightarrow>
          assess_participation quantity (average_bar_volume history symbol window) max_participation_pct)"

subsection \<open>Lemmas\<close>

lemma fabs_minus [simp]: "\<bar>- x\<bar> = \<bar>x :: pyfloat\<bar>"
  by (cases x) (simp_all add: abs_pyfloat_def uminus_pyfloat_def)

text \<open>The triangle inequality survives rounding.\<close>

lemma fabs_add:
  assumes "\<bar>t\<bar> \<le> g" "n = Fin q"
  shows "\<bar>t + n\<bar> \<le> g + \<bar>n\<bar>"
proof (cases t; cases g)
  fix a b
  assume [simp]: "t = Fin a" "g = Fin b"
  have "\<bar>a\<bar> \<le> b" using assms(1) by simp
  then have "rnd64 (a + q) \<le> rnd64 (b + \<bar>q\<bar>)" "rnd64 (- (a + q)) \<le> rnd64 (b + \<bar>q\<bar>)"
    by (auto intro!: rnd64_mono)
  moreover have "\<bar>t + n\<bar> = rnd64 (a + q) \<or> \<bar>t + n\<bar> = rnd64 (- (a + q))"
    unfolding rnd64_minus by (cases "rnd64 (a + q)") (auto simp: assms(2) abs_pyfloat_def abs_if)
  moreover have "g + \<bar>n\<bar> = rnd64 (b + \<bar>q\<bar>)" by (simp add: assms(2) abs_pyfloat_def)
  ultimately show ?thesis by auto
qed (use assms in \<open>auto simp: plus_pyfloat_def\<close>)

definition finite_notionals :: "(string, pyfloat) dict \<Rightarrow> bool" where
  "finite_notionals d \<longleftrightarrow> (\<forall>x \<in> set (map snd d). \<exists>q. x = Fin q)"

lemma netted_below:
  assumes "finite_notionals ns" "\<bar>t\<bar> \<le> g" "b64 g"
  shows "\<bar>foldl (add_correlated target m th) t ns\<bar> \<le> foldl (+) g (map (\<lambda>x. \<bar>snd x\<bar>) ns)"
  using assms
proof (induction ns arbitrary: t g)
  case (Cons x ns)
  obtain s n where x: "x = (s, n)" by (cases x)
  with Cons.prems obtain q where q: "n = Fin q" by (auto simp: finite_notionals_def)
  have g: "g \<noteq> NaN" using Cons.prems(2) by auto
  have "g \<le> g + \<bar>n\<bar>" using Cons.prems(3) g q by (intro fadd_ge) (cases g; simp add: plus_pyfloat_def)+
  with Cons.prems(2) have skip: "\<bar>t\<bar> \<le> g + \<bar>n\<bar>" by (rule fle_trans)
  have "\<bar>t + n\<bar> \<le> g + \<bar>n\<bar>" "\<bar>t + - n\<bar> \<le> g + \<bar>n\<bar>"
    using fabs_add [OF Cons.prems(2) q] fabs_add [OF Cons.prems(2), of "- n" "- q"] q by simp_all
  with skip have "\<bar>add_correlated target m th t x\<bar> \<le> g + \<bar>n\<bar>"
    by (simp add: x add_correlated_def split: option.split)
  moreover have "finite_notionals ns" using Cons.prems(1) by (simp add: finite_notionals_def)
  ultimately show ?case using Cons.IH [of "add_correlated target m th t x" "g + \<bar>n\<bar>"] by (simp add: x)
qed simp

subsection \<open>A correlation has no direction\<close>

lemma fmul_commute: "x * y = y * (x :: pyfloat)"
  by (cases x; cases y; simp add: times_pyfloat_def mult.commute)

lemma map2_swap: "(\<And>x y. f x y = g y x) \<Longrightarrow> map2 f xs ys = map2 g ys xs"
  by (induction xs ys rule: list_induct2') simp_all

lemma covariance_sum_sym: "covariance_sum a b u v = covariance_sum b a v u"
  unfolding covariance_sum_def by (rule arg_cong [OF map2_swap]) (rule fmul_commute)

lemma pearson_sym:
  assumes "pearson_correlation sqr rt xs ys = Inr c"
  shows "pearson_correlation sqr rt ys xs = Inr c"
proof -
  define n a b where "n = min (length xs) (length ys)" and "a = drop (length xs - n) xs" and "b = drop (length ys - n) ys"
  have n: "n = min (length ys) (length xs)" by (simp add: n_def)
  show ?thesis
  proof (cases "n < 2")
    case True
    with assms show ?thesis by (simp add: pearson_correlation_def n_def [symmetric] n [symmetric])
  next
    case False
    from assms False obtain sa sb where s: "map_res (\<lambda>x. sqr (x - pysum a / of_len a)) a = Inr sa"
      "map_res (\<lambda>y. sqr (y - pysum b / of_len b)) b = Inr sb"
      by (auto simp: pearson_correlation_def Let_def n_def [symmetric] a_def [symmetric] b_def [symmetric] bind_res_Inr)
    with assms False show ?thesis
      unfolding pearson_correlation_def Let_def n_def [symmetric] n [symmetric] a_def [symmetric] b_def [symmetric]
      by (simp add: covariance_sum_sym [of b a] fmul_commute [of "pysum sb"] disj_commute cong del: if_weak_cong)
  qed
qed

lemma paired_returns_swap: "paired_returns bs as ts = prod.swap (paired_returns as bs ts)"
  by (induction as bs ts rule: paired_returns.induct) (auto simp: Let_def split: prod.splits)

lemma pair_correlation_sym:
  "pair_correlation sqr rt as bs = Inr c \<Longrightarrow> pair_correlation sqr rt bs as = Inr c"
  unfolding pair_correlation_def Let_def paired_returns_swap [of bs as]
  by (auto simp: Int_commute intro: pearson_sym split: prod.splits if_splits)

subsection \<open>What the matrix holds\<close>

definition pair_key :: "(string \<times> closes) \<times> string \<times> closes \<Rightarrow> string set" where
  "pair_key p = {fst (fst p), fst (snd p)}"

definition pair_corr ::
  "power_fn \<Rightarrow> power_fn \<Rightarrow> (string \<times> closes) \<times> string \<times> closes \<Rightarrow> py_error + pyfloat option" where
  "pair_corr sqr rt p = pair_correlation sqr rt (snd (fst p)) (snd (snd p))"

lemma matrix_loop_Cons:
  "matrix_loop sqr rt (p # ps) m = bind_res (pair_corr sqr rt p)
     (\<lambda>corr. matrix_loop sqr rt ps (case corr of None \<Rightarrow> m | Some c \<Rightarrow> dict_put (pair_key p) c m))"
  unfolding pair_corr_def pair_key_def by (cases p) (auto cong del: option.case_cong_weak)

declare matrix_loop.simps(2) [simp del]

lemma matrix_loop_total:
  "(\<exists>m'. matrix_loop sqr rt ps m = Inr m') \<longleftrightarrow> (\<forall>p \<in> set ps. \<exists>c. pair_corr sqr rt p = Inr c)"
proof (induction ps arbitrary: m)
  case (Cons p ps)
  then show ?case by (cases "pair_corr sqr rt p") (simp_all add: matrix_loop_Cons)
qed simp

lemma matrix_loop_other:
  "matrix_loop sqr rt ps m = Inr m' \<Longrightarrow> k \<notin> pair_key ` set ps \<Longrightarrow> dict_get m' k = dict_get m k"
proof (induction ps arbitrary: m)
  case (Cons p ps)
  from Cons.prems obtain corr where
    "matrix_loop sqr rt ps (case corr of None \<Rightarrow> m | Some c \<Rightarrow> dict_put (pair_key p) c m) = Inr m'"
    by (auto simp: matrix_loop_Cons bind_res_Inr)
  from Cons.IH [OF this] Cons.prems(2) show ?case by (auto simp: dict_get_put split: option.splits)
qed simp

lemma matrix_loop_get:
  "matrix_loop sqr rt ps m = Inr m' \<Longrightarrow> distinct (map pair_key ps) \<Longrightarrow> p \<in> set ps \<Longrightarrow> dict_get m (pair_key p) = None
   \<Longrightarrow> pair_corr sqr rt p = Inr (dict_get m' (pair_key p))"
proof (induction ps arbitrary: m)
  case (Cons q ps)
  from Cons.prems(1) obtain corr where q: "pair_corr sqr rt q = Inr corr" and
    run: "matrix_loop sqr rt ps (case corr of None \<Rightarrow> m | Some c \<Rightarrow> dict_put (pair_key q) c m) = Inr m'"
    by (auto simp: matrix_loop_Cons bind_res_Inr)
  show ?case
  proof (cases "p \<in> set ps")
    case True
    with Cons.prems(2) have "pair_key p \<noteq> pair_key q" by auto
    with Cons.IH [OF run _ True] Cons.prems show ?thesis by (auto simp: dict_get_put split: option.splits)
  next
    case False
    with Cons.prems have [simp]: "p = q" "pair_key q \<notin> pair_key ` set ps" by auto
    from matrix_loop_other [OF run] Cons.prems(4) q show ?thesis by (cases corr) (simp_all add: dict_get_put)
  qed
qed simp

lemma pairs_of_mem: "(x, y) \<in> set (pairs_of xs) \<Longrightarrow> x \<in> set xs \<and> y \<in> set xs"
  by (induction xs) auto

lemma pairs_of_either: "x \<in> set xs \<Longrightarrow> y \<in> set xs \<Longrightarrow> x \<noteq> y \<Longrightarrow> (x, y) \<in> set (pairs_of xs) \<or> (y, x) \<in> set (pairs_of xs)"
  by (induction xs) auto

lemma pairs_of_distinct: "distinct (map fst xs) \<Longrightarrow> distinct (map pair_key (pairs_of xs))"
proof (induction xs)
  case (Cons x xs)
  have "inj_on (\<lambda>y. {fst x, fst y}) (set xs)"
  proof (rule inj_onI)
    fix y z
    assume yz: "y \<in> set xs" "z \<in> set xs" "{fst x, fst y} = {fst x, fst z}"
    moreover have "inj_on fst (set xs)" using Cons.prems by (simp add: distinct_map)
    ultimately show "y = z" by (auto simp: doubleton_eq_iff dest: inj_onD)
  qed
  moreover have "distinct xs" using Cons.prems by (simp add: distinct_map)
  ultimately have "distinct (map (\<lambda>y. {fst x, fst y}) xs)" by (simp add: distinct_map)
  moreover have neq: "pair_key p \<noteq> {fst x, fst y}" if "p \<in> set (pairs_of xs)" "y \<in> set xs" for p y
  proof -
    have "fst (fst p) \<in> fst ` set xs" "fst (snd p) \<in> fst ` set xs"
      using pairs_of_mem [of "fst p" "snd p" xs] that(1) by auto
    moreover have "fst x \<notin> fst ` set xs" using Cons.prems by simp
    ultimately have "fst (fst p) \<noteq> fst x" "fst (snd p) \<noteq> fst x" by metis+
    then show ?thesis by (auto simp: pair_key_def doubleton_eq_iff)
  qed
  moreover have "(\<lambda>y. {fst x, fst y}) ` set xs \<inter> pair_key ` set (pairs_of xs) = {}"
    using neq by (fastforce simp del: split_paired_All)
  moreover have "map pair_key (pairs_of (x # xs)) = map (\<lambda>y. {fst x, fst y}) xs @ map pair_key (pairs_of xs)"
    by (simp add: pair_key_def)
  ultimately show ?case using Cons by (simp only: distinct_append set_map) simp
qed simp

text \<open>The matrix is a function of the symbols, not of their order.\<close>

lemma matrix_get_iff:
  assumes "build_correlation_matrix sqr rt cs = Inr m" "distinct (map fst cs)"
  shows "dict_get m k = Some c \<longleftrightarrow>
     (\<exists>x y. x \<in> set cs \<and> y \<in> set cs \<and> x \<noteq> y \<and> k = pair_key (x, y) \<and> pair_corr sqr rt (x, y) = Inr (Some c))"
proof
  note m = assms(1) [unfolded build_correlation_matrix_def]
  note d = pairs_of_distinct [OF assms(2)]
  {
    assume "dict_get m k = Some c"
    with matrix_loop_other [OF m, of k] have "k \<in> pair_key ` set (pairs_of cs)" by fastforce
    then obtain x y where p: "(x, y) \<in> set (pairs_of cs)" "k = pair_key (x, y)" by auto
    with matrix_loop_get [OF m d p(1)] \<open>dict_get m k = Some c\<close> have "pair_corr sqr rt (x, y) = Inr (Some c)" by simp
    moreover have "x \<noteq> y" using p(1) assms(2) by (induction cs) (auto simp: image_iff dest: pairs_of_mem)
    ultimately show "\<exists>x y. x \<in> set cs \<and> y \<in> set cs \<and> x \<noteq> y \<and> k = pair_key (x, y)
        \<and> pair_corr sqr rt (x, y) = Inr (Some c)" using pairs_of_mem [OF p(1)] p(2) by blast
  }
  assume "\<exists>x y. x \<in> set cs \<and> y \<in> set cs \<and> x \<noteq> y \<and> k = pair_key (x, y) \<and> pair_corr sqr rt (x, y) = Inr (Some c)"
  then obtain x y where xy: "x \<in> set cs" "y \<in> set cs" "x \<noteq> y" and kxy: "k = pair_key (x, y)"
    and c: "pair_corr sqr rt (x, y) = Inr (Some c)" by blast
  have k: "k = pair_key (x, y)" "k = pair_key (y, x)" unfolding kxy by (auto simp: pair_key_def)
  from c have c': "pair_corr sqr rt (y, x) = Inr (Some c)" by (auto simp: pair_corr_def intro: pair_correlation_sym)
  from pairs_of_either [OF xy] show "dict_get m k = Some c"
    using matrix_loop_get [OF m d, of "(x, y)"] matrix_loop_get [OF m d, of "(y, x)"] c c' k by auto
qed

lemma matrix_any_order:
  assumes "set cs' = set cs" "distinct (map fst cs)" "distinct (map fst cs')"
    and run: "build_correlation_matrix sqr rt cs = Inr m"
  shows "\<exists>m'. build_correlation_matrix sqr rt cs' = Inr m' \<and> dict_get m' = dict_get m"
proof -
  have ok: "\<exists>c. pair_corr sqr rt (x, y) = Inr c" if "x \<in> set cs" "y \<in> set cs" "x \<noteq> y" for x y
  proof -
    have "\<forall>p \<in> set (pairs_of cs). \<exists>c. pair_corr sqr rt p = Inr c"
      using run matrix_loop_total [of sqr rt "pairs_of cs" "[]"] by (simp add: build_correlation_matrix_def)
    with pairs_of_either [OF that] obtain c where "pair_corr sqr rt (x, y) = Inr c \<or> pair_corr sqr rt (y, x) = Inr c"
      by blast
    then show ?thesis by (auto simp: pair_corr_def dest: pair_correlation_sym)
  qed
  have "x \<noteq> y" if "(x, y) \<in> set (pairs_of cs')" for x y
    using that assms(3) by (induction cs') (auto simp: image_iff dest: pairs_of_mem)
  with ok assms(1) have "\<forall>p \<in> set (pairs_of cs'). \<exists>c. pair_corr sqr rt p = Inr c"
    using pairs_of_mem by fastforce
  then obtain m' where m': "build_correlation_matrix sqr rt cs' = Inr m'"
    using matrix_loop_total [of sqr rt "pairs_of cs'" "[]"] by (auto simp: build_correlation_matrix_def)
  have same: "dict_get m' k = Some c \<longleftrightarrow> dict_get m k = Some c" for k c
    unfolding matrix_get_iff [OF m' assms(3)] matrix_get_iff [OF run assms(2)] assms(1) ..
  have "dict_get m' k = dict_get m k" for k
    using same [of k] by (cases "dict_get m k"; cases "dict_get m' k") auto
  with m' show ?thesis by auto
qed

subsection \<open>Properties\<close>

text \<open>Netting never claims more than the gross book: whatever the correlations and the
  threshold, the correlated exposure is at most the sum of the absolute notionals, under binary64
  rounding of every step.\<close>

theorem netting_never_exceeds_gross:
  assumes "finite_notionals ns" and "b64 target_notional" and "target_notional \<noteq> NaN"
  shows "\<bar>correlated_exposure target target_notional ns matrix threshold\<bar>
     \<le> pysum (\<bar>target_notional\<bar> # map (\<lambda>x. \<bar>snd x\<bar>) ns)"
proof -
  have b: "b64 \<bar>target_notional\<bar>" and le: "\<bar>target_notional\<bar> \<le> \<bar>target_notional\<bar>"
    using assms(2,3) by simp_all
  have "Fin 0 + \<bar>target_notional\<bar> = \<bar>target_notional\<bar>"
    using b by (cases "\<bar>target_notional\<bar>") (simp_all add: rnd64_representable plus_pyfloat_def)
  then show ?thesis
    using netted_below [OF assms(1) le b] by (simp add: correlated_exposure_def pysum_def)
qed

lemma netting_never_exceeds_gross_witness:
  "\<bar>correlated_exposure ''A'' (Fin 100) [(''B'', Fin (- 300)), (''C'', Fin 40)]
      [({''A'', ''B''}, Fin 1)] (rnd64 (7 / 10))\<bar> \<le> Fin 440"
proof -
  have "pysum [\<bar>Fin 100\<bar>, \<bar>Fin (- 300)\<bar>, \<bar>Fin 40\<bar>] = Fin 440" by code_simp
  then show ?thesis
    using netting_never_exceeds_gross [of "[(''B'', Fin (- 300)), (''C'', Fin 40)]" "Fin 100" "''A''"
        "[({''A'', ''B''}, Fin 1)]" "rnd64 (7 / 10)"]
    by (simp add: finite_notionals_def representable_numeral)
qed

text \<open>The correlated exposure does not depend on the order in which Python iterates the set of
  symbols: another order gives the same number, and raises nothing where the first did not.\<close>

theorem correlated_exposure_any_order:
  assumes "iterates symbols target ns" and "iterates symbols' target ns"
    and "compute_correlated_exposure sqr rt history symbols target notional ns threshold lookback = Inr x"
  shows "compute_correlated_exposure sqr rt history symbols' target notional ns threshold lookback = Inr x"
proof -
  let ?cs = "\<lambda>syms. concat (map (closes_for history lookback) syms)"
  have d: "distinct (map fst (?cs syms))" if "distinct syms" for syms
  proof -
    have sub: "set (map fst (?cs syms)) \<subseteq> set syms" for syms
      by (auto simp: closes_for_def split: option.splits if_splits)
    show ?thesis using that
    proof (induction syms)
      case (Cons s syms)
      have "set (map fst (closes_for history lookback s)) \<subseteq> {s}" "distinct (map fst (closes_for history lookback s))"
        by (auto simp: closes_for_def split: option.splits)
      with Cons sub [of syms] show ?case by fastforce
    qed simp
  qed
  from assms(3) obtain m where m: "build_correlation_matrix sqr rt (?cs symbols) = Inr m"
    and x: "x = correlated_exposure target notional ns m threshold"
    by (auto simp: compute_correlated_exposure_def bind_res_Inr)
  have "set (?cs symbols') = set (?cs symbols)" using assms(1,2) by (simp add: iterates_def)
  from matrix_any_order [OF this d d m] assms(1,2) obtain m' where
    m': "build_correlation_matrix sqr rt (?cs symbols') = Inr m'" "dict_get m' = dict_get m"
    by (auto simp: iterates_def)
  have "add_correlated target m' threshold t p = add_correlated target m threshold t p" for t p
    unfolding add_correlated_def m'(2) ..
  then have "add_correlated target m' threshold = add_correlated target m threshold" by blast
  with m' x show ?thesis by (simp add: compute_correlated_exposure_def correlated_exposure_def)
qed

definition close_bar :: "int \<Rightarrow> rat \<Rightarrow> candle" where
  "close_bar day x = \<lparr>c_time = \<lparr>dt_day = day, dt_us = 0, dt_offset = Some 0\<rparr>, c_open = Fin x, c_high = Fin x,
     c_low = Fin x, c_close = Fin x, c_volume = Fin 1000\<rparr>"

definition demo_history :: history where
  "demo_history symbol = (if symbol = ''A'' then Some [close_bar 1 1, close_bar 2 2, close_bar 3 2]
     else if symbol = ''B'' then Some [close_bar 1 5, close_bar 2 10, close_bar 3 10] else None)"

lemma correlated_exposure_any_order_witness:
  "compute_correlated_exposure (\<lambda>v. Inr (v * v)) py_sqrt demo_history [''A'', ''B''] ''A'' (Fin 0)
     [(''B'', Fin 100)] (rnd64 (7 / 10)) 100 = Inr (Fin 100)
   \<and> compute_correlated_exposure (\<lambda>v. Inr (v * v)) py_sqrt demo_history [''B'', ''A''] ''A'' (Fin 0)
     [(''B'', Fin 100)] (rnd64 (7 / 10)) 100 = Inr (Fin 100)"
proof
  show run: "compute_correlated_exposure (\<lambda>v. Inr (v * v)) py_sqrt demo_history [''A'', ''B''] ''A'' (Fin 0)
     [(''B'', Fin 100)] (rnd64 (7 / 10)) 100 = Inr (Fin 100)" by code_simp
  show "compute_correlated_exposure (\<lambda>v. Inr (v * v)) py_sqrt demo_history [''B'', ''A''] ''A'' (Fin 0)
     [(''B'', Fin 100)] (rnd64 (7 / 10)) 100 = Inr (Fin 100)"
    by (rule correlated_exposure_any_order [OF _ _ run]) (auto simp: iterates_def)
qed

end
