(* ===== verification/Paper.thy ===== *)
theory Paper
  imports Reconciliation PortfolioRisk Backtest Calendar
begin

text \<open>
  The paper trading engine (\<open>paper/engine.py\<close>): the whole path from a candle through the detectors,
  the strategy, the risk engine, the simulated broker and the position book, with the shared day and
  week counters. What a call reads from outside is an argument (\<open>paper_env\<close>): the shared kill
  flags, the database session if there is one, the fresh order id. A run is the engine it leaves and
  the outcome or the exception; of a broker whose call raises, the state before that call.
\<close>

subsection \<open>The risk window\<close>

record risk_window =
  rw_trades_today :: int
  rw_daily_pnl :: pyfloat
  rw_weekly_pnl :: pyfloat
  rw_repeated_rejections :: int
  rw_risk_day :: "int option"
  rw_risk_week :: "(int \<times> int) option"

definition new_window :: risk_window where
  "new_window = \<lparr>rw_trades_today = 0, rw_daily_pnl = Fin 0, rw_weekly_pnl = Fin 0, rw_repeated_rejections = 0,
     rw_risk_day = None, rw_risk_week = None\<rparr>"

definition roll_day :: "risk_window \<Rightarrow> int \<Rightarrow> risk_window" where
  "roll_day w today =
     (case rw_risk_day w of
        None \<Rightarrow> w\<lparr>rw_risk_day := Some today\<rparr>
      | Some day \<Rightarrow>
          if day < today then w\<lparr>rw_trades_today := 0, rw_daily_pnl := Fin 0, rw_risk_day := Some today\<rparr> else w)"

definition roll_week :: "risk_window \<Rightarrow> int \<times> int \<Rightarrow> risk_window" where
  "roll_week w this_week =
     (case rw_risk_week w of
        None \<Rightarrow> w\<lparr>rw_risk_week := Some this_week\<rparr>
      | Some week \<Rightarrow>
          if later_week this_week week then w\<lparr>rw_weekly_pnl := Fin 0, rw_risk_week := Some this_week\<rparr> else w)"

definition roll_window :: "risk_window \<Rightarrow> datetime \<Rightarrow> risk_window" where
  "roll_window w now = roll_week (roll_day w (dt_day now)) (iso_year_week (dt_day now))"

subsection \<open>The engine\<close>

datatype exit_reason = Stop_loss | Take_profit

record paper_outcome =
  po_signal :: "evaluation_result option"
  po_order_created :: bool
  po_risk_rejected_reason :: "detail option"
  po_risk_failed_check :: "string option"
  po_risk_checks :: "(string, bool) dict option"
  po_closed_position_pnl :: "pyfloat option"
  po_exit_reason :: "exit_reason option"
  po_exit_price :: "pyfloat option"
  po_order_status :: "order_status option"

definition only_signal :: "evaluation_result option \<Rightarrow> paper_outcome" where
  "only_signal signal =
     \<lparr>po_signal = signal, po_order_created = False, po_risk_rejected_reason = None, po_risk_failed_check = None,
      po_risk_checks = None, po_closed_position_pnl = None, po_exit_reason = None, po_exit_price = None,
      po_order_status = None\<rparr>"

record paper_engine =
  pe_source_key :: "string option"
  pe_strategy :: strategy
  pe_strategy_id :: "string option"
  pe_symbol :: string
  pe_account_id :: string
  pe_candles :: "candle list"
  pe_smc_config :: smc_config
  pe_ict_config :: ict_config
  pe_risk :: risk_engine
  pe_exec :: "mock_session engine"
  pe_window :: risk_window

record paper_db =
  pd_elsewhere :: "py_error + (string, pyfloat) dict"
  pd_history :: "py_error + history"
  pd_symbols :: "string list"

record paper_env =
  en_redis :: redis
  en_db :: "paper_db option"
  en_order_id :: uuid
  en_sqr :: power_fn
  en_rt :: power_fn

type_synonym 'a paper_run = "paper_engine \<times> (py_error + 'a)"

definition and_then :: "'a paper_run \<Rightarrow> (paper_engine \<Rightarrow> 'a \<Rightarrow> 'b paper_run) \<Rightarrow> 'b paper_run" where
  "and_then m k = (case m of (pe, Inl e) \<Rightarrow> (pe, Inl e) | (pe, Inr a) \<Rightarrow> k pe a)"

definition with_orders :: "paper_engine \<Rightarrow> order_manager \<Rightarrow> paper_engine" where
  "with_orders pe om = pe\<lparr>pe_exec := (pe_exec pe)\<lparr>ex_orders := om\<rparr>\<rparr>"

definition with_positions :: "paper_engine \<Rightarrow> position_book \<Rightarrow> paper_engine" where
  "with_positions pe book = pe\<lparr>pe_exec := (pe_exec pe)\<lparr>ex_positions := book\<rparr>\<rparr>"

text \<open>\<open>self.broker.set_quote(self.symbol, ltp=price)\<close>\<close>

definition quote_symbol :: "paper_engine \<Rightarrow> pyfloat \<Rightarrow> unit paper_run" where
  "quote_symbol pe price =
     (case set_quote (fst (ex_broker (pe_exec pe))) (pe_symbol pe) price None None True of
        Inl e \<Rightarrow> (pe, Inl e)
      | Inr mb \<Rightarrow> (pe\<lparr>pe_exec := (pe_exec pe)\<lparr>ex_broker := (mb, snd (ex_broker (pe_exec pe)))\<rparr>\<rparr>, Inr ()))"

definition move_order_to :: "paper_engine \<Rightarrow> uuid \<Rightarrow> order_status \<Rightarrow> unit paper_run" where
  "move_order_to pe oid status =
     (case transition (ex_orders (pe_exec pe)) oid status [] of
        Inl e \<Rightarrow> (pe, Inl e)
      | Inr om \<Rightarrow> (with_orders pe om, Inr ()))"

definition submit_order :: "paper_engine \<Rightarrow> uuid \<Rightarrow> unit paper_run" where
  "submit_order pe oid =
     (case submit mock_place (pe_exec pe) oid of
        (st, Some e) \<Rightarrow> (pe\<lparr>pe_exec := st\<rparr>, Inl e)
      | (st, None) \<Rightarrow> (pe\<lparr>pe_exec := st\<rparr>, Inr ()))"

text \<open>The steps the entry and the exit share: a market order under an idempotency key, driven through
  the order states only if the key was new.\<close>

definition market_order ::
  "paper_engine \<Rightarrow> uuid \<Rightarrow> string \<Rightarrow> direction \<Rightarrow> pyfloat \<Rightarrow> (uuid \<times> bool) paper_run" where
  "market_order pe new_id key dir quantity =
     (case create_order (ex_orders (pe_exec pe)) new_id key (pe_account_id pe) (pe_symbol pe) dir MARKET quantity None of
        Inl e \<Rightarrow> (pe, Inl e)
      | Inr (ord, created, om) \<Rightarrow>
          let pe = with_orders pe om; oid = o_id ord
          in if \<not> created then (pe, Inr (oid, False))
             else and_then (move_order_to pe oid VALIDATING) (\<lambda>pe _.
                  and_then (move_order_to pe oid RISK_APPROVED) (\<lambda>pe _.
                  and_then (submit_order pe oid) (\<lambda>pe _. (pe, Inr (oid, True))))))"

subsection \<open>Leaving a position\<close>

definition exit_trigger :: "position \<Rightarrow> candle \<Rightarrow> (pyfloat \<times> exit_reason) option" where
  "exit_trigger pos candle =
     (let stop_at = (\<lambda>hit. case p_stop pos of Some s \<Rightarrow> if hit s then Some (s, Stop_loss) else None | None \<Rightarrow> None);
          target_at = (\<lambda>hit. case p_target pos of Some t \<Rightarrow> if hit t then Some (t, Take_profit) else None | None \<Rightarrow> None)
      in if is_long pos then
           (case stop_at (\<lambda>s. c_low candle \<le> s) of Some x \<Rightarrow> Some x | None \<Rightarrow> target_at (\<lambda>t. t \<le> c_high candle))
         else
           (case stop_at (\<lambda>s. s \<le> c_high candle) of Some x \<Rightarrow> Some x | None \<Rightarrow> target_at (\<lambda>t. c_low candle \<le> t)))"

definition position_pnl :: "paper_engine \<Rightarrow> pyfloat" where
  "position_pnl pe =
     (case get_position (ex_positions (pe_exec pe)) (pe_account_id pe) (pe_symbol pe) of
        None \<Rightarrow> Fin 0 | Some p \<Rightarrow> p_realized_pnl p)"

definition book_pnl :: "risk_window \<Rightarrow> pyfloat \<Rightarrow> risk_window" where
  "book_pnl w pnl = w\<lparr>rw_daily_pnl := rw_daily_pnl w + pnl, rw_weekly_pnl := rw_weekly_pnl w + pnl\<rparr>"

definition exit_key :: "paper_engine \<Rightarrow> candle \<Rightarrow> string" where
  "exit_key pe candle = pe_account_id pe @ '':'' @ pe_symbol pe @ '':close:'' @ isoformat (c_time candle)"

definition maybe_exit ::
  "paper_engine \<Rightarrow> paper_env \<Rightarrow> position \<Rightarrow> candle
   \<Rightarrow> (pyfloat option \<times> exit_reason option \<times> pyfloat option) paper_run" where
  "maybe_exit pe env pos candle =
     (case exit_trigger pos candle of
        None \<Rightarrow> (pe, Inr (None, None, None))
      | Some (trigger_price, exit_reason) \<Rightarrow>
          and_then (quote_symbol pe trigger_price) (\<lambda>pe _.
          and_then (market_order pe (en_order_id env) (exit_key pe candle) (if is_long pos then SHORT else LONG)
                      \<bar>p_quantity pos\<bar>) (\<lambda>pe (oid, created).
            let pnl = position_pnl pe - p_realized_pnl pos;
                pe = pe\<lparr>pe_window := book_pnl (pe_window pe) pnl\<rparr>
            in case get_order (ex_orders (pe_exec pe)) oid of
                 None \<Rightarrow> (pe, Inl TypeError)
               | Some final_order \<Rightarrow> (pe, Inr (Some pnl, Some exit_reason, o_average_fill_price final_order)))))"

subsection \<open>Entering\<close>

definition gross_notional :: "position list \<Rightarrow> pyfloat" where
  "gross_notional ps = pysum (map (\<lambda>p. \<bar>p_quantity p\<bar> * p_average_price p) ps)"

definition elsewhere_of :: "paper_engine \<Rightarrow> paper_env \<Rightarrow> py_error + (string, pyfloat) dict" where
  "elsewhere_of pe env =
     (case (en_db env, pe_source_key pe) of (Some db, Some _) \<Rightarrow> pd_elsewhere db | _ \<Rightarrow> Inr [])"

definition merge_notional :: "string \<Rightarrow> (string, pyfloat) dict \<Rightarrow> string \<times> pyfloat \<Rightarrow> (string, pyfloat) dict" where
  "merge_notional symbol d item =
     (case item of (other, notional) \<Rightarrow>
        if other \<noteq> symbol
        then dict_put other ((case dict_get d other of None \<Rightarrow> Fin 0 | Some x \<Rightarrow> x) + notional) d else d)"

definition correlated_with :: "paper_engine \<Rightarrow> paper_env \<Rightarrow> (string, pyfloat) dict \<Rightarrow> py_error + pyfloat" where
  "correlated_with pe env notionals =
     (case en_db env of
        None \<Rightarrow> Inr (Fin 0)
      | Some db \<Rightarrow> bind_res (pd_history db) (\<lambda>history.
          compute_correlated_exposure (en_sqr env) (en_rt env) history (pd_symbols db) (pe_symbol pe) (Fin 0)
            notionals (rl_correlation_threshold (re_limits (pe_risk pe))) 100))"

definition price_jump_pct :: "candle list \<Rightarrow> pyfloat" where
  "price_jump_pct candles =
     (let now = c_close (last candles); before = c_close (last (butlast candles))
      in if truthy before then \<bar>now - before\<bar> / before * Fin 100 else Fin 0)"

text \<open>The quantity, and the proposal it is judged by.\<close>

definition entry_quantity :: "paper_engine \<Rightarrow> pyfloat \<Rightarrow> pyfloat \<Rightarrow> pyfloat" where
  "entry_quantity pe entry stop =
     (let lims = re_limits (pe_risk pe)
      in calculate_position_size (ai_balance (get_account (fst (ex_broker (pe_exec pe)))))
           (pymin (rk_risk_percent (sd_risk (pe_strategy pe))) (rl_risk_per_trade_pct lims))
           entry stop (rl_max_position_size lims))"

definition entry_proposal :: "paper_engine \<Rightarrow> paper_env \<Rightarrow> pyfloat \<Rightarrow> pyfloat \<Rightarrow> py_error + trade_proposal" where
  "entry_proposal pe env entry stop =
     (let lims = re_limits (pe_risk pe);
          mb = fst (ex_broker (pe_exec pe));
          ops = open_positions (ex_positions (pe_exec pe)) (pe_account_id pe);
          quantity = entry_quantity pe entry stop
      in bind_res (elsewhere_of pe env) (\<lambda>elsewhere.
         bind_res (correlated_with pe env
                     (foldl (merge_notional (pe_symbol pe)) (signed_notionals_excluding ops (pe_symbol pe)) elsewhere))
           (\<lambda>correlated. Inr
             \<lparr>tp_account_id = pe_account_id pe, tp_strategy_id = pe_strategy_id pe, tp_entry = entry, tp_stop = stop,
              tp_account_balance = ai_balance (get_account mb), tp_open_positions = int (length ops),
              tp_trades_today = rw_trades_today (pe_window pe), tp_daily_pnl = rw_daily_pnl (pe_window pe),
              tp_weekly_pnl = rw_weekly_pnl (pe_window pe),
              tp_current_exposure = gross_notional ops + pysum (map (\<lambda>x. \<bar>snd x\<bar>) elsewhere),
              tp_strategy_allocation = gross_notional
                (filter (\<lambda>p. pe_strategy_id pe \<noteq> None \<and> p_strategy_id p = pe_strategy_id pe) ops),
              tp_market_data_age_seconds = Some (Fin 0), tp_broker_healthy = is_healthy mb,
              tp_repeated_rejections = rw_repeated_rejections (pe_window pe),
              tp_recent_price_jump_pct = price_jump_pct (pe_candles pe), tp_entry_deviation_pct = Fin 0,
              tp_correlated_exposure = correlated,
              tp_liquidity_acceptable = assess_equity_liquidity (map_option pd_history (en_db env)) (pe_symbol pe)
                quantity (rl_max_participation_pct lims) default_volume_window_bars,
              tp_proposed_quantity = Some quantity, tp_is_reducing = False\<rparr>)))"

definition refused :: "evaluation_result \<Rightarrow> risk_result \<Rightarrow> paper_outcome" where
  "refused result decision =
     (only_signal (Some result))
       \<lparr>po_risk_rejected_reason := rr_reason decision,
        po_risk_failed_check := (case failed_checks decision of [] \<Rightarrow> None | c # _ \<Rightarrow> Some (rc_name c)),
        po_risk_checks := Some (dict_of rc_name rc_passed (rr_checks decision))\<rparr>"

definition entry_key :: "paper_engine \<Rightarrow> candle \<Rightarrow> string" where
  "entry_key pe candle = pe_account_id pe @ '':'' @ sd_name (pe_strategy pe) @ '':'' @ isoformat (c_time candle)"

text \<open>What follows the submission of a fresh entry.\<close>

definition note_entry :: "paper_engine \<Rightarrow> order_status \<Rightarrow> pyfloat \<Rightarrow> pyfloat \<Rightarrow> paper_engine" where
  "note_entry pe status stop target =
     (let w = pe_window pe;
          pe = pe\<lparr>pe_window := w\<lparr>rw_trades_today := rw_trades_today w + 1,
                 rw_repeated_rejections := (if status = REJECTED then rw_repeated_rejections w + 1 else 0)\<rparr>\<rparr>
      in with_positions pe
           (set_position (ex_positions (pe_exec pe)) (pe_account_id pe) (pe_symbol pe)
              (\<lambda>p. p\<lparr>p_stop := Some stop, p_target := Some target, p_strategy_id := pe_strategy_id pe\<rparr>)))"

definition maybe_enter ::
  "paper_engine \<Rightarrow> paper_env \<Rightarrow> evaluation_result \<Rightarrow> string \<Rightarrow> pyfloat \<Rightarrow> pyfloat \<Rightarrow> pyfloat \<Rightarrow> candle
   \<Rightarrow> paper_outcome paper_run" where
  "maybe_enter pe env result d entry stop target candle =
     (case entry_proposal pe env entry stop of
        Inl e \<Rightarrow> (pe, Inl e)
      | Inr proposal \<Rightarrow>
          let eng = (pe_risk pe)\<lparr>re_kill_switch :=
                       load_kill_switch_state (en_redis env) (Some (pe_account_id pe)) (pe_strategy_id pe)\<rparr>;
              quantity = entry_quantity pe entry stop;
              pe = pe\<lparr>pe_risk := eng\<rparr>;
              decision = evaluate eng proposal
          in if \<not> approved decision then (pe, Inr (refused result decision))
             else and_then (quote_symbol pe entry) (\<lambda>pe _.
                  and_then (market_order pe (en_order_id env) (entry_key pe candle)
                              (if is_bullish d then LONG else SHORT) quantity)
                    (\<lambda>pe (oid, created).
                       let out = (only_signal (Some result))\<lparr>po_order_created := created,
                             po_risk_checks := Some (dict_of rc_name rc_passed (rr_checks decision))\<rparr>
                       in if \<not> created then (pe, Inr out)
                          else case get_order (ex_orders (pe_exec pe)) oid of
                                 None \<Rightarrow> (pe\<lparr>pe_window := (pe_window pe)
                                           \<lparr>rw_trades_today := rw_trades_today (pe_window pe) + 1\<rparr>\<rparr>, Inl TypeError)
                               | Some final_order \<Rightarrow>
                                   (note_entry pe (o_status final_order) stop target,
                                    Inr (out\<lparr>po_order_status := Some (o_status final_order)\<rparr>)))))"

subsection \<open>A candle\<close>

definition exit_outcome ::
  "pyfloat option \<times> exit_reason option \<times> pyfloat option \<Rightarrow> paper_outcome" where
  "exit_outcome x =
     (case x of (pnl, why, price) \<Rightarrow>
        (only_signal None)\<lparr>po_closed_position_pnl := pnl, po_exit_reason := why, po_exit_price := price\<rparr>)"

definition look_for_entry :: "paper_engine \<Rightarrow> paper_env \<Rightarrow> candle \<Rightarrow> paper_outcome paper_run" where
  "look_for_entry pe env candle =
     (if length (pe_candles pe) < 3 then (pe, Inr (only_signal None))
      else case context_at (pe_smc_config pe) (pe_ict_config pe) (sd_timeframe (pe_strategy pe)) (pe_symbol pe)
                  (pe_candles pe) of
             Inl e \<Rightarrow> (pe, Inl e)
           | Inr ctx \<Rightarrow>
               let result = evaluate_strategy (pe_strategy pe) ctx
               in if \<not> er_matched result then (pe, Inr (only_signal (Some result)))
                  else case (er_direction result, er_entry result, er_stop result, er_target result) of
                         (Some d, Some entry, Some stop, Some target) \<Rightarrow>
                           if c_low candle \<le> entry \<and> entry \<le> c_high candle
                           then maybe_enter pe env result d entry stop target candle
                           else (pe, Inr (only_signal (Some result)))
                       | _ \<Rightarrow> (pe, Inl TypeError))"

definition on_candle :: "paper_engine \<Rightarrow> paper_env \<Rightarrow> candle \<Rightarrow> paper_outcome paper_run" where
  "on_candle pe env candle =
     and_then (quote_symbol
                 (pe\<lparr>pe_window := roll_window (pe_window pe) (c_time candle), pe_candles := pe_candles pe @ [candle]\<rparr>)
                 (c_close candle))
       (\<lambda>pe _.
          let pe = with_positions pe
                     (mark_to_market (ex_positions (pe_exec pe)) (pe_account_id pe) (pe_symbol pe) (c_close candle))
          in case get_position (ex_positions (pe_exec pe)) (pe_account_id pe) (pe_symbol pe) of
               Some pos \<Rightarrow>
                 if is_open pos
                 then and_then (maybe_exit pe env pos candle) (\<lambda>pe x. (pe, Inr (exit_outcome x)))
                 else look_for_entry pe env candle
             | None \<Rightarrow> look_for_entry pe env candle)"

subsection \<open>The window\<close>

text \<open>What drives one window: the candles of every instrument of the account, in any order, its trades
  and its results.\<close>

datatype window_event = Clock datetime | Traded | Booked pyfloat

fun window_step :: "risk_window \<Rightarrow> window_event \<Rightarrow> risk_window" where
  "window_step w (Clock t) = roll_window w t"
| "window_step w Traded = w\<lparr>rw_trades_today := rw_trades_today w + 1\<rparr>"
| "window_step w (Booked pnl) = book_pnl w pnl"

fun is_traded :: "window_event \<Rightarrow> bool" where
  "is_traded Traded = True"
| "is_traded _ = False"

fun booked :: "window_event \<Rightarrow> pyfloat list" where
  "booked (Booked pnl) = [pnl]"
| "booked _ = []"

definition clocks_before :: "int \<Rightarrow> window_event list \<Rightarrow> bool" where
  "clocks_before day evs \<longleftrightarrow> (\<forall>t. Clock t \<in> set evs \<longrightarrow> dt_day t < day)"

definition clocks_until :: "int \<Rightarrow> window_event list \<Rightarrow> bool" where
  "clocks_until day evs \<longleftrightarrow> (\<forall>t. Clock t \<in> set evs \<longrightarrow> dt_day t \<le> day)"

lemma roll_week_keeps [simp]:
  "rw_trades_today (roll_week w k) = rw_trades_today w" "rw_daily_pnl (roll_week w k) = rw_daily_pnl w"
  "rw_risk_day (roll_week w k) = rw_risk_day w" "rw_repeated_rejections (roll_week w k) = rw_repeated_rejections w"
  by (simp_all add: roll_week_def split: option.split)

lemma roll_window_day [simp]:
  "rw_risk_day (roll_window w t) = Some (case rw_risk_day w of None \<Rightarrow> dt_day t | Some d \<Rightarrow> max d (dt_day t))"
  by (simp add: roll_window_def roll_day_def max_def split: option.split)

lemma book_pnl_simps [simp]:
  "rw_risk_day (book_pnl w x) = rw_risk_day w" "rw_trades_today (book_pnl w x) = rw_trades_today w"
  "rw_daily_pnl (book_pnl w x) = rw_daily_pnl w + x"
  by (simp_all add: book_pnl_def)

lemma roll_window_within:
  assumes "rw_risk_day w = Some day" "dt_day t \<le> day"
  shows "rw_trades_today (roll_window w t) = rw_trades_today w" "rw_daily_pnl (roll_window w t) = rw_daily_pnl w"
  using assms by (simp_all add: roll_window_def roll_day_def)

lemma window_step_within:
  assumes "rw_risk_day w = Some day" "clocks_until day [ev]"
  shows "rw_risk_day (window_step w ev) = Some day"
    "rw_trades_today (window_step w ev) = rw_trades_today w + (if is_traded ev then 1 else 0)"
    "rw_daily_pnl (window_step w ev) = foldl (+) (rw_daily_pnl w) (booked ev)"
  using assms by (cases ev; simp add: clocks_until_def roll_window_within)+

lemma window_same_day:
  assumes "rw_risk_day w = Some day" "clocks_until day evs"
  shows "rw_risk_day (foldl window_step w evs) = Some day
     \<and> rw_trades_today (foldl window_step w evs) = rw_trades_today w + int (length (filter is_traded evs))
     \<and> rw_daily_pnl (foldl window_step w evs) = foldl (+) (rw_daily_pnl w) (concat (map booked evs))"
  using assms
proof (induction evs arbitrary: w)
  case (Cons ev evs)
  have c: "clocks_until day [ev]" "clocks_until day evs" using Cons.prems(2) by (auto simp: clocks_until_def)
  note step = window_step_within [OF Cons.prems(1) c(1)]
  from Cons.IH [OF step(1) c(2)] show ?case by (simp add: step)
qed simp

lemma window_earlier_day:
  "clocks_before day evs \<Longrightarrow> (\<forall>d. rw_risk_day w = Some d \<longrightarrow> d < day) \<Longrightarrow>
     \<forall>d. rw_risk_day (foldl window_step w evs) = Some d \<longrightarrow> d < day"
proof (induction evs arbitrary: w)
  case (Cons ev evs)
  have c: "clocks_before day [ev]" "clocks_before day evs" using Cons.prems(1) by (auto simp: clocks_before_def)
  have "\<forall>d. rw_risk_day (window_step w ev) = Some d \<longrightarrow> d < day"
    using Cons.prems(2) c(1) by (cases ev) (simp_all add: clocks_before_def split: option.split)
  from Cons.IH [OF c(2) this] show ?case by simp
qed simp

lemma window_marked:
  "rw_risk_day w \<noteq> None \<or> (\<exists>t. Clock t \<in> set evs) \<Longrightarrow> rw_risk_day (foldl window_step w evs) \<noteq> None"
proof (induction evs arbitrary: w)
  case (Cons ev evs)
  have "rw_risk_day (window_step w ev) \<noteq> None \<or> (\<exists>t. Clock t \<in> set evs)"
    using Cons.prems by (cases ev) auto
  from Cons.IH [OF this] show ?case by simp
qed auto

subsection \<open>What an order of the engine is\<close>

lemma and_then_Inr:
  "and_then m k = (pe', Inr b) \<longleftrightarrow> (\<exists>pe a. m = (pe, Inr a) \<and> k pe a = (pe', Inr b))"
  by (auto simp: and_then_def split: prod.splits sum.splits)

text \<open>What no order changes: everything but the broker, the books and the window.\<close>

definition fixed_part :: "paper_engine \<Rightarrow> paper_engine" where
  "fixed_part pe = pe\<lparr>pe_exec := undefined\<rparr>"

lemma fixed_part_simps [simp]:
  "fixed_part (pe\<lparr>pe_exec := st\<rparr>) = fixed_part pe" "fixed_part (with_orders pe om) = fixed_part pe"
  "fixed_part (with_positions pe book) = fixed_part pe"
  by (simp_all add: fixed_part_def with_orders_def with_positions_def)

lemma with_orders_sel [simp]: "ex_orders (pe_exec (with_orders pe om)) = om"
  by (simp add: with_orders_def)

lemma fixed_partD:
  assumes "fixed_part pe = fixed_part pe'"
  shows "pe_account_id pe = pe_account_id pe'" "pe_symbol pe = pe_symbol pe'" "pe_window pe = pe_window pe'"
    "pe_strategy_id pe = pe_strategy_id pe'" "pe_strategy pe = pe_strategy pe'" "pe_risk pe = pe_risk pe'"
    "pe_candles pe = pe_candles pe'"
  using assms by (cases pe; cases pe'; simp add: fixed_part_def)+

lemma quote_symbol_fixed:
  "quote_symbol pe x = (pe', r) \<Longrightarrow> fixed_part pe' = fixed_part pe
     \<and> ex_orders (pe_exec pe') = ex_orders (pe_exec pe) \<and> ex_positions (pe_exec pe') = ex_positions (pe_exec pe)"
  by (auto simp: quote_symbol_def split: sum.splits)

lemma move_order_to_fixed:
  "move_order_to pe oid s = (pe', Inr ()) \<Longrightarrow> fixed_part pe' = fixed_part pe
     \<and> om_evolves (ex_orders (pe_exec pe)) (ex_orders (pe_exec pe'))"
  by (auto simp: move_order_to_def with_orders_def split: sum.splits intro: om_evolves_step om_step.move)

lemma submit_order_fixed:
  "submit_order pe oid = (pe', Inr ()) \<Longrightarrow> fixed_part pe' = fixed_part pe
     \<and> om_evolves (ex_orders (pe_exec pe)) (ex_orders (pe_exec pe'))"
  using submit_evolves [of "pe_exec pe" mock_place oid]
  by (auto simp: submit_order_def split: prod.splits option.splits)

lemma market_order_terms:
  assumes "market_order pe nid key d q = (pe', Inr (oid, created))"
  shows "fixed_part pe' = fixed_part pe"
    and "created \<Longrightarrow> oid = nid \<and> dict_get (om_by_key (ex_orders (pe_exec pe))) key = None
       \<and> (\<exists>ord. get_order (ex_orders (pe_exec pe')) nid = Some ord
            \<and> order_terms ord = (pe_account_id pe, pe_symbol pe, d, MARKET, q, None))"
proof -
  obtain ord new om where c: "create_order (ex_orders (pe_exec pe)) nid key (pe_account_id pe) (pe_symbol pe) d MARKET q None
      = Inr (ord, new, om)"
    using assms by (auto simp: market_order_def split: sum.splits)
  note run = assms [unfolded market_order_def c, simplified, unfolded Let_def]
  have "fixed_part pe' = fixed_part pe \<and> created = new \<and> oid = o_id ord \<and> om_evolves om (ex_orders (pe_exec pe'))"
  proof (cases new)
    case False
    with run show ?thesis by (auto simp: with_orders_def fixed_part_def)
  next
    case True
    with run obtain p1 p2 where steps: "move_order_to (with_orders pe om) (o_id ord) VALIDATING = (p1, Inr ())"
      "move_order_to p1 (o_id ord) RISK_APPROVED = (p2, Inr ())" "submit_order p2 (o_id ord) = (pe', Inr ())"
      and made: "created" "oid = o_id ord"
      by (auto simp: and_then_Inr)
    note s1 = move_order_to_fixed [OF steps(1)] and s2 = move_order_to_fixed [OF steps(2)]
      and s3 = submit_order_fixed [OF steps(3)]
    have "om_evolves om (ex_orders (pe_exec p2))" using s1 s2 by (auto intro: om_evolves_trans)
    then have "om_evolves om (ex_orders (pe_exec pe'))" using s3 by (auto intro: om_evolves_trans)
    with True made s1 s2 s3 show ?thesis by simp
  qed
  then show "fixed_part pe' = fixed_part pe" by blast
  assume created
  with create_order_cases [OF c] \<open>_ \<and> created = new \<and> _\<close>
  show "oid = nid \<and> dict_get (om_by_key (ex_orders (pe_exec pe))) key = None
       \<and> (\<exists>ord. get_order (ex_orders (pe_exec pe')) nid = Some ord
            \<and> order_terms ord = (pe_account_id pe, pe_symbol pe, d, MARKET, q, None))"
    using om_evolves_terms [of om "ex_orders (pe_exec pe')" nid ord]
    by (auto simp: restore_order_def get_order_def order_terms_def)
qed

lemma entry_proposal_fields:
  assumes "entry_proposal pe env entry stop = Inr p"
  shows "tp_account_id p = pe_account_id pe" "tp_strategy_id p = pe_strategy_id pe" "tp_entry p = entry" "tp_stop p = stop"
    "tp_trades_today p = rw_trades_today (pe_window pe)" "tp_daily_pnl p = rw_daily_pnl (pe_window pe)"
    "tp_weekly_pnl p = rw_weekly_pnl (pe_window pe)"
    "tp_proposed_quantity p = Some (entry_quantity pe entry stop)"
    "tp_open_positions p = int (length (open_positions (ex_positions (pe_exec pe)) (pe_account_id pe)))"
  using assms by (auto simp: entry_proposal_def Let_def bind_res_Inr)

lemma note_entry_orders [simp]: "ex_orders (pe_exec (note_entry pe s x y)) = ex_orders (pe_exec pe)"
  by (simp add: note_entry_def with_positions_def Let_def)

text \<open>The risk engine as one call of \<open>on_candle\<close> uses it.\<close>

definition gate_now :: "paper_engine \<Rightarrow> paper_env \<Rightarrow> risk_engine" where
  "gate_now pe env =
     \<lparr>re_limits = re_limits (pe_risk pe),
      re_kill_switch = load_kill_switch_state (en_redis env) (Some (pe_account_id pe)) (pe_strategy_id pe)\<rparr>"

lemma maybe_enter_created:
  assumes "maybe_enter pe env result d entry stop target candle = (pe', Inr out)" "po_order_created out"
  shows "\<exists>p ord. entry_proposal pe env entry stop = Inr p \<and> approved (evaluate (gate_now pe env) p)
     \<and> po_signal out = Some result
     \<and> dict_get (om_by_key (ex_orders (pe_exec pe))) (entry_key pe candle) = None
     \<and> get_order (ex_orders (pe_exec pe')) (en_order_id env) = Some ord
     \<and> order_terms ord = (pe_account_id pe, pe_symbol pe, if is_bullish d then LONG else SHORT, MARKET,
          entry_quantity pe entry stop, None)"
proof -
  obtain p where p: "entry_proposal pe env entry stop = Inr p"
    using assms by (auto simp: maybe_enter_def split: sum.splits)
  let ?pe = "pe\<lparr>pe_risk := gate_now pe env\<rparr>"
  have gate: "(pe_risk pe)\<lparr>re_kill_switch := load_kill_switch_state (en_redis env) (Some (pe_account_id pe))
      (pe_strategy_id pe)\<rparr> = gate_now pe env" by (simp add: gate_now_def)
  note run = assms(1) [unfolded maybe_enter_def p Let_def gate, simplified]
  have ok: "approved (evaluate (gate_now pe env) p)"
    using run assms(2) by (auto simp: refused_def only_signal_def split: if_splits)
  with run obtain p1 p2 oid made where
    q: "quote_symbol ?pe entry = (p1, Inr ())"
    and m: "market_order p1 (en_order_id env) (entry_key p1 candle) (if is_bullish d then LONG else SHORT)
        (entry_quantity pe entry stop) = (p2, Inr (oid, made))"
    and fin: "made \<Longrightarrow> \<exists>o'. get_order (ex_orders (pe_exec p2)) oid = Some o' \<and> pe' = note_entry p2 (o_status o') stop target"
    and out: "po_order_created out = made" "po_signal out = Some result"
    by (auto simp: and_then_Inr only_signal_def split: if_splits option.splits prod.splits)
  note f = quote_symbol_fixed [OF q]
  then have same: "pe_account_id p1 = pe_account_id pe" "pe_symbol p1 = pe_symbol pe" "entry_key p1 candle = entry_key pe candle"
    "ex_orders (pe_exec p1) = ex_orders (pe_exec pe)"
    using fixed_partD [of p1 ?pe] by (simp_all add: entry_key_def)
  from out(1) assms(2) have "made" by simp
  with market_order_terms(2) [OF m] fin ok p out(2) show ?thesis by (auto simp: same)
qed

subsection \<open>An exit closes both books\<close>

text \<open>An engine whose simulated broker neither rejects nor fills in part and has no resting stop, and
  whose position book and broker agree.\<close>

definition paper_ok :: "paper_engine \<Rightarrow> bool" where
  "paper_ok pe \<longleftrightarrow> in_step (pe_account_id pe) (pe_exec pe) \<and> book_ok (ex_positions (pe_exec pe))
     \<and> broker_ok (fst (ex_broker (pe_exec pe))) \<and> mb_resting (fst (ex_broker (pe_exec pe))) = []
     \<and> mock_alive (ex_broker (pe_exec pe)) \<and> \<not> Fin 0 < mb_reject_probability (fst (ex_broker (pe_exec pe)))"

lemma set_quote_no_stops:
  assumes "mb_resting mb = []" "broker_ok mb"
  shows "\<exists>mb'. set_quote mb s x bid ask True = Inr mb' \<and> broker_ok mb' \<and> mb_resting mb' = [] \<and> settings mb' = settings mb
     \<and> (\<forall>s'. broker_qty mb' s' = broker_qty mb s')
     \<and> dict_get (mb_quotes mb') s = Some \<lparr>qt_symbol = s, qt_ltp = x, qt_bid = bid, qt_ask = ask\<rparr>"
proof -
  obtain mb' where q: "set_quote mb s x bid ask True = Inr mb'" "broker_ok mb'" "settings mb' = settings mb"
    using set_quote_print [OF assms(2), of s x bid ask] assms(1) by (auto simp: stops_sane_def)
  let ?mb1 = "mb\<lparr>mb_quotes := dict_put s \<lparr>qt_symbol = s, qt_ltp = x, qt_bid = bid, qt_ask = ask\<rparr> (mb_quotes mb)\<rparr>"
  have "mb' = broker_mark (broker_mark ?mb1 s x) s x"
    using q(1) assms(1) by (simp add: set_quote_def trigger_resting_orders_def)
  moreover have "broker_qty ?mb1 s' = broker_qty mb s'" for s' by (simp add: broker_qty_def)
  ultimately show ?thesis using q assms(1) by simp
qed

lemma quote_symbol_ok:
  assumes "paper_ok pe"
  shows "\<exists>pe'. quote_symbol pe x = (pe', Inr ()) \<and> paper_ok pe'
     \<and> mb_slippage_pct (fst (ex_broker (pe_exec pe'))) = mb_slippage_pct (fst (ex_broker (pe_exec pe)))
     \<and> (\<exists>qt. dict_get (mb_quotes (fst (ex_broker (pe_exec pe')))) (pe_symbol pe) = Some qt \<and> qt_ltp qt = x)"
proof -
  let ?mb = "fst (ex_broker (pe_exec pe))"
  obtain mb' where mb': "set_quote ?mb (pe_symbol pe) x None None True = Inr mb'" "broker_ok mb'" "mb_resting mb' = []"
    "settings mb' = settings ?mb" "\<forall>s'. broker_qty mb' s' = broker_qty ?mb s'"
    "dict_get (mb_quotes mb') (pe_symbol pe) = Some \<lparr>qt_symbol = pe_symbol pe, qt_ltp = x, qt_bid = None, qt_ask = None\<rparr>"
    using set_quote_no_stops [of ?mb "pe_symbol pe" x None None] assms by (auto simp: paper_ok_def)
  then show ?thesis using assms
    by (auto simp: quote_symbol_def paper_ok_def in_step_def mock_alive_def settings_def)
qed

lemma market_order_fills:
  assumes ok: "paper_ok pe" and q: "sane_quantity q"
    and unused: "dict_get (om_by_key (ex_orders (pe_exec pe))) key = None"
    and quoted: "dict_get (mb_quotes (fst (ex_broker (pe_exec pe)))) (pe_symbol pe) = Some qt" "qt_ltp qt = Fin v" "0 < v"
    and price: "price = market_fill_price (fst (ex_broker (pe_exec pe))) d v"
  shows "\<exists>pe' ord. market_order pe nid key d q = (pe', Inr (nid, True)) \<and> paper_ok pe' \<and> fixed_part pe' = fixed_part pe
     \<and> ex_positions (pe_exec pe') = apply_fill (ex_positions (pe_exec pe)) (pe_account_id pe) (pe_symbol pe) d q price
     \<and> get_order (ex_orders (pe_exec pe')) nid = Some ord \<and> o_status ord = MONITORING \<and> o_average_fill_price ord = Some price"
proof -
  obtain ord om where c: "create_order (ex_orders (pe_exec pe)) nid key (pe_account_id pe) (pe_symbol pe) d MARKET q None
      = Inr (ord, True, om)"
    using unused by (simp add: create_order_def Let_def)
  have ord: "get_order om nid = Some ord" "o_status ord = CREATED" "o_id ord = nid" "o_quantity ord = q" "o_filled_quantity ord = Fin 0"
    "o_symbol ord = pe_symbol pe" "o_direction ord = d" "o_account_id ord = pe_account_id pe" "o_order_type ord = MARKET"
    using create_order_cases [OF c] by (auto simp: restore_order_def get_order_def)
  define ord1 where "ord1 = move_order ord VALIDATING []"
  define ord2 where "ord2 = move_order ord1 RISK_APPROVED []"
  let ?om1 = "put_order om nid ord1"
  let ?om2 = "put_order ?om1 nid ord2"
  have t1: "transition om nid VALIDATING [] = Inr ?om1"
    using ord by (simp add: transition_def get_order_def put_order_def ord1_def)
  have t2: "transition ?om1 nid RISK_APPROVED [] = Inr ?om2"
    by (simp add: transition_def put_order_def ord2_def, simp add: ord1_def)
  have ord2: "get_order ?om2 nid = Some ord2" "o_status ord2 = RISK_APPROVED" "o_quantity ord2 = q"
    "o_filled_quantity ord2 = Fin 0" "o_symbol ord2 = pe_symbol pe" "o_direction ord2 = d"
    "o_account_id ord2 = pe_account_id pe" "o_order_type ord2 = MARKET"
    using ord by (simp_all add: ord2_def ord1_def)
  define st where "st = (pe_exec pe)\<lparr>ex_orders := ?om2\<rparr>"
  have st: "ex_orders st = ?om2" "ex_broker st = ex_broker (pe_exec pe)" "ex_positions st = ex_positions (pe_exec pe)"
    by (simp_all add: st_def)
  obtain st' ord' where sub: "submit mock_place st nid = (st', None)" "get_order (ex_orders st') nid = Some ord'"
    "o_status ord' = MONITORING" "o_average_fill_price ord' = Some price"
    "ex_positions st' = apply_fill (ex_positions (pe_exec pe)) (pe_account_id pe) (pe_symbol pe) d q price"
    "mb_resting (fst (ex_broker st')) = mb_resting (fst (ex_broker (pe_exec pe)))"
    "mb_reject_probability (fst (ex_broker st')) = mb_reject_probability (fst (ex_broker (pe_exec pe)))"
    using submit_market_fills [of st nid ord2 qt v] ok q quoted ord2 by (auto simp: st paper_ok_def price)
  moreover have "broker_ok (fst (ex_broker st'))" "in_step (pe_account_id pe) st'" "mock_alive (ex_broker st')"
    "book_ok (ex_positions st')"
    using submit_in_step [of ord2 st nid] ok q ord2 sub(1) by (auto simp: st paper_ok_def in_step_def)
  ultimately have "paper_ok (pe\<lparr>pe_exec := st'\<rparr>)" using ok by (simp add: paper_ok_def)
  moreover have "market_order pe nid key d q = (pe\<lparr>pe_exec := st'\<rparr>, Inr (nid, True))"
    using c ord(3) t1 t2 sub(1)
    by (simp add: market_order_def and_then_def move_order_to_def with_orders_def submit_order_def st_def)
  ultimately show ?thesis using sub by fastforce
qed

subsection \<open>A concrete engine\<close>

definition demo_bars :: "candle list" where
  "demo_bars = [demo_candle 225 100 102, demo_candle 240 101 112, demo_candle 255 107 114]"

definition demo_bar :: candle where "demo_bar = demo_candle 270 104 110"

definition demo_dice :: "nat \<Rightarrow> string \<times> dice" where
  "demo_dice n = (''b'', \<lparr>dice_reject = Fin 0, dice_partial = Fin 0, dice_fraction = Fin 0\<rparr>)"

definition demo_paper :: paper_engine where
  "demo_paper =
     \<lparr>pe_source_key = None, pe_strategy = gap_strategy, pe_strategy_id = Some ''s1'', pe_symbol = ''A'',
      pe_account_id = ''acc'', pe_candles = demo_bars,
      pe_smc_config = \<lparr>sc_swing_length = 3, sc_equal_level_tolerance_pct = Fin 0, sc_fvg_min_gap_pct = Fin 0,
        sc_order_block_lookback = 10, sc_detect_daily_levels = False, sc_detect_weekly_levels = False\<rparr>,
      pe_ict_config = \<lparr>ic_enable_kill_zones = False, ic_enable_opening_range = False, ic_kill_zones = [],
        ic_session_open_utc = 0, ic_opening_range_minutes = 15\<rparr>,
      pe_risk = new_risk_engine None None,
      pe_exec = \<lparr>ex_broker = (new_mock_broker (Fin 100000) (Fin 0) (Fin 0) (Fin 0), demo_dice),
        ex_orders = empty_manager, ex_positions = []\<rparr>,
      pe_window = new_window\<rparr>"

definition demo_env :: paper_env where
  "demo_env = \<lparr>en_redis = [], en_db = None, en_order_id = 7, en_sqr = (\<lambda>v. Inr (v * v)), en_rt = py_sqrt\<rparr>"

definition held_position :: position where
  "held_position = (new_position ''acc'' ''A'')
     \<lparr>p_quantity := Fin 10, p_average_price := Fin 100, p_stop := Some (Fin 105), p_target := Some (Fin 130)\<rparr>"

definition demo_held :: paper_engine where
  "demo_held = demo_paper\<lparr>pe_exec := (pe_exec demo_paper)
     \<lparr>ex_broker := ((new_mock_broker (Fin 100000) (Fin 0) (Fin 0) (Fin 0))
        \<lparr>mb_positions := [(''A'', \<lparr>bp_symbol = ''A'', bp_quantity = Fin 10, bp_average_price = Fin 100,
                              bp_unrealized_pnl = Fin 0\<rparr>)]\<rparr>, demo_dice),
      ex_positions := [((''acc'', ''A''), held_position)]\<rparr>\<rparr>"

subsection \<open>Properties\<close>

text \<open>C18: the daily counters are those of the newest day seen: whatever order the candles of an
  account's instruments arrive in, once some instrument has reached a day no lagging one hands the
  spent budget back. Trades and results since the first candle of the newest day are all counted,
  those of earlier days are not.\<close>

theorem lagging_clock_keeps_budget:
  assumes "clocks_before (dt_day t) earlier" and "\<exists>u. Clock u \<in> set earlier" and "clocks_until (dt_day t) later"
  shows "let w = foldl window_step new_window (earlier @ [Clock t] @ later)
     in rw_risk_day w = Some (dt_day t)
       \<and> rw_trades_today w = int (length (filter is_traded later))
       \<and> rw_daily_pnl w = foldl (+) (Fin 0) (concat (map booked later))"
proof -
  define v where "v = foldl window_step new_window earlier"
  have "rw_risk_day v \<noteq> None" unfolding v_def using assms(2) by (intro window_marked) simp
  moreover have "\<forall>d. rw_risk_day v = Some d \<longrightarrow> d < dt_day t"
    unfolding v_def using assms(1) by (intro window_earlier_day) (simp_all add: new_window_def)
  ultimately have "rw_risk_day (roll_window v t) = Some (dt_day t)" "rw_trades_today (roll_window v t) = 0"
    "rw_daily_pnl (roll_window v t) = Fin 0"
    by (auto simp: roll_window_def roll_day_def)
  with window_same_day [of "roll_window v t" "dt_day t" later] assms(3) show ?thesis
    by (simp add: v_def Let_def)
qed

definition noon :: "int \<Rightarrow> datetime" where
  "noon day = \<lparr>dt_day = day, dt_us = 43200000000, dt_offset = Some 0\<rparr>"

lemma lagging_clock_keeps_budget_witness:
  "let w = foldl window_step new_window
      [Clock (noon 738944), Traded, Clock (noon 738945), Traded, Booked (Fin (- 500)), Clock (noon 738944), Traded]
   in rw_risk_day w = Some 738945 \<and> rw_trades_today w = 2 \<and> rw_daily_pnl w = Fin (- 500)"
  using lagging_clock_keeps_budget [of "noon 738945" "[Clock (noon 738944), Traded]"
      "[Traded, Booked (Fin (- 500)), Clock (noon 738944), Traded]"]
  by (simp add: clocks_before_def clocks_until_def noon_def Let_def)

text \<open>C19: no paper order without an approval of exactly that order: whenever a candle makes the
  engine submit an entry, the risk engine, with the kill flags of that moment and the counters of
  that day, approved a proposal of the same account, levels and quantity; the entry lies inside the
  candle, on the side the strategy signals, and its key was not used before.\<close>

theorem paper_entry_is_approved:
  assumes "on_candle pe env c = (pe', Inr out)" and "po_order_created out"
  shows "\<exists>result d entry stop p ord. po_signal out = Some result \<and> er_matched result
     \<and> er_direction result = Some d \<and> er_entry result = Some entry \<and> er_stop result = Some stop
     \<and> c_low c \<le> entry \<and> entry \<le> c_high c
     \<and> approved (evaluate (gate_now pe env) p)
     \<and> tp_account_id p = pe_account_id pe \<and> tp_strategy_id p = pe_strategy_id pe
     \<and> tp_entry p = entry \<and> tp_stop p = stop \<and> tp_proposed_quantity p = Some (o_quantity ord)
     \<and> tp_trades_today p = rw_trades_today (roll_window (pe_window pe) (c_time c))
     \<and> tp_daily_pnl p = rw_daily_pnl (roll_window (pe_window pe) (c_time c))
     \<and> dict_get (om_by_key (ex_orders (pe_exec pe))) (entry_key pe c) = None
     \<and> get_order (ex_orders (pe_exec pe')) (en_order_id env) = Some ord
     \<and> o_account_id ord = pe_account_id pe \<and> o_symbol ord = pe_symbol pe
     \<and> o_direction ord = (if is_bullish d then LONG else SHORT)"
proof -
  let ?p0 = "pe\<lparr>pe_window := roll_window (pe_window pe) (c_time c), pe_candles := pe_candles pe @ [c]\<rparr>"
  obtain p1 where q: "quote_symbol ?p0 (c_close c) = (p1, Inr ())"
    using assms(1) by (auto simp: on_candle_def and_then_Inr)
  define p2 where "p2 = with_positions p1
    (mark_to_market (ex_positions (pe_exec p1)) (pe_account_id p1) (pe_symbol p1) (c_close c))"
  have f2: "fixed_part p2 = fixed_part ?p0" "ex_orders (pe_exec p2) = ex_orders (pe_exec pe)"
    using quote_symbol_fixed [OF q] by (simp_all add: p2_def, simp add: with_positions_def)
  have "look_for_entry p2 env c = (pe', Inr out)"
    using assms q by (auto simp: on_candle_def and_then_def p2_def [symmetric] exit_outcome_def only_signal_def Let_def
        split: option.splits if_splits prod.splits sum.splits)
  then obtain result d entry stop target where r: "er_matched result" "er_direction result = Some d"
    "er_entry result = Some entry" "er_stop result = Some stop" "c_low c \<le> entry" "entry \<le> c_high c"
    and enter: "maybe_enter p2 env result d entry stop target c = (pe', Inr out)"
    using assms(2) by (auto simp: look_for_entry_def Let_def only_signal_def split: if_splits sum.splits option.splits)
  have "gate_now p2 env = gate_now pe env" "entry_key p2 c = entry_key pe c"
    using fixed_partD [OF f2(1)] by (simp_all add: gate_now_def entry_key_def)
  with maybe_enter_created [OF enter assms(2)] obtain p ord where
    "entry_proposal p2 env entry stop = Inr p" "approved (evaluate (gate_now pe env) p)" "po_signal out = Some result"
    "dict_get (om_by_key (ex_orders (pe_exec pe))) (entry_key pe c) = None"
    "get_order (ex_orders (pe_exec pe')) (en_order_id env) = Some ord"
    "order_terms ord = (pe_account_id p2, pe_symbol p2, if is_bullish d then LONG else SHORT, MARKET,
       entry_quantity p2 entry stop, None)"
    by (auto simp: f2(2))
  with r fixed_partD [OF f2(1)] entry_proposal_fields [of p2 env entry stop p] show ?thesis
    by (auto simp: order_terms_def)
qed

lemma paper_entry_is_approved_witness:
  "\<exists>pe' out p. on_candle demo_paper demo_env demo_bar = (pe', Inr out) \<and> po_order_created out
     \<and> approved (evaluate (gate_now demo_paper demo_env) p) \<and> tp_account_id p = ''acc''"
proof -
  have "case on_candle demo_paper demo_env demo_bar of (pe', Inl e) \<Rightarrow> False | (pe', Inr out) \<Rightarrow> po_order_created out"
    by code_simp
  then obtain pe' out where run: "on_candle demo_paper demo_env demo_bar = (pe', Inr out)" "po_order_created out"
    by (auto split: prod.splits sum.splits)
  from paper_entry_is_approved [OF this] obtain p where
    "approved (evaluate (gate_now demo_paper demo_env) p)" "tp_account_id p = pe_account_id demo_paper" by blast
  with run show ?thesis by (auto simp: demo_paper_def)
qed

text \<open>C20: a touched bracket closes the position, in both books: when a candle reaches the stop or the
  target, the exit is filled whole at that level (slipped), the position and the broker's are exactly
  flat, the profit reported and added to the day's and the week's is the realized one, and the books
  still agree.\<close>

theorem paper_exit_flattens:
  assumes ok: "paper_ok pe"
    and pos: "get_position (ex_positions (pe_exec pe)) (pe_account_id pe) (pe_symbol pe) = Some pos"
      "p_quantity pos = Fin q" "q \<noteq> 0" "representable q"
    and hit: "exit_trigger pos c = Some (Fin v, why)" "0 < v"
    and unused: "dict_get (om_by_key (ex_orders (pe_exec pe))) (exit_key pe c) = None"
  shows "\<exists>pe' pnl pos'. maybe_exit pe env pos c = (pe', Inr (Some pnl, Some why,
        Some (market_fill_price (fst (ex_broker (pe_exec pe))) (if is_long pos then SHORT else LONG) v)))
     \<and> paper_ok pe' \<and> pe_window pe' = book_pnl (pe_window pe) pnl
     \<and> get_position (ex_positions (pe_exec pe')) (pe_account_id pe) (pe_symbol pe) = Some pos'
     \<and> p_quantity pos' = Fin 0 \<and> \<not> is_open pos' \<and> pnl = p_realized_pnl pos' - p_realized_pnl pos
     \<and> broker_qty (fst (ex_broker (pe_exec pe'))) (pe_symbol pe) = Fin 0"
proof -
  let ?d = "if is_long pos then SHORT else LONG"
  obtain p1 qt where q1: "quote_symbol pe (Fin v) = (p1, Inr ())" "paper_ok p1"
    "mb_slippage_pct (fst (ex_broker (pe_exec p1))) = mb_slippage_pct (fst (ex_broker (pe_exec pe)))"
    "dict_get (mb_quotes (fst (ex_broker (pe_exec p1)))) (pe_symbol pe) = Some qt" "qt_ltp qt = Fin v"
    using quote_symbol_ok [OF ok] by blast
  note f1 = quote_symbol_fixed [OF q1(1)]
  have same: "pe_account_id p1 = pe_account_id pe" "pe_symbol p1 = pe_symbol pe" "pe_window p1 = pe_window pe"
    "exit_key p1 c = exit_key pe c" "ex_orders (pe_exec p1) = ex_orders (pe_exec pe)"
    "ex_positions (pe_exec p1) = ex_positions (pe_exec pe)"
    using f1 fixed_partD [of p1 pe] by (simp_all add: exit_key_def)
  define price where "price = market_fill_price (fst (ex_broker (pe_exec pe))) ?d v"
  have "price = market_fill_price (fst (ex_broker (pe_exec p1))) ?d v"
    by (simp add: price_def market_fill_price_def q1(3))
  moreover have "sane_quantity \<bar>p_quantity pos\<bar>"
    using pos(2-4) rnd64_representable [of "\<bar>q\<bar>"] by (auto simp: sane_quantity_def abs_if)
  ultimately obtain p2 ord where m: "market_order p1 (en_order_id env) (exit_key p1 c) ?d \<bar>p_quantity pos\<bar>
      = (p2, Inr (en_order_id env, True))" "paper_ok p2" "fixed_part p2 = fixed_part p1"
    "ex_positions (pe_exec p2) = apply_fill (ex_positions (pe_exec pe)) (pe_account_id pe) (pe_symbol pe) ?d \<bar>p_quantity pos\<bar> price"
    "get_order (ex_orders (pe_exec p2)) (en_order_id env) = Some ord" "o_average_fill_price ord = Some price"
    using market_order_fills [OF q1(2), of "\<bar>p_quantity pos\<bar>" "exit_key p1 c" qt v price ?d "en_order_id env"] q1 hit(2) unused
    by (auto simp: same)
  define pos' where "pos' = fill_position pos ?d \<bar>p_quantity pos\<bar> price"
  have p': "get_position (ex_positions (pe_exec p2)) (pe_account_id pe) (pe_symbol pe) = Some pos'"
    unfolding m(4) by (simp add: apply_fill_get pos(1) pos'_def)
  have flat: "p_quantity pos' = Fin 0"
    using pos(2,3) by (auto simp: pos'_def fill_position_quantity signed_quantity_def is_long_def abs_if)
  have same2: "pe_account_id p2 = pe_account_id pe" "pe_symbol p2 = pe_symbol pe" "pe_window p2 = pe_window pe"
    using fixed_partD [OF m(3)] same by simp_all
  define pnl where "pnl = p_realized_pnl pos' - p_realized_pnl pos"
  let ?pe' = "p2\<lparr>pe_window := book_pnl (pe_window p2) pnl\<rparr>"
  have "maybe_exit pe env pos c = (?pe', Inr (Some pnl, Some why, Some price))"
    using hit(1) q1(1) m(1,5,6) p' same2
    by (simp add: maybe_exit_def and_then_def position_pnl_def pnl_def Let_def)
  moreover have "paper_ok ?pe'" using m(2) by (simp add: paper_ok_def)
  moreover have "broker_qty (fst (ex_broker (pe_exec p2))) (pe_symbol pe) = Fin 0"
    using m(2) p' flat same2 by (simp add: paper_ok_def in_step_def local_qty_def)
  moreover have "\<not> is_open pos'" using flat by (simp add: is_open_def py_eq_def)
  ultimately show ?thesis using p' flat same2 pnl_def unfolding price_def by fastforce
qed

lemma paper_exit_flattens_witness:
  "\<exists>pe' pnl pos'. maybe_exit demo_held demo_env held_position demo_bar
       = (pe', Inr (Some pnl, Some Stop_loss, Some (Fin 105)))
     \<and> get_position (ex_positions (pe_exec pe')) ''acc'' ''A'' = Some pos' \<and> p_quantity pos' = Fin 0"
proof -
  have "in_step ''acc'' (pe_exec demo_held)"
    by (auto simp: in_step_def demo_held_def broker_qty_def local_qty_def get_position_def held_position_def dict_get_Cons)
  moreover have "book_ok (ex_positions (pe_exec demo_held))"
    by (auto simp: demo_held_def book_ok_def dict_ok_def held_position_def dict_get_Cons split: if_splits)
  moreover have "broker_ok (fst (ex_broker (pe_exec demo_held)))"
    by (auto simp: demo_held_def broker_ok_def new_mock_broker_def dict_ok_def py_eq_def dict_get_Cons split: if_splits)
  ultimately have ok: "paper_ok demo_held"
    by (simp add: paper_ok_def, simp add: demo_held_def demo_paper_def new_mock_broker_def mock_alive_def)
  have pos: "get_position (ex_positions (pe_exec demo_held)) (pe_account_id demo_held) (pe_symbol demo_held) = Some held_position"
    by (simp add: demo_held_def demo_paper_def get_position_def dict_get_Cons)
  have q: "p_quantity held_position = Fin 10" by (simp add: held_position_def)
  have hit: "exit_trigger held_position demo_bar = Some (Fin 105, Stop_loss)" by code_simp
  have price: "market_fill_price (fst (ex_broker (pe_exec demo_held))) (if is_long held_position then SHORT else LONG) 105 = Fin 105"
    by code_simp
  have key: "dict_get (om_by_key (ex_orders (pe_exec demo_held))) (exit_key demo_held demo_bar) = None"
    by (simp add: demo_held_def demo_paper_def empty_manager_def)
  have ids: "pe_account_id demo_held = ''acc''" "pe_symbol demo_held = ''A''"
    by (simp_all add: demo_held_def demo_paper_def)
  show ?thesis
    using paper_exit_flattens [OF ok pos q _ _ hit _ key, of demo_env] unfolding price ids
    by (auto simp: representable_numeral)
qed

text \<open>An exit the broker rejects is still reported as a close, at a profit of zero and with a reason,
  although the position is open as before.\<close>

lemma rejected_exit_reported_closed:
  "case maybe_exit (demo_held\<lparr>pe_exec := (pe_exec demo_held)\<lparr>ex_broker :=
        ((fst (ex_broker (pe_exec demo_held)))\<lparr>mb_reject_probability := Fin 1\<rparr>, demo_dice)\<rparr>\<rparr>)
      demo_env held_position demo_bar of
     (pe', Inr x) \<Rightarrow> x = (Some (Fin 0), Some Stop_loss, None)
       \<and> map_option p_quantity (get_position (ex_positions (pe_exec pe')) ''acc'' ''A'') = Some (Fin 10)
   | (pe', Inl e) \<Rightarrow> False"
  by code_simp

end
