(* ===== verification/ProtectiveStops.thy ===== *)
theory ProtectiveStops
  imports Execution
begin

text \<open>
  Broker-side protective stops (\<open>trading/protective_stops.py\<close>). The broker's three calls are
  arguments, each answering \<open>Inl\<close> when it raises; \<open>cancel_order\<close> and \<open>get_orders\<close> failures
  are caught, a \<open>place_order\<close> that raises propagates. The fresh \<open>uuid4()\<close> in the
  idempotency key is an argument; a problem is its kind and the broker's reason, the text the
  user sees being fixed by them.
\<close>

subsection \<open>The operations\<close>

datatype stop_problem =
    Cancel_unconfirmed string "string option"
  | Stop_unanswered string pyfloat string
  | Stop_refused string pyfloat string

record stop_result =
  sr_order_id :: "string option"
  sr_problem :: "stop_problem option"
  sr_fate_unknown :: bool

definition no_stop :: stop_result where
  "no_stop = \<lparr>sr_order_id = None, sr_problem = None, sr_fate_unknown = False\<rparr>"

definition is_unprotected :: "stop_result \<Rightarrow> bool" where
  "is_unprotected r \<longleftrightarrow> sr_problem r \<noteq> None"

definition settled_statuses :: "order_status set" where
  "settled_statuses = {FILLED, CANCELLED, REJECTED, EXPIRED, CLOSED}"

record 'b broker_calls =
  bc_cancel :: "'b \<Rightarrow> string \<Rightarrow> (py_error + order_result) \<times> 'b"
  bc_orders :: "'b \<Rightarrow> py_error + broker_order list"
  bc_place :: "'b \<Rightarrow> order_request \<Rightarrow> (py_error + order_result) \<times> 'b"

definition is_no_longer_resting :: "'b broker_calls \<Rightarrow> 'b \<Rightarrow> string \<Rightarrow> bool" where
  "is_no_longer_resting calls b order_id =
     (case bc_orders calls b of
        Inl _ \<Rightarrow> False
      | Inr orders \<Rightarrow>
          (case find (\<lambda>bo. bo_broker_order_id bo = order_id) orders of
             Some bo \<Rightarrow> bo_status bo \<in> settled_statuses
           | None \<Rightarrow> True))"

definition cancel_protective_stop ::
  "'b broker_calls \<Rightarrow> 'b \<Rightarrow> position \<Rightarrow> bool \<times> 'b \<times> position" where
  "cancel_protective_stop calls b pos =
     (case p_protective_order_id pos of
        None \<Rightarrow> (True, b, pos)
      | Some order_id \<Rightarrow>
          (case bc_cancel calls b order_id of
             (Inl _, b') \<Rightarrow>
               if \<not> is_no_longer_resting calls b' order_id then (False, b', pos)
               else (True, b', pos\<lparr>p_protective_order_id := None\<rparr>)
           | (Inr _, b') \<Rightarrow> (True, b', pos\<lparr>p_protective_order_id := None\<rparr>)))"

definition stop_request :: "string \<Rightarrow> position \<Rightarrow> pyfloat \<Rightarrow> order_request" where
  "stop_request key_id pos stop =
     \<lparr>rq_idempotency_key = ''protective:'' @ p_account_id pos @ '':'' @ p_symbol pos @ '':'' @ key_id,
      rq_symbol = p_symbol pos, rq_direction = (if is_long pos then SHORT else LONG),
      rq_order_type = SL_M, rq_quantity = \<bar>p_quantity pos\<bar>, rq_price = None,
      rq_trigger_price = Some stop\<rparr>"

definition reason_or :: "string option \<Rightarrow> string" where
  "reason_or reason = or_default reason ''no reason given''"

definition place_stop ::
  "'b broker_calls \<Rightarrow> string \<Rightarrow> 'b \<Rightarrow> position \<Rightarrow> pyfloat \<Rightarrow> (py_error + stop_result) \<times> 'b \<times> position" where
  "place_stop calls key_id b pos stop =
     (case bc_place calls b (stop_request key_id pos stop) of
        (Inl e, b') \<Rightarrow> (Inl e, b', pos)
      | (Inr res, b') \<Rightarrow>
          if rs_status res = FAILED then
            (Inr \<lparr>sr_order_id = None,
                  sr_problem = Some (Stop_unanswered (p_symbol pos) stop (reason_or (rs_rejection_reason res))),
                  sr_fate_unknown = True\<rparr>, b', pos)
          else if rs_status res = REJECTED then
            (Inr \<lparr>sr_order_id = None,
                  sr_problem = Some (Stop_refused (p_symbol pos) stop (reason_or (rs_rejection_reason res))),
                  sr_fate_unknown = False\<rparr>, b', pos)
          else
            (Inr \<lparr>sr_order_id = Some (rs_broker_order_id res), sr_problem = None, sr_fate_unknown = False\<rparr>,
             b', pos\<lparr>p_protective_order_id := Some (rs_broker_order_id res)\<rparr>))"

definition ensure_protective_stop ::
  "'b broker_calls \<Rightarrow> string \<Rightarrow> 'b \<Rightarrow> position \<Rightarrow> (py_error + stop_result) \<times> 'b \<times> position" where
  "ensure_protective_stop calls key_id b pos =
     (case cancel_protective_stop calls b pos of
        (False, b1, pos1) \<Rightarrow>
          (Inr \<lparr>sr_order_id = None,
                sr_problem = Some (Cancel_unconfirmed (p_symbol pos1) (p_protective_order_id pos1)),
                sr_fate_unknown = True\<rparr>, b1, pos1)
      | (True, b1, pos1) \<Rightarrow>
          (case (is_open pos1, p_stop pos1) of
             (True, Some stop) \<Rightarrow> place_stop calls key_id b1 pos1 stop
           | _ \<Rightarrow> (Inr no_stop, b1, pos1)))"

subsection \<open>The calls of the in-memory broker\<close>

definition mock_calls :: "mock_session broker_calls" where
  "mock_calls =
     \<lparr>bc_cancel = (\<lambda>b i. case cancel_order (fst b) i of
                      Inl e \<Rightarrow> (Inl e, b) | Inr (res, mb) \<Rightarrow> (Inr res, (mb, snd b))),
      bc_orders = (\<lambda>b. Inr (get_orders (fst b))),
      bc_place = (\<lambda>b rq. case mock_place b rq of
                      Inl e \<Rightarrow> (Inl e, b) | Inr (res, b') \<Rightarrow> (Inr res, b'))\<rparr>"

subsection \<open>Lemmas\<close>

lemma cancel_cases:
  assumes "cancel_protective_stop calls b pos = (ok, b', pos')"
  shows "(ok \<longrightarrow> pos' = pos\<lparr>p_protective_order_id := None\<rparr>)
     \<and> (\<not> ok \<longrightarrow> pos' = pos \<and> p_protective_order_id pos \<noteq> None)"
  using assms
  by (auto simp: cancel_protective_stop_def split: option.splits prod.splits sum.splits if_splits)

lemma ensure_cancelled:
  assumes "cancel_protective_stop calls b pos = (True, b1, pos1)"
  shows "ensure_protective_stop calls key b pos =
     (case p_stop pos of
        Some stop \<Rightarrow> if is_open pos then place_stop calls key b1 pos1 stop else (Inr no_stop, b1, pos1)
      | None \<Rightarrow> (Inr no_stop, b1, pos1))"
    and "stop_request key pos1 x = stop_request key pos x"
proof -
  have p: "pos1 = pos\<lparr>p_protective_order_id := None\<rparr>" using cancel_cases [OF assms] by simp
  show "stop_request key pos1 x = stop_request key pos x"
    by (simp add: p is_long_def stop_request_def)
  have "is_open pos1 = is_open pos" "p_stop pos1 = p_stop pos" by (simp_all add: p is_open_def)
  then show "ensure_protective_stop calls key b pos =
     (case p_stop pos of
        Some stop \<Rightarrow> if is_open pos then place_stop calls key b1 pos1 stop else (Inr no_stop, b1, pos1)
      | None \<Rightarrow> (Inr no_stop, b1, pos1))"
    by (auto simp: ensure_protective_stop_def assms split: option.splits)
qed

lemma placed_cases:
  assumes "place_stop calls key b pos stop = (Inr res, b', pos')" and "\<not> is_unprotected res"
  obtains answer where "bc_place calls b (stop_request key pos stop) = (Inr answer, b')"
    "rs_status answer \<notin> {FAILED, REJECTED}"
    "sr_order_id res = Some (rs_broker_order_id answer)"
    "p_protective_order_id pos' = Some (rs_broker_order_id answer)"
  using assms that
  by (auto simp: place_stop_def is_unprotected_def split: sum.splits prod.splits if_splits)

subsection \<open>Properties\<close>

text \<open>Never two stops against one position: if the broker did not confirm that the previous
  stop is gone, nothing is placed, the position keeps the only handle on that order and the
  result says so; in particular \<open>place_order\<close> is called only when the old stop is verifiably
  not resting.\<close>

theorem unconfirmed_cancel_places_nothing:
  assumes "p_protective_order_id pos = Some i" and "bc_cancel calls b i = (Inl e, b1)"
    and "\<And>orders. bc_orders calls b1 = Inr orders \<Longrightarrow>
       \<exists>bo. find (\<lambda>bo. bo_broker_order_id bo = i) orders = Some bo
          \<and> bo_status bo \<in> {SUBMITTED, ACKNOWLEDGED, PARTIALLY_FILLED}"
  shows "\<exists>res. ensure_protective_stop calls key b pos = (Inr res, b1, pos)
     \<and> is_unprotected res \<and> sr_fate_unknown res \<and> sr_order_id res = None"
proof -
  have "\<not> is_no_longer_resting calls b1 i"
    using assms(3) by (cases "bc_orders calls b1") (auto simp: is_no_longer_resting_def settled_statuses_def)
  then have "cancel_protective_stop calls b pos = (False, b1, pos)"
    using assms(1,2) by (simp add: cancel_protective_stop_def)
  then show ?thesis by (simp add: ensure_protective_stop_def is_unprotected_def)
qed

definition silent_broker :: "unit broker_calls" where
  "silent_broker = \<lparr>bc_cancel = (\<lambda>b i. (Inl (BrokerError ''timeout''), b)),
     bc_orders = (\<lambda>b. Inl (BrokerError ''timeout'')), bc_place = (\<lambda>b r. (Inl (BrokerError ''timeout''), b))\<rparr>"

lemma unconfirmed_cancel_places_nothing_witness:
  "\<exists>res. ensure_protective_stop silent_broker ''k'' ()
       ((new_position ''acc'' ''INFY'')\<lparr>p_protective_order_id := Some ''b1''\<rparr>)
     = (Inr res, (), (new_position ''acc'' ''INFY'')\<lparr>p_protective_order_id := Some ''b1''\<rparr>)
     \<and> sr_fate_unknown res"
  using unconfirmed_cancel_places_nothing [of "(new_position ''acc'' ''INFY'')\<lparr>p_protective_order_id := Some ''b1''\<rparr>"
      "''b1''" silent_broker "()" "BrokerError ''timeout''" "()" "''k''"]
  by (auto simp: silent_broker_def)

text \<open>C13: a result that reports no problem tells the truth: the position then holds exactly the
  order the broker just accepted, an SL-M for its whole size on the closing side at its stop,
  or it wanted none (flat, or no stop price) and holds none.\<close>

theorem no_problem_means_protected:
  assumes "ensure_protective_stop calls key b pos = (Inr res, b', pos')" and "\<not> is_unprotected res"
  shows "(is_open pos \<and> p_stop pos \<noteq> None \<and>
       (\<exists>b1 answer. bc_place calls b1 (stop_request key pos (the (p_stop pos))) = (Inr answer, b')
          \<and> rs_status answer \<notin> {FAILED, REJECTED}
          \<and> sr_order_id res = Some (rs_broker_order_id answer)
          \<and> p_protective_order_id pos' = Some (rs_broker_order_id answer))
       \<and> rq_quantity (stop_request key pos (the (p_stop pos))) = \<bar>p_quantity pos\<bar>
       \<and> rq_trigger_price (stop_request key pos (the (p_stop pos))) = p_stop pos
       \<and> rq_direction (stop_request key pos (the (p_stop pos))) = (if is_long pos then SHORT else LONG))
     \<or> ((\<not> is_open pos \<or> p_stop pos = None) \<and> sr_order_id res = None \<and> p_protective_order_id pos' = None)"
proof -
  obtain ok b1 pos1 where c: "cancel_protective_stop calls b pos = (ok, b1, pos1)" by (rule prod_cases3)
  have ok: ok
    using assms c by (cases ok) (auto simp: ensure_protective_stop_def is_unprotected_def)
  have p1: "p_protective_order_id pos1 = None" using cancel_cases [OF c] ok by simp
  from assms(1) have run: "ensure_protective_stop calls key b pos = (Inr res, b', pos')" .
  show ?thesis
  proof (cases "is_open pos \<and> p_stop pos \<noteq> None")
    case False
    then have "ensure_protective_stop calls key b pos = (Inr no_stop, b1, pos1)"
      using ensure_cancelled(1) [of calls b pos b1 pos1 key] c ok by (auto split: option.splits)
    with run False p1 show ?thesis by (auto simp: no_stop_def)
  next
    case True
    then obtain stop where stop: "p_stop pos = Some stop" by auto
    with True c ok run have "place_stop calls key b1 pos1 stop = (Inr res, b', pos')"
      using ensure_cancelled(1) [of calls b pos b1 pos1 key] by simp
    then obtain answer where "bc_place calls b1 (stop_request key pos1 stop) = (Inr answer, b')"
      "rs_status answer \<notin> {FAILED, REJECTED}" "sr_order_id res = Some (rs_broker_order_id answer)"
      "p_protective_order_id pos' = Some (rs_broker_order_id answer)"
      using assms(2) by (rule placed_cases)
    moreover have "stop_request key pos1 stop = stop_request key pos stop"
      using ensure_cancelled(2) c ok by simp
    ultimately have "\<exists>b1 answer. bc_place calls b1 (stop_request key pos stop) = (Inr answer, b')
        \<and> rs_status answer \<notin> {FAILED, REJECTED}
        \<and> sr_order_id res = Some (rs_broker_order_id answer)
        \<and> p_protective_order_id pos' = Some (rs_broker_order_id answer)" by metis
    with True stop show ?thesis by (simp add: stop_request_def)
  qed
qed

definition long_position :: position where
  "long_position = (new_position ''acc'' ''INFY'')\<lparr>p_quantity := Fin 100, p_average_price := Fin 100,
     p_stop := Some (Fin 95)\<rparr>"

definition fresh_session :: mock_session where
  "fresh_session = (new_mock_broker (Fin 100000) (Fin 0) (Fin 0) (Fin 0),
     \<lambda>n. (''b1'', \<lparr>dice_reject = Fin 0, dice_partial = Fin 0, dice_fraction = Fin 0\<rparr>))"

lemma no_problem_means_protected_witness:
  "\<exists>res b' pos'. ensure_protective_stop mock_calls ''k'' fresh_session long_position = (Inr res, b', pos')
     \<and> \<not> is_unprotected res \<and> p_protective_order_id pos' = Some ''b1''"
proof -
  obtain res b' pos' where run: "ensure_protective_stop mock_calls ''k'' fresh_session long_position = (Inr res, b', pos')"
    and np: "\<not> is_unprotected res" and id: "sr_order_id res = Some ''b1''"
    by (simp add: fresh_session_def ensure_protective_stop_def place_stop_def cancel_protective_stop_def long_position_def new_position_def
        is_open_def py_eq_def mock_calls_def mock_place_def mock_place_order_def roll_def new_mock_broker_def
        stop_request_def rest_stop_def Let_def record_order_def order_of_def is_unprotected_def)
  from no_problem_means_protected [OF run np] id run np show ?thesis by auto
qed

end
