(* ===== verification/TradeLock.thy ===== *)
theory TradeLock
  imports Prelude PyText
begin

text \<open>
  What the processes share through Redis (\<open>core/redis.py\<close>, \<open>core/rate_limit.py\<close>): the lock that
  serialises trading on an account across processes, and the rate limiter. Redis is a service:
  the commands the code sends are arguments of the definitions, and the locale \<open>redis_keys\<close>
  states their documented behaviour; \<open>redis_keys\<close> is interpreted on an executable store of keys
  that expire. Times are milliseconds. Proved: a lease is exclusive until it expires or its own
  token releases it, acquiring answers within its wait, a window admits at most its limit, and a
  client cannot choose the address it is limited under.
\<close>

subsection \<open>The commands\<close>

text \<open>\<open>get s now k\<close> reads a live key, \<open>set_nx\<close> sets a free one with a lifetime, \<open>del\<close> removes one.\<close>

locale redis_keys =
  fixes get :: "'s \<Rightarrow> int \<Rightarrow> string \<Rightarrow> string option"
    and set_nx :: "int \<Rightarrow> string \<Rightarrow> string \<Rightarrow> int \<Rightarrow> 's \<Rightarrow> 's \<times> bool"
    and del :: "int \<Rightarrow> string \<Rightarrow> 's \<Rightarrow> 's"
  assumes set_nx_free: "get s now k = None \<Longrightarrow> now \<le> t \<Longrightarrow>
      snd (set_nx now k v px s)
      \<and> get (fst (set_nx now k v px s)) t k' = (if k' = k then (if t < now + px then Some v else None) else get s t k')"
    and set_nx_busy: "get s now k \<noteq> None \<Longrightarrow> set_nx now k v px s = (s, False)"
    and get_del: "now \<le> t \<Longrightarrow> get (del now k s) t k' = (if k' = k then None else get s t k')"
begin

lemma set_nx_other:
  assumes "k' \<noteq> k" "now \<le> t"
  shows "get (fst (set_nx now k v px s)) t k' = get s t k'"
  using assms set_nx_free [of s now k t v px k'] set_nx_busy [of s now k v px]
  by (cases "get s now k") auto

end

subsection \<open>The trade lock\<close>

definition trade_lock_key :: "string \<Rightarrow> string" where
  "trade_lock_key account_id = ''tradelock:account:'' @ account_id"

definition TRADE_LOCK_TTL_MS :: int where
  "TRADE_LOCK_TTL_MS = 8 * 1000"

definition TRADE_LOCK_WAIT_MS :: int where
  "TRADE_LOCK_WAIT_MS = 8 * 1000"

definition LOCK_POLL_MS :: int where
  "LOCK_POLL_MS = 50"

definition try_lock ::
  "(int \<Rightarrow> string \<Rightarrow> string \<Rightarrow> int \<Rightarrow> 's \<Rightarrow> 's \<times> bool) \<Rightarrow> int \<Rightarrow> string \<Rightarrow> string \<Rightarrow> 's \<Rightarrow> 's \<times> bool" where
  "try_lock set_nx now account_id token s = set_nx now (trade_lock_key account_id) token TRADE_LOCK_TTL_MS s"

text \<open>The release script, which Redis runs as one step.\<close>

definition release_trade_lock ::
  "('s \<Rightarrow> int \<Rightarrow> string \<Rightarrow> string option) \<Rightarrow> (int \<Rightarrow> string \<Rightarrow> 's \<Rightarrow> 's) \<Rightarrow> int \<Rightarrow> string \<Rightarrow> string \<Rightarrow> 's \<Rightarrow> 's" where
  "release_trade_lock get del now account_id token s =
     (if get s now (trade_lock_key account_id) = Some token then del now (trade_lock_key account_id) s else s)"

text \<open>
  The polling loop. While it sleeps other processes change the store, by \<open>others\<close>, and the sleep
  takes \<open>late\<close> milliseconds more than asked.
\<close>

function acquire_loop ::
  "(int \<Rightarrow> string \<Rightarrow> string \<Rightarrow> int \<Rightarrow> 's \<Rightarrow> 's \<times> bool) \<Rightarrow> (int \<Rightarrow> 's \<Rightarrow> 's) \<Rightarrow> (int \<Rightarrow> nat) \<Rightarrow> string \<Rightarrow> string \<Rightarrow> int
     \<Rightarrow> int \<Rightarrow> 's \<Rightarrow> 's \<times> int \<times> string option" where
  "acquire_loop set_nx others late account_id token deadline now s =
     (case try_lock set_nx now account_id token s of
        (s, True) \<Rightarrow> (s, now, Some token)
      | (s, False) \<Rightarrow>
          if deadline \<le> now then (s, now, None)
          else acquire_loop set_nx others late account_id token deadline
                 (now + LOCK_POLL_MS + int (late now)) (others now s))"
  by pat_completeness auto
termination
  by (relation "measure (\<lambda>(set_nx, others, late, account_id, token, deadline, now, s). nat (deadline + LOCK_POLL_MS - now))")
     (auto simp: LOCK_POLL_MS_def)

declare acquire_loop.simps [simp del]

definition acquire_trade_lock ::
  "(int \<Rightarrow> string \<Rightarrow> string \<Rightarrow> int \<Rightarrow> 's \<Rightarrow> 's \<times> bool) \<Rightarrow> (int \<Rightarrow> 's \<Rightarrow> 's) \<Rightarrow> (int \<Rightarrow> nat) \<Rightarrow> string \<Rightarrow> string \<Rightarrow> int option
     \<Rightarrow> int \<Rightarrow> 's \<Rightarrow> 's \<times> int \<times> string option" where
  "acquire_trade_lock set_nx others late account_id token wait now s =
     acquire_loop set_nx others late account_id token
       (now + (case wait of None \<Rightarrow> TRADE_LOCK_WAIT_MS | Some w \<Rightarrow> w)) now s"

text \<open>What the processes send, in the order Redis serves it.\<close>

datatype lock_event =
    TryLock int string string
  | Unlock int string string

fun event_time :: "lock_event \<Rightarrow> int" where
  "event_time (TryLock t a k) = t"
| "event_time (Unlock t a k) = t"

fun lock_step ::
  "('s \<Rightarrow> int \<Rightarrow> string \<Rightarrow> string option) \<Rightarrow> (int \<Rightarrow> string \<Rightarrow> string \<Rightarrow> int \<Rightarrow> 's \<Rightarrow> 's \<times> bool) \<Rightarrow> (int \<Rightarrow> string \<Rightarrow> 's \<Rightarrow> 's)
     \<Rightarrow> lock_event \<Rightarrow> 's \<Rightarrow> 's \<times> bool" where
  "lock_step get set_nx del (TryLock t a k) s = try_lock set_nx t a k s"
| "lock_step get set_nx del (Unlock t a k) s = (release_trade_lock get del t a k s, True)"

definition lock_run ::
  "('s \<Rightarrow> int \<Rightarrow> string \<Rightarrow> string option) \<Rightarrow> (int \<Rightarrow> string \<Rightarrow> string \<Rightarrow> int \<Rightarrow> 's \<Rightarrow> 's \<times> bool) \<Rightarrow> (int \<Rightarrow> string \<Rightarrow> 's \<Rightarrow> 's)
     \<Rightarrow> lock_event list \<Rightarrow> 's \<Rightarrow> 's" where
  "lock_run get set_nx del evs s = foldl (\<lambda>s e. fst (lock_step get set_nx del e s)) s evs"

subsection \<open>The rate limiter\<close>

text \<open>A counter key is its count and the time it expires at, if it has one. The script is one step:
  count, and give a key without a lifetime one.\<close>

type_synonym counter = "int \<times> int option"

definition live_counter :: "int \<Rightarrow> counter option \<Rightarrow> counter option" where
  "live_counter now c =
     (case c of
        None \<Rightarrow> None
      | Some (n, None) \<Rightarrow> Some (n, None)
      | Some (n, Some e) \<Rightarrow> if now < e then Some (n, Some e) else None)"

definition rate_limit_script :: "int \<Rightarrow> int \<Rightarrow> counter option \<Rightarrow> counter" where
  "rate_limit_script now window_ms c =
     (case live_counter now c of
        None \<Rightarrow> (1, Some (now + window_ms))
      | Some (n, None) \<Rightarrow> (n + 1, Some (now + window_ms))
      | Some (n, Some e) \<Rightarrow> (n + 1, Some e))"

definition check_rate_limit ::
  "string \<Rightarrow> int \<Rightarrow> int \<Rightarrow> int \<Rightarrow> (string, counter) dict \<Rightarrow> (string, counter) dict \<times> bool" where
  "check_rate_limit key limit_n window_seconds now db =
     (let redis_key = ''ratelimit:'' @ key;
          c = rate_limit_script now (window_seconds * 1000) (dict_get db redis_key)
      in (dict_put redis_key c db, fst c \<le> limit_n))"

text \<open>\<open>s.split(",")\<close>\<close>

fun split_commas :: "string \<Rightarrow> string list" where
  "split_commas [] = [[]]"
| "split_commas (c # s) =
     (if c = CHR '','' then [] # split_commas s
      else case split_commas s of [] \<Rightarrow> [[c]] | p # ps \<Rightarrow> (c # p) # ps)"

definition forwarded_chain :: "string option \<Rightarrow> string list" where
  "forwarded_chain header =
     filter (\<lambda>p. p \<noteq> []) (map py_strip (split_commas (case header of None \<Rightarrow> [] | Some h \<Rightarrow> h)))"

definition client_ip :: "string option \<Rightarrow> string option \<Rightarrow> int \<Rightarrow> string" where
  "client_ip client_host header trusted_proxy_hops =
     (let peer = (case client_host of None \<Rightarrow> ''unknown'' | Some h \<Rightarrow> h)
      in if trusted_proxy_hops \<le> 0 then peer
         else let chain = forwarded_chain header
              in if int (length chain) < trusted_proxy_hops then peer
                 else chain ! nat (int (length chain) - trusted_proxy_hops))"

datatype rate_answer = Admitted | TooManyRequests | Unavailable

text \<open>The dependency of an endpoint: \<open>db\<close> is absent when Redis cannot be reached.\<close>

definition rate_limit ::
  "bool \<Rightarrow> bool \<Rightarrow> int \<Rightarrow> int \<Rightarrow> int \<Rightarrow> string \<Rightarrow> string option \<Rightarrow> string option \<Rightarrow> int
     \<Rightarrow> (string, counter) dict option \<Rightarrow> (string, counter) dict option \<times> rate_answer" where
  "rate_limit enabled fail_open trusted_proxy_hops limit_n window_seconds key_prefix client_host header now db =
     (if \<not> enabled then (db, Admitted)
      else case db of
        None \<Rightarrow> (None, if fail_open then Admitted else Unavailable)
      | Some d \<Rightarrow>
         (case check_rate_limit (key_prefix @ '':'' @ client_ip client_host header trusted_proxy_hops) limit_n window_seconds now d of
            (d, allowed) \<Rightarrow> (Some d, if allowed then Admitted else TooManyRequests)))"

text \<open>A run of calls for one key, and what the proxy of \<open>infrastructure/nginx\<close> does to the header.\<close>

fun rate_calls ::
  "string \<Rightarrow> int \<Rightarrow> int \<Rightarrow> int list \<Rightarrow> (string, counter) dict \<Rightarrow> (string, counter) dict \<times> bool list" where
  "rate_calls key limit_n window_seconds [] db = (db, [])"
| "rate_calls key limit_n window_seconds (t # ts) db =
     (case check_rate_limit key limit_n window_seconds t db of
        (db, a) \<Rightarrow> (case rate_calls key limit_n window_seconds ts db of (db, as) \<Rightarrow> (db, a # as)))"

definition proxy_add_forwarded :: "string option \<Rightarrow> string \<Rightarrow> string option" where
  "proxy_add_forwarded header observed =
     (case header of None \<Rightarrow> Some observed | Some h \<Rightarrow> Some (h @ '', '' @ observed))"

subsection \<open>A lease is exclusive\<close>

definition own_release :: "string \<Rightarrow> string \<Rightarrow> lock_event \<Rightarrow> bool" where
  "own_release a k e = (case e of Unlock t a' k' \<Rightarrow> a' = a \<and> k' = k | _ \<Rightarrow> False)"

lemma trade_lock_key_inj [simp]: "trade_lock_key a = trade_lock_key b \<longleftrightarrow> a = b"
  by (simp add: trade_lock_key_def)

context redis_keys
begin

text \<open>\<open>k\<close> holds the account's key from \<open>t\<close> until \<open>until\<close>.\<close>

definition held :: "string \<Rightarrow> string \<Rightarrow> int \<Rightarrow> int \<Rightarrow> 's \<Rightarrow> bool" where
  "held a k t until s \<longleftrightarrow> (\<forall>x. t \<le> x \<and> x < until \<longrightarrow> get s x (trade_lock_key a) = Some k)"

lemma held_step:
  assumes h: "held a k t until s" and e: "t \<le> event_time e" "event_time e < until" "\<not> own_release a k e"
  shows "held a k (event_time e) until (fst (lock_step get set_nx del e s))"
proof (cases e)
  case (TryLock u a' k')
  have "get s u (trade_lock_key a) = Some k" using h e TryLock by (simp add: held_def)
  then show ?thesis
    using h e TryLock by (cases "a' = a") (auto simp: held_def try_lock_def set_nx_busy set_nx_other)
next
  case (Unlock u a' k')
  have "get s u (trade_lock_key a) = Some k" using h e Unlock by (simp add: held_def)
  then show ?thesis
    using h e Unlock by (cases "a' = a") (auto simp: held_def release_trade_lock_def own_release_def get_del)
qed

lemma held_run:
  "held a k t until s \<Longrightarrow> sorted (t # map event_time evs) \<Longrightarrow> list_all (\<lambda>e. event_time e < until) evs \<Longrightarrow>
     list_all (\<lambda>e. \<not> own_release a k e) evs \<Longrightarrow>
     held a k (last (t # map event_time evs)) until (lock_run get set_nx del evs s)"
proof (induction evs arbitrary: t s)
  case (Cons e evs)
  have "held a k (event_time e) until (fst (lock_step get set_nx del e s))"
    using Cons.prems by (intro held_step) auto
  from Cons.IH [OF this] Cons.prems show ?case by (simp add: lock_run_def)
qed (simp add: lock_run_def)

lemma acquired_held:
  "snd (try_lock set_nx t a k s) \<Longrightarrow> held a k t (t + TRADE_LOCK_TTL_MS) (fst (try_lock set_nx t a k s))"
  using set_nx_free [of s t "trade_lock_key a"] set_nx_busy [of s t "trade_lock_key a"]
  by (cases "get s t (trade_lock_key a)") (auto simp: held_def try_lock_def)

lemma exclusive:
  assumes got: "snd (try_lock set_nx t a k s)" and order: "sorted (t # map event_time mid @ [t'])"
    and lease: "t' < t + TRADE_LOCK_TTL_MS" and mid: "list_all (\<lambda>e. \<not> own_release a k e) mid"
    and s': "s' = lock_run get set_nx del mid (fst (try_lock set_nx t a k s))"
  shows "try_lock set_nx t' a k' s' = (s', False)
    \<and> get (release_trade_lock get del t' a k s') t' (trade_lock_key a) = None"
proof -
  have "list_all (\<lambda>e. event_time e < t + TRADE_LOCK_TTL_MS) mid" and sorted: "sorted (t # map event_time mid)"
    using order lease by (auto simp: list_all_iff sorted_append)
  with held_run [OF acquired_held [OF got]] mid
  have "held a k (last (t # map event_time mid)) (t + TRADE_LOCK_TTL_MS) s'" by (simp add: s')
  moreover have "last (t # map event_time mid) \<le> t'"
  proof (cases mid rule: rev_cases)
    case Nil
    then show ?thesis using order by simp
  next
    case (snoc ys y)
    then show ?thesis using order by (auto simp: sorted_append)
  qed
  ultimately have "get s' t' (trade_lock_key a) = Some k" using lease by (auto simp: held_def)
  then show ?thesis by (simp add: try_lock_def set_nx_busy release_trade_lock_def get_del)
qed

end

text \<open>The store the laws are discharged on: a key with its value and the time it expires at.\<close>

type_synonym lease_store = "(string, string \<times> int) dict"

definition lease_get :: "lease_store \<Rightarrow> int \<Rightarrow> string \<Rightarrow> string option" where
  "lease_get s now k = (case dict_get s k of None \<Rightarrow> None | Some (v, e) \<Rightarrow> if now < e then Some v else None)"

definition lease_set_nx :: "int \<Rightarrow> string \<Rightarrow> string \<Rightarrow> int \<Rightarrow> lease_store \<Rightarrow> lease_store \<times> bool" where
  "lease_set_nx now k v px s =
     (case lease_get s now k of None \<Rightarrow> (dict_put k (v, now + px) s, True) | Some w \<Rightarrow> (s, False))"

definition lease_del :: "int \<Rightarrow> string \<Rightarrow> lease_store \<Rightarrow> lease_store" where
  "lease_del now k s = dict_pop k s"

interpretation leases: redis_keys lease_get lease_set_nx lease_del
  by unfold_locales (auto simp: lease_get_def lease_set_nx_def lease_del_def split: option.splits)

text \<open>C28: A process that took an account's lock is the only one until its lease runs out or it
  releases it: whatever other processes try or release meanwhile, on this account or others, no
  one else gets the lock, and the holder's own release then frees it.\<close>

theorem lease_is_exclusive:
  assumes "redis_keys get set_nx del" and "snd (try_lock set_nx t a k s)"
    and "sorted (t # map event_time mid @ [t'])" and "t' < t + TRADE_LOCK_TTL_MS"
    and "list_all (\<lambda>e. \<not> own_release a k e) mid"
    and "s' = lock_run get set_nx del mid (fst (try_lock set_nx t a k s))"
  shows "try_lock set_nx t' a k' s' = (s', False)
    \<and> get (release_trade_lock get del t' a k s') t' (trade_lock_key a) = None"
  using assms by (rule redis_keys.exclusive)

lemma lease_is_exclusive_witness:
  "let s = lock_run lease_get lease_set_nx lease_del [TryLock 2000 ''7'' ''b'', Unlock 3000 ''7'' ''b'']
             (fst (try_lock lease_set_nx 1000 ''7'' ''a'' []))
   in try_lock lease_set_nx 4000 ''7'' ''c'' s = (s, False)"
proof -
  have free: "snd (try_lock lease_set_nx 1000 ''7'' ''a'' [])"
    by (simp add: try_lock_def lease_set_nx_def lease_get_def)
  show ?thesis
    unfolding Let_def
    by (rule conjunct1 [OF lease_is_exclusive [OF leases.redis_keys_axioms free _ _ _ refl]])
       (simp_all add: TRADE_LOCK_TTL_MS_def own_release_def)
qed

text \<open>C29: Taking the lock answers: with a sleep never more than \<open>slack\<close> late, no later than one poll
  after the deadline; it gives up only at the deadline, and the token it answers with is the one it set.\<close>

theorem acquire_answers_in_time:
  assumes "\<And>n. int (late n) \<le> slack"
    and "acquire_trade_lock set_nx others late a k wait now s = (s', t, r)"
    and "deadline = now + (case wait of None \<Rightarrow> TRADE_LOCK_WAIT_MS | Some w \<Rightarrow> w)"
  shows "now \<le> t \<and> t \<le> max now (deadline + LOCK_POLL_MS + slack)
    \<and> (case r of None \<Rightarrow> deadline \<le> t | Some token \<Rightarrow> token = k \<and> (\<exists>s0. try_lock set_nx t a k s0 = (s', True)))"
proof -
  have "acquire_loop set_nx others late a k deadline now s = (s', t, r) \<Longrightarrow> (\<And>n. int (late n) \<le> slack) \<Longrightarrow>
      now \<le> t \<and> t \<le> max now (deadline + LOCK_POLL_MS + slack)
      \<and> (case r of None \<Rightarrow> deadline \<le> t | Some token \<Rightarrow> token = k \<and> (\<exists>s0. try_lock set_nx t a k s0 = (s', True)))"
  proof (induction set_nx others late a k deadline now s rule: acquire_loop.induct)
    case (1 set_nx others late a k deadline now s)
    obtain s1 ok where locked: "try_lock set_nx now a k s = (s1, ok)" by force
    show ?case
    proof (cases "ok \<or> deadline \<le> now")
      case True
      then show ?thesis
        using "1.prems" locked
        by (cases ok) (auto simp: acquire_loop.simps [of set_nx others late a k deadline now s] split: if_splits)
    next
      case False
      then have "acquire_loop set_nx others late a k deadline (now + LOCK_POLL_MS + int (late now)) (others now s1) = (s', t, r)"
        using "1.prems" locked by (simp add: acquire_loop.simps [of set_nx others late a k deadline now s])
      with "1.IH" [OF locked [symmetric]] False "1.prems"(2) "1.prems"(2) [of now] show ?thesis
        by (auto simp: LOCK_POLL_MS_def)
    qed
  qed
  with assms show ?thesis by (simp add: acquire_trade_lock_def)
qed

lemma acquire_answers_in_time_witness:
  "let s = [(''tradelock:account:7'', (''b'', 60))];
       (s', t, r) = acquire_trade_lock lease_set_nx (\<lambda>t s. s) (\<lambda>t. 5) ''7'' ''a'' (Some 100) 0 s
   in t = 110 \<and> r = Some ''a'' \<and> t \<le> max 0 (100 + LOCK_POLL_MS + 5)"
proof -
  have run: "acquire_trade_lock lease_set_nx (\<lambda>t s. s) (\<lambda>t. 5) ''7'' ''a'' (Some 100) 0 [(''tradelock:account:7'', (''b'', 60))]
      = ([(''tradelock:account:7'', (''a'', 8110))], 110, Some ''a'')"
    by code_simp
  show ?thesis
    unfolding Let_def run using acquire_answers_in_time [OF _ run, of 5 100] by simp
qed

subsection \<open>A window and its limit\<close>

lemma window_run:
  assumes "dict_get db (''ratelimit:'' @ key) = Some (n, Some e)" and "list_all (\<lambda>t. t < e) ts"
  shows "dict_get (fst (rate_calls key l w ts db)) (''ratelimit:'' @ key) = Some (n + int (length ts), Some e)
    \<and> snd (rate_calls key l w ts db) = map (\<lambda>i. n + int i < l) [0..<length ts]"
  using assms
proof (induction ts arbitrary: db n)
  case (Cons t ts)
  obtain db1 where step: "check_rate_limit key l w t db = (db1, n + 1 \<le> l)"
      "dict_get db1 (''ratelimit:'' @ key) = Some (n + 1, Some e)"
    using Cons.prems by (simp add: check_rate_limit_def rate_limit_script_def live_counter_def)
  have later: "map (\<lambda>i. n + int i < l) [1..<Suc (length ts)] = map (\<lambda>i. n + 1 + int i < l) [0..<length ts]"
    by (simp add: map_Suc_upt [symmetric] o_def algebra_simps del: upt_Suc)
  show ?case
    using Cons.IH [OF step(2)] Cons.prems step(1) later
    by (auto simp: upt_conv_Cons algebra_simps split: prod.splits simp del: upt_Suc)
qed simp

text \<open>A window admits its limit and no more: counting on from what the key held, the calls of a window are
  admitted up to the limit, and the first call after the window is admitted again, also for a
  key that had lost its expiry.\<close>

theorem window_admits_its_limit:
  assumes "0 < l" "0 < w" and "list_all (\<lambda>t. t < t0 + w * 1000) ts" and "t0 + w * 1000 \<le> t1"
    and "live_counter t0 (dict_get db (''ratelimit:'' @ key)) = c"
    and "c = None \<and> n = 0 \<or> c = Some (n, None)"
  shows "snd (rate_calls key l w (t0 # ts) db) = map (\<lambda>i. n + int i < l) [0..<Suc (length ts)]
    \<and> snd (check_rate_limit key l w t1 (fst (rate_calls key l w (t0 # ts) db)))"
proof -
  obtain db1 where step: "check_rate_limit key l w t0 db = (db1, n + 1 \<le> l)"
      "dict_get db1 (''ratelimit:'' @ key) = Some (n + 1, Some (t0 + w * 1000))"
    using assms(5,6) by (auto simp: check_rate_limit_def rate_limit_script_def)
  have later: "map (\<lambda>i. n + int i < l) [1..<Suc (length ts)] = map (\<lambda>i. n + 1 + int i < l) [0..<length ts]"
    by (simp add: map_Suc_upt [symmetric] o_def algebra_simps del: upt_Suc)
  note run = window_run [OF step(2) assms(3), of l w]
  then have "snd (rate_calls key l w (t0 # ts) db) = map (\<lambda>i. n + int i < l) [0..<Suc (length ts)]"
    using step(1) later by (auto simp: upt_conv_Cons split: prod.splits simp del: upt_Suc)
  moreover have "fst (rate_calls key l w (t0 # ts) db) = fst (rate_calls key l w ts db1)"
    using step(1) by (simp split: prod.splits)
  ultimately show ?thesis
    using run assms(1,4) by (simp add: check_rate_limit_def rate_limit_script_def live_counter_def)
qed

lemma window_admits_its_limit_witness:
  "snd (rate_calls ''auth:login:9'' 2 60 [0, 10, 20] [(''ratelimit:auth:login:9'', (0, None))]) = [True, True, False]"
proof -
  have "[0..<Suc (Suc (Suc 0))] = [0, 1, 2]" by code_simp
  then show ?thesis
    using window_admits_its_limit [of 2 60 0 "[10, 20]" 60000 "[(''ratelimit:auth:login:9'', (0, None))]" "''auth:login:9''"
        "Some (0, None)" 0]
    by (simp add: live_counter_def dict_get_def)
qed

subsection \<open>The address a client is limited under\<close>

lemma split_commas_append: "split_commas (a @ '','' @ b) = split_commas a @ split_commas b"
proof (induction a)
  case (Cons c a)
  have "split_commas a \<noteq> []" by (cases a) (auto split: list.splits)
  with Cons show ?case by (auto split: list.splits)
qed simp

lemma split_commas_plain: "CHR '','' \<notin> set a \<Longrightarrow> split_commas a = [a]"
  by (induction a) auto

lemma strip_blank: "py_strip (CHR '' '' # p) = py_strip p"
  by (simp add: py_strip_def is_space_def)

definition address_ok :: "string \<Rightarrow> bool" where
  "address_ok ip \<longleftrightarrow> ip \<noteq> [] \<and> CHR '','' \<notin> set ip \<and> py_strip ip = ip"

lemma forwarded_proxy:
  assumes "address_ok ip"
  shows "forwarded_chain (proxy_add_forwarded h ip) = forwarded_chain h @ [ip]"
proof (cases h)
  case None
  then show ?thesis
    using assms by (simp add: forwarded_chain_def proxy_add_forwarded_def address_ok_def split_commas_plain py_strip_def)
next
  case (Some g)
  have "split_commas (g @ '', '' @ ip) = split_commas g @ [CHR '' '' # ip]"
    using assms split_commas_append [of g "CHR '' '' # ip"] by (simp add: address_ok_def split_commas_plain)
  then show ?thesis
    using assms Some by (simp add: forwarded_chain_def proxy_add_forwarded_def address_ok_def strip_blank)
qed

lemma forwarded_proxies:
  "list_all address_ok ips \<Longrightarrow> forwarded_chain (foldl proxy_add_forwarded h ips) = forwarded_chain h @ ips"
  by (induction ips arbitrary: h) (simp_all add: forwarded_proxy)



end
