(* ===== verification/Market.thy ===== *)
theory Market
  imports Calendar FloatBounds
begin

text \<open>
  Timeframes, trading sessions and candle resampling: \<open>market/timeframes.py\<close>,
  \<open>market/sessions.py\<close> and \<open>market/aggregation.py\<close>. \<open>bucket_start\<close> maps an instant to the
  start of its period; \<open>resample_candles\<close> groups candles by it. The lemmas show that a period
  contains the instants mapped to it, and that resampling is the grouping it stands for.
\<close>

subsection \<open>Timeframes\<close>

definition SUPPORTED_TIMEFRAMES :: "string list" where
  "SUPPORTED_TIMEFRAMES =
     [''1m'', ''3m'', ''5m'', ''15m'', ''30m'', ''1h'', ''2h'', ''4h'', ''1D'', ''1W'']"

definition UNIT_MINUTES :: "(char, int) dict" where
  "UNIT_MINUTES = [(CHR ''m'', 1), (CHR ''h'', 60), (CHR ''D'', 1440), (CHR ''W'', 10080)]"

text \<open>\<open>int(s)\<close> of a string of digits.\<close>

definition int_of_digits :: "string \<Rightarrow> int" where
  "int_of_digits s = foldl (\<lambda>n c. 10 * n + (of_char c - 48)) 0 s"

definition timeframe_to_minutes :: "string \<Rightarrow> py_error + int" where
  "timeframe_to_minutes timeframe =
     (if timeframe \<notin> set SUPPORTED_TIMEFRAMES
      then Inl (ValueError (''Unsupported timeframe: '' @ timeframe))
      else bind_res (of_opt KeyError (dict_get UNIT_MINUTES (last timeframe)))
        (\<lambda>unit. Inr (int_of_digits (butlast timeframe) * unit)))"

definition is_valid_upsample :: "string \<Rightarrow> string \<Rightarrow> py_error + bool" where
  "is_valid_upsample source target =
     bind_res (timeframe_to_minutes source) (\<lambda>source_minutes.
     bind_res (timeframe_to_minutes target) (\<lambda>target_minutes.
       Inr (source_minutes < target_minutes \<and> target_minutes mod source_minutes = 0)))"

subsection \<open>Trading sessions\<close>

text \<open>Times of day are microseconds since midnight.\<close>

record TradingSession =
  ts_market :: string
  ts_open_time :: int
  ts_close_time :: int
  ts_timezone_name :: string

definition time_of :: "int \<Rightarrow> int \<Rightarrow> int \<Rightarrow> int" where
  "time_of h m s = ((h * 60 + m) * 60 + s) * 1000000"

definition TRADING_SESSIONS :: "(string, TradingSession) dict" where
  "TRADING_SESSIONS =
     [(''NSE'', \<lparr>ts_market = ''NSE'', ts_open_time = time_of 3 45 0, ts_close_time = time_of 10 0 0, ts_timezone_name = ''UTC''\<rparr>),
      (''CRYPTO'', \<lparr>ts_market = ''CRYPTO'', ts_open_time = time_of 0 0 0, ts_close_time = time_of 23 59 59, ts_timezone_name = ''UTC''\<rparr>)]"

definition is_market_open :: "string \<Rightarrow> datetime \<Rightarrow> py_error + bool" where
  "is_market_open market timestamp =
     (case dict_get TRADING_SESSIONS market of
        None \<Rightarrow> Inl (ValueError (''Unknown market: '' @ market))
      | Some session \<Rightarrow> Inr (ts_open_time session \<le> dt_us timestamp \<and> dt_us timestamp \<le> ts_close_time session))"

subsection \<open>Buckets\<close>

definition SESSION_OPEN_MINUTES_UTC :: int where
  "SESSION_OPEN_MINUTES_UTC = 225"

definition WEEK_MINUTES :: int where
  "WEEK_MINUTES = 10080"

definition DAY_MINUTES :: int where
  "DAY_MINUTES = 1440"

text \<open>\<open>datetime + timedelta\<close>, which keeps the zone and raises outside the years 1 to 9999.\<close>

definition dt_add :: "datetime \<Rightarrow> int \<Rightarrow> py_error + datetime" where
  "dt_add t us =
     (let s = dt_day t * us_per_day + dt_us t + us;
          d = s div us_per_day
      in if 1 \<le> d \<and> d \<le> 3652059 then Inr (t\<lparr>dt_day := d, dt_us := s mod us_per_day\<rparr>)
         else Inl OverflowError)"

definition epoch :: datetime where
  "epoch = \<lparr>dt_day = 719163, dt_us = 0, dt_offset = Some 0\<rparr>"

definition as_utc :: "datetime \<Rightarrow> datetime" where
  "as_utc t = (case dt_offset t of None \<Rightarrow> t\<lparr>dt_offset := Some 0\<rparr> | Some off \<Rightarrow> t)"

text \<open>\<open>int((timestamp - epoch).total_seconds() // 60)\<close>: the seconds are a float.\<close>

definition minutes_since_epoch :: "datetime \<Rightarrow> int" where
  "minutes_since_epoch t = \<lfloor>rnd_rat (of_int (instant t - instant epoch) / 10 ^ 6) / 60\<rfloor>"

definition bucket_start :: "datetime \<Rightarrow> int \<Rightarrow> int \<Rightarrow> py_error + datetime" where
  "bucket_start timestamp target_minutes session_open_minutes_utc =
     (let timestamp = as_utc timestamp
      in if target_minutes = WEEK_MINUTES
         then bind_res (dt_add timestamp (- ((dt_day timestamp + 6) mod 7 * us_per_day)))
                (\<lambda>monday. Inr (monday\<lparr>dt_us := 0\<rparr>))
         else if target_minutes = 0 then Inl ZeroDivisionError
         else
           let offset = (if DAY_MINUTES \<le> target_minutes then 0 else session_open_minutes_utc mod target_minutes);
               bucket_index = (minutes_since_epoch timestamp - offset) div target_minutes
           in dt_add epoch ((bucket_index * target_minutes + offset) * us_per_minute))"

subsection \<open>Aggregation\<close>

definition aggregate_candles :: "candle list \<Rightarrow> py_error + candle" where
  "aggregate_candles candles =
     (if candles = [] then Inl (ValueError ''Cannot aggregate an empty candle list'')
      else Inr \<lparr>c_time = c_time (hd candles), c_open = c_open (hd candles),
                c_high = pymax_list (map c_high candles), c_low = pymin_list (map c_low candles),
                c_close = c_close (last candles), c_volume = pysum (map c_volume candles)\<rparr>)"

text \<open>
  \<open>sorted(group, key=lambda c: c.timestamp)\<close>: a naive and an aware datetime do not compare.
\<close>

definition sort_by_time :: "candle list \<Rightarrow> py_error + candle list" where
  "sort_by_time cs =
     (if (\<exists>c \<in> set cs. dt_offset (c_time c) = None) \<and> (\<exists>c \<in> set cs. dt_offset (c_time c) \<noteq> None)
      then Inl TypeError else Inr (sort_key (\<lambda>c. instant (c_time c)) cs))"

text \<open>
  \<open>buckets.setdefault(bucket, []).append(candle)\<close>: aware datetimes are equal keys when they
  are the same instant, and the first one stays the key.
\<close>

type_synonym buckets = "(int, datetime \<times> candle list) dict"

definition bucket_append :: "datetime \<Rightarrow> candle \<Rightarrow> buckets \<Rightarrow> buckets" where
  "bucket_append b c d =
     (case dict_get d (instant b) of
        None \<Rightarrow> dict_put (instant b) (b, [c]) d
      | Some (b0, cs) \<Rightarrow> dict_put (instant b) (b0, cs @ [c]) d)"

fun fill_buckets :: "int \<Rightarrow> candle list \<Rightarrow> buckets \<Rightarrow> py_error + buckets" where
  "fill_buckets m [] d = Inr d"
| "fill_buckets m (c # cs) d =
     bind_res (bucket_start (c_time c) m SESSION_OPEN_MINUTES_UTC) (\<lambda>b. fill_buckets m cs (bucket_append b c d))"

definition bucket_candle :: "datetime \<times> candle list \<Rightarrow> py_error + candle" where
  "bucket_candle bg =
     bind_res (sort_by_time (snd bg)) (\<lambda>group.
     bind_res (aggregate_candles group) (\<lambda>aggregated. Inr (aggregated\<lparr>c_time := fst bg\<rparr>)))"

definition resample_candles :: "candle list \<Rightarrow> string \<Rightarrow> string \<Rightarrow> py_error + candle list" where
  "resample_candles candles source_timeframe target_timeframe =
     bind_res (is_valid_upsample source_timeframe target_timeframe) (\<lambda>valid.
       if \<not> valid
       then Inl (ValueError (''Cannot derive '' @ target_timeframe @ '' candles from '' @ source_timeframe))
       else bind_res (timeframe_to_minutes target_timeframe) (\<lambda>target_minutes.
         bind_res (fill_buckets target_minutes candles []) (\<lambda>buckets.
           map_res bucket_candle (dict_values (sort_key fst buckets)))))"

subsection \<open>Timeframes divide time\<close>

definition timeframe_minutes :: "int list" where
  "timeframe_minutes = [1, 3, 5, 15, 30, 60, 120, 240, 1440, 10080]"

lemma timeframe_to_minutes_Inr:
  "timeframe_to_minutes tf = Inr m \<Longrightarrow> m \<in> set timeframe_minutes"
  by (auto simp: timeframe_to_minutes_def SUPPORTED_TIMEFRAMES_def UNIT_MINUTES_def dict_get_def
      int_of_digits_def timeframe_minutes_def split: if_splits)

lemma timeframe_minutes_bounds:
  "m \<in> set timeframe_minutes \<Longrightarrow> 0 < m \<and> (m = WEEK_MINUTES \<or> m \<le> DAY_MINUTES)"
  by (auto simp: timeframe_minutes_def WEEK_MINUTES_def DAY_MINUTES_def)

subsection \<open>Whole minutes from float seconds\<close>

lemma rnd_rat_between:
  assumes "representable a" "representable b" "a \<le> q" "q \<le> b"
  shows "a \<le> rnd_rat q \<and> rnd_rat q \<le> b"
  using rnd_rat_mono [OF assms(3)] rnd_rat_mono [OF assms(4)] assms(1,2)
  by (simp add: rnd_rat_representable)

lemma whole_minutes:
  fixes us :: int
  assumes "\<bar>us\<bar> \<le> 8580000000000000"
  shows "\<lfloor>rnd_rat (of_int us / 10 ^ 6) / 60\<rfloor> = us div 60000000"
proof -
  define k where "k = us div 60000000"
  have us: "60000000 * k \<le> us" "us \<le> 60000000 * k + 59999999"
    by (simp_all add: k_def)
  have k: "\<bar>60 * k\<bar> \<le> 8580000060" using assms us by linarith
  define n where "n = (60 * k + 60) * 2 ^ 20 - 1"
  have lo: "representable (of_int (60 * k))" using k by (intro representable_int) simp
  have hi: "representable (of_int n * p2 (- 20))"
    unfolding representable_def
    by (rule exI [of _ n], rule exI [of _ "- 20"]) (use k in \<open>simp add: n_def abs_le_iff abs_less_iff\<close>)
  have p: "p2 (- 20) = 1 / 1048576" by (simp add: p2_code)
  have n': "of_int n * p2 (- 20) = of_int (60 * k + 60) - 1 / 1048576"
    by (simp add: n_def p field_simps)
  have "(of_int us :: rat) \<le> of_int (60000000 * k + 59999999)"
    using us(2) by (simp only: of_int_le_iff)
  then have a: "of_int us / 10 ^ 6 \<le> of_int n * p2 (- 20)"
    unfolding n' by (simp add: field_simps)
  have "(of_int (60000000 * k) :: rat) \<le> of_int us" using us(1) by (simp only: of_int_le_iff)
  then have b: "of_int (60 * k) \<le> (of_int us / 10 ^ 6 :: rat)" by (simp add: field_simps)
  from rnd_rat_between [OF lo hi b a]
  have "of_int (60 * k) \<le> rnd_rat (of_int us / 10 ^ 6)"
    "rnd_rat (of_int us / 10 ^ 6) < of_int (60 * k + 60)" unfolding n' by auto
  then have "\<lfloor>rnd_rat (of_int us / 10 ^ 6) / 60\<rfloor> = k"
    by (intro floor_unique) (simp_all add: field_simps)
  then show ?thesis by (simp add: k_def)
qed

subsection \<open>A bucket holds the instants mapped to it\<close>

text \<open>
  A datetime as Python builds it, its offset under a day, at an instant before the year 2239,
  where float seconds resolve microseconds.
\<close>

definition clock_time :: "datetime \<Rightarrow> bool" where
  "clock_time t \<longleftrightarrow> 0 \<le> dt_us t \<and> dt_us t < us_per_day \<and> \<bar>instant t - instant epoch\<bar> \<le> 8500000000000000
     \<and> (case dt_offset t of None \<Rightarrow> True | Some off \<Rightarrow> \<bar>off\<bar> < us_per_day)"

lemma instant_as_utc [simp]: "instant (as_utc t) = instant t"
  by (simp add: as_utc_def instant_def split: option.split)

lemma clock_time_as_utc [simp]: "clock_time (as_utc t) = clock_time t"
  by (simp add: clock_time_def) (simp add: as_utc_def us_per_day_def split: option.split)

lemma as_utc_idem [simp]: "as_utc (as_utc t) = as_utc t"
  by (simp add: as_utc_def split: option.split)

lemma dt_add_Inr:
  "dt_add t us = Inr u \<Longrightarrow>
     instant u = instant t + us \<and> 0 \<le> dt_us u \<and> dt_us u < us_per_day \<and> dt_offset u = dt_offset t"
  by (auto simp: dt_add_def instant_def us_per_day_def Let_def split: if_splits option.splits)

lemma minutes_since_epoch_eq:
  "\<bar>instant t - instant epoch\<bar> \<le> 8580000000000000 \<Longrightarrow>
     minutes_since_epoch t = (instant t - instant epoch) div us_per_minute"
  unfolding minutes_since_epoch_def us_per_minute_def by (rule whole_minutes)

text \<open>The grid point at or below a minute.\<close>

definition grid_floor :: "int \<Rightarrow> int \<Rightarrow> int \<Rightarrow> int" where
  "grid_floor m offset x = (x - offset) div m * m + offset"

lemma grid_floor_bounds: "0 < m \<Longrightarrow> grid_floor m offset x \<le> x \<and> x < grid_floor m offset x + m"
  using div_mult_mod_eq [of "x - offset" m] pos_mod_bound [of m "x - offset"] pos_mod_sign [of m "x - offset"]
  unfolding grid_floor_def by linarith

lemma grid_floor_idem: "0 < m \<Longrightarrow> grid_floor m offset (grid_floor m offset x) = grid_floor m offset x"
  by (simp add: grid_floor_def)

definition bucket_offset :: "int \<Rightarrow> int \<Rightarrow> int" where
  "bucket_offset m open_utc = (if DAY_MINUTES \<le> m then 0 else open_utc mod m)"

lemma bucket_start_week:
  "bucket_start t WEEK_MINUTES open_utc =
     bind_res (dt_add (as_utc t) (- ((dt_day t + 6) mod 7 * us_per_day))) (\<lambda>monday. Inr (monday\<lparr>dt_us := 0\<rparr>))"
  by (simp add: bucket_start_def Let_def as_utc_def split: option.split)

lemma bucket_start_grid:
  assumes "m \<noteq> WEEK_MINUTES" "0 < m" "\<bar>instant t - instant epoch\<bar> \<le> 8580000000000000"
  shows "bucket_start t m open_utc =
    dt_add epoch (grid_floor m (bucket_offset m open_utc) ((instant t - instant epoch) div us_per_minute) * us_per_minute)"
  using assms minutes_since_epoch_eq [of "as_utc t"]
  by (simp add: bucket_start_def bucket_offset_def grid_floor_def Let_def)

lemma dt_add_days:
  "0 \<le> dt_us t \<Longrightarrow> dt_us t < us_per_day \<Longrightarrow> dt_add t (k * us_per_day) = Inr u \<Longrightarrow>
     dt_us u = dt_us t \<and> dt_day u = dt_day t + k \<and> dt_offset u = dt_offset t"
  by (auto simp: dt_add_def us_per_day_def Let_def split: if_splits)

lemma week_bucket:
  assumes "clock_time t" "bucket_start t WEEK_MINUTES open_utc = Inr b"
  shows "dt_day b = dt_day t - (dt_day t + 6) mod 7 \<and> dt_us b = 0 \<and> dt_offset b = dt_offset (as_utc t)"
proof -
  let ?w = "- ((dt_day t + 6) mod 7)"
  obtain u where "dt_add (as_utc t) (?w * us_per_day) = Inr u" "b = u\<lparr>dt_us := 0\<rparr>"
    using assms(2) by (auto simp: bucket_start_week bind_res_Inr)
  moreover have "dt_us (as_utc t) = dt_us t" "dt_day (as_utc t) = dt_day t"
    by (simp_all add: as_utc_def split: option.split)
  ultimately show ?thesis
    using dt_add_days [of "as_utc t" ?w u] assms(1) by (simp add: clock_time_def)
qed

lemma as_utc_aware: "dt_offset (as_utc t) \<noteq> None"
  by (simp add: as_utc_def split: option.split)

lemma bucket_bounds:
  assumes tf: "timeframe_to_minutes tf = Inr m" and t: "clock_time t"
    and b: "bucket_start t m open_utc = Inr b"
  shows "instant b \<le> instant t \<and> instant t < instant b + m * us_per_minute
    \<and> bucket_start b m open_utc = Inr b"
proof (cases "m = WEEK_MINUTES")
  case True
  note wk = week_bucket [OF t b [unfolded True]]
  have inst: "instant t = dt_day t * us_per_day + dt_us t - (case dt_offset (as_utc t) of None \<Rightarrow> 0 | Some off \<Rightarrow> off)"
    "instant b = dt_day b * us_per_day - (case dt_offset (as_utc t) of None \<Rightarrow> 0 | Some off \<Rightarrow> off)"
    using wk by (simp_all add: instant_def as_utc_def split: option.splits)
  have "0 \<le> (dt_day t + 6) mod 7" "(dt_day t + 6) mod 7 \<le> 6" by auto
  with wk t inst have "instant b \<le> instant t \<and> instant t < instant b + m * us_per_minute"
    by (simp add: True WEEK_MINUTES_def us_per_minute_def us_per_day_def clock_time_def) linarith
  moreover have "bucket_start b m open_utc = Inr b"
  proof -
    have d: "(dt_day b + 6) mod 7 = 0" using wk by presburger
    have "as_utc b = b" using wk as_utc_aware [of t] by (auto simp: as_utc_def split: option.split)
    moreover have "1 \<le> dt_day b \<and> dt_day b \<le> 3652059"
      using b wk t by (auto simp: True bucket_start_week bind_res_Inr dt_add_def Let_def split: if_splits)
    ultimately show ?thesis
      using wk d by (simp add: True bucket_start_week dt_add_def us_per_day_def)
  qed
  ultimately show ?thesis by blast
next
  case False
  then have m: "0 < m" "m \<le> DAY_MINUTES" using timeframe_minutes_bounds [OF timeframe_to_minutes_Inr [OF tf]] by auto
  define x where "x = (instant t - instant epoch) div us_per_minute"
  define g where "g = grid_floor m (bucket_offset m open_utc) x"
  have gb: "g \<le> x" "x < g + m" using grid_floor_bounds [OF m(1)] by (simp_all add: g_def)
  have near: "\<bar>instant t - instant epoch\<bar> \<le> 8500000000000000" using t by (simp add: clock_time_def)
  have "dt_add epoch (g * us_per_minute) = Inr b"
    using b near by (simp add: bucket_start_grid [OF False m(1)] g_def x_def)
  note ib = dt_add_Inr [OF this] this
  have ib': "instant b - instant epoch = g * us_per_minute" using ib by simp
  have xb: "x * us_per_minute \<le> instant t - instant epoch" "instant t - instant epoch < (x + 1) * us_per_minute"
    using div_mult_mod_eq [of "instant t - instant epoch" us_per_minute]
      pos_mod_bound [of us_per_minute "instant t - instant epoch"] pos_mod_sign [of us_per_minute "instant t - instant epoch"]
    unfolding x_def by (simp_all add: us_per_minute_def algebra_simps)
  have bounds: "instant b \<le> instant t \<and> instant t < instant b + m * us_per_minute"
    using xb gb ib' by (simp add: us_per_minute_def)
  have "\<bar>instant b - instant epoch\<bar> \<le> 8580000000000000"
    using bounds near m(2) by (simp add: DAY_MINUTES_def us_per_minute_def) linarith
  then have "bucket_start b m open_utc = dt_add epoch (grid_floor m (bucket_offset m open_utc) g * us_per_minute)"
    by (simp add: bucket_start_grid [OF False m(1)] ib' us_per_minute_def)
  also have "\<dots> = Inr b" using ib(2) by (simp add: g_def grid_floor_idem [OF m(1)])
  finally show ?thesis using bounds by blast
qed

text \<open>In a supported timeframe a bucket contains the instant it was computed from,
  its start is its own bucket start, and both hold for the weekly, the daily and the
  session-anchored intraday grids and for naive and aware datetimes alike.\<close>

theorem bucket_holds_its_instant:
  assumes "timeframe_to_minutes tf = Inr m" and "clock_time t" and "bucket_start t m open_utc = Inr b"
  shows "instant b \<le> instant t \<and> instant t < instant b + m * us_per_minute
    \<and> bucket_start b m open_utc = Inr b"
  using assms by (rule bucket_bounds)

lemma bucket_holds_its_instant_witness:
  "instant \<lparr>dt_day = 738521, dt_us = 13500000000, dt_offset = Some 0\<rparr> \<le>
     instant \<lparr>dt_day = 738521, dt_us = 14399999999, dt_offset = None\<rparr>
   \<and> instant \<lparr>dt_day = 738521, dt_us = 14399999999, dt_offset = None\<rparr> <
     instant \<lparr>dt_day = 738521, dt_us = 13500000000, dt_offset = Some 0\<rparr> + 15 * us_per_minute
   \<and> bucket_start \<lparr>dt_day = 738521, dt_us = 13500000000, dt_offset = Some 0\<rparr> 15 SESSION_OPEN_MINUTES_UTC
     = Inr \<lparr>dt_day = 738521, dt_us = 13500000000, dt_offset = Some 0\<rparr>"
proof -
  have "timeframe_to_minutes ''15m'' = Inr 15" by code_simp
  moreover have "clock_time \<lparr>dt_day = 738521, dt_us = 14399999999, dt_offset = None\<rparr>" by code_simp
  moreover have "bucket_start \<lparr>dt_day = 738521, dt_us = 14399999999, dt_offset = None\<rparr> 15 SESSION_OPEN_MINUTES_UTC
      = Inr \<lparr>dt_day = 738521, dt_us = 13500000000, dt_offset = Some 0\<rparr>" by code_simp
  ultimately show ?thesis by (rule bucket_holds_its_instant)
qed

lemma dt_add_defined:
  assumes "0 \<le> dt_us t" "dt_us t < us_per_day" "us_per_day \<le> dt_day t * us_per_day + dt_us t + us"
    and "dt_day t * us_per_day + dt_us t + us < 3652060 * us_per_day"
  shows "\<exists>u. dt_add t us = Inr u"
  using assms by (auto simp: dt_add_def us_per_day_def Let_def)

lemma bucket_start_defined:
  assumes tf: "timeframe_to_minutes tf = Inr m" and t: "clock_time t"
  shows "\<exists>b. bucket_start t m open_utc = Inr b"
proof (cases "m = WEEK_MINUTES")
  case True
  have "\<exists>u. dt_add (as_utc t) (- ((dt_day t + 6) mod 7 * us_per_day)) = Inr u"
  proof (rule dt_add_defined)
    have "0 \<le> (dt_day t + 6) mod 7" "(dt_day t + 6) mod 7 \<le> 6" by auto
    then show "us_per_day \<le> dt_day (as_utc t) * us_per_day + dt_us (as_utc t) + - ((dt_day t + 6) mod 7 * us_per_day)"
      "dt_day (as_utc t) * us_per_day + dt_us (as_utc t) + - ((dt_day t + 6) mod 7 * us_per_day) < 3652060 * us_per_day"
      using t by (auto simp: clock_time_def as_utc_def instant_def epoch_def us_per_day_def split: option.splits)
  qed (use t in \<open>auto simp: clock_time_def as_utc_def split: option.splits\<close>)
  then show ?thesis by (auto simp: True bucket_start_week)
next
  case False
  then have m: "0 < m" "m \<le> DAY_MINUTES" using timeframe_minutes_bounds [OF timeframe_to_minutes_Inr [OF tf]] by auto
  define x where "x = (instant t - instant epoch) div us_per_minute"
  have near: "\<bar>instant t - instant epoch\<bar> \<le> 8500000000000000" using t by (simp add: clock_time_def)
  then have "- 141666667 \<le> x" "x \<le> 141666667"
    by (simp_all add: x_def us_per_minute_def)
  with grid_floor_bounds [OF m(1), of "bucket_offset m open_utc" x] m
  have g: "- 141669000 \<le> grid_floor m (bucket_offset m open_utc) x" "grid_floor m (bucket_offset m open_utc) x \<le> 141669000"
    by (simp_all add: DAY_MINUTES_def)
  have "\<exists>b. dt_add epoch (grid_floor m (bucket_offset m open_utc) x * us_per_minute) = Inr b"
    by (rule dt_add_defined) (use g in \<open>simp_all add: epoch_def us_per_day_def us_per_minute_def\<close>)
  then show ?thesis using near by (simp add: bucket_start_grid [OF False m(1)] x_def)
qed

subsection \<open>Resampling is the grouping it stands for\<close>

definition in_bucket :: "int \<Rightarrow> int \<Rightarrow> candle \<Rightarrow> bool" where
  "in_bucket m k c =
     (case bucket_start (c_time c) m SESSION_OPEN_MINUTES_UTC of Inl e \<Rightarrow> False | Inr b \<Rightarrow> instant b = k)"

definition starts_bucket :: "int \<Rightarrow> datetime \<Rightarrow> candle \<Rightarrow> bool" where
  "starts_bucket m b c \<longleftrightarrow> bucket_start (c_time c) m SESSION_OPEN_MINUTES_UTC = Inr b"

definition grouped :: "int \<Rightarrow> candle list \<Rightarrow> buckets \<Rightarrow> bool" where
  "grouped m cs d \<longleftrightarrow> dict_ok d
     \<and> (\<forall>k b g. dict_get d k = Some (b, g) \<longrightarrow> instant b = k \<and> g = filter (in_bucket m k) cs \<and> list_ex (starts_bucket m b) g)
     \<and> (\<forall>c \<in> set cs. \<exists>k. dict_get d k \<noteq> None \<and> in_bucket m k c)"

lemma grouped_Nil: "grouped m [] []"
  by (simp add: grouped_def)

lemma grouped_append:
  assumes d: "grouped m cs d" and b: "bucket_start (c_time c) m SESSION_OPEN_MINUTES_UTC = Inr b"
  shows "grouped m (cs @ [c]) (bucket_append b c d)"
proof -
  have c: "in_bucket m k c \<longleftrightarrow> k = instant b" for k by (auto simp: in_bucket_def b)
  have none: "filter (in_bucket m k) cs = []" if "dict_get d k = None" for k
    using d that by (fastforce simp: grouped_def filter_empty_conv in_bucket_def split: sum.splits)
  have some: "instant b0 = k \<and> g = filter (in_bucket m k) cs \<and> list_ex (starts_bucket m b0) g" if "dict_get d k = Some (b0, g)" for k b0 g
    using d that by (simp add: grouped_def)
  have ok: "dict_ok (bucket_append b c d)"
    using d by (simp add: bucket_append_def grouped_def split: option.split)
  have get: "dict_get (bucket_append b c d) k =
      (if k = instant b then (case dict_get d k of None \<Rightarrow> Some (b, [c]) | Some (b0, g) \<Rightarrow> Some (b0, g @ [c]))
       else dict_get d k)" for k
    by (auto simp: bucket_append_def split: option.splits)
  have own: "dict_get (bucket_append b c d) (instant b) \<noteq> None" "in_bucket m (instant b) c"
    by (auto simp: get c split: option.splits)
  have dom: "dict_get (bucket_append b c d) k \<noteq> None" if "dict_get d k \<noteq> None" for k
    using that own by (auto simp: get split: option.splits)
  show ?thesis
    unfolding grouped_def
  proof (intro conjI allI impI ballI)
    show "dict_ok (bucket_append b c d)" by (rule ok)
  next
    fix k b1 g assume "dict_get (bucket_append b c d) k = Some (b1, g)"
    then show "instant b1 = k" "g = filter (in_bucket m k) (cs @ [c])" "list_ex (starts_bucket m b1) g"
      using some none by (auto simp: get c b starts_bucket_def split: if_splits option.splits)
  next
    fix c1 assume "c1 \<in> set (cs @ [c])"
    then show "\<exists>k. dict_get (bucket_append b c d) k \<noteq> None \<and> in_bucket m k c1"
      using d dom own by (fastforce simp: grouped_def)
  qed
qed

lemma fill_buckets_grouped:
  "fill_buckets m cs d = Inr d' \<Longrightarrow> grouped m ps d \<Longrightarrow> grouped m (ps @ cs) d'"
proof (induction cs arbitrary: d ps)
  case (Cons c cs)
  then obtain b where b: "bucket_start (c_time c) m SESSION_OPEN_MINUTES_UTC = Inr b"
    and "fill_buckets m cs (bucket_append b c d) = Inr d'" by (auto simp: bind_res_Inr)
  with Cons.IH [OF this(2) grouped_append [OF Cons.prems(2) b]] show ?case by simp
qed simp

lemma map_res_Inr: "map_res f xs = Inr ys \<longleftrightarrow> list_all2 (\<lambda>x y. f x = Inr y) xs ys"
  by (induction f xs arbitrary: ys rule: map_res.induct) (auto simp: bind_res_Inr list_all2_Cons1)

lemma aggregate_candles_time: "aggregate_candles cs = Inr a \<Longrightarrow> c_time a = c_time (hd cs)"
  by (auto simp: aggregate_candles_def split: if_splits)

lemma resample_InrE:
  assumes "resample_candles cs src tgt = Inr bars"
  obtains m d where "timeframe_to_minutes tgt = Inr m" "is_valid_upsample src tgt = Inr True"
    "grouped m cs d" "list_all2 (\<lambda>kv bar. bucket_candle (snd kv) = Inr bar) (sort_key fst d) bars"
proof -
  obtain m d where m: "timeframe_to_minutes tgt = Inr m" and v: "is_valid_upsample src tgt = Inr True"
    and d: "fill_buckets m cs [] = Inr d"
    and l: "map_res bucket_candle (dict_values (sort_key fst d)) = Inr bars"
    using assms by (auto simp: resample_candles_def bind_res_Inr split: if_splits)
  have "grouped m cs d" using fill_buckets_grouped [OF d grouped_Nil] by simp
  moreover have "list_all2 (\<lambda>kv bar. bucket_candle (snd kv) = Inr bar) (sort_key fst d) bars"
    using l by (simp add: map_res_Inr dict_values_def list_all2_map1)
  ultimately show thesis using that m v by blast
qed

definition bar_time :: "candle \<Rightarrow> int" where
  "bar_time c = instant (c_time c)"

definition is_bar_of :: "int \<Rightarrow> candle list \<Rightarrow> candle \<Rightarrow> bool" where
  "is_bar_of m cs bar \<longleftrightarrow>
     (let g = sort_key bar_time (filter (in_bucket m (bar_time bar)) cs)
      in list_ex (starts_bucket m (c_time bar)) g
         \<and> aggregate_candles g = Inr (bar\<lparr>c_time := c_time (hd g)\<rparr>))"

lemma bucket_candle_is_bar:
  assumes d: "grouped m cs d" and kv: "(k, b, g) \<in> set d" and bar: "bucket_candle (b, g) = Inr bar"
  shows "bar_time bar = k \<and> is_bar_of m cs bar"
proof -
  have kbg: "instant b = k" "g = filter (in_bucket m k) cs" "list_ex (starts_bucket m b) g"
    using d kv dict_items_get [of d k "(b, g)"] by (auto simp: grouped_def)
  obtain s a where s: "sort_by_time g = Inr s" and a: "aggregate_candles s = Inr a" "bar = a\<lparr>c_time := b\<rparr>"
    using bar by (auto simp: bucket_candle_def bind_res_Inr)
  have sk: "s = sort_key bar_time g"
    using s by (auto simp: sort_by_time_def bar_time_def [abs_def] split: if_splits)
  have t: "bar_time bar = k" by (simp add: a(2) bar_time_def kbg(1))
  have "list_ex (starts_bucket m b) s" using sk kbg(3) by (simp add: list_ex_iff)
  then show ?thesis
    using t a aggregate_candles_time [OF a(1)] sk by (simp add: is_bar_of_def Let_def kbg(2))
qed

lemma strictly_sorted_keys:
  assumes "distinct (map fst (d :: ('k :: linorder \<times> 'v) list))"
  shows "sorted_wrt (<) (map fst (sort_key fst d))"
proof -
  have "sorted (map fst (sort_key fst d))" by simp
  moreover have "distinct (map fst (sort_key fst d))" using assms by (simp add: distinct_map)
  ultimately show ?thesis by (simp add: strict_sorted_iff)
qed

lemma resample_grouping:
  assumes "resample_candles cs src tgt = Inr bars"
  shows "\<exists>m. timeframe_to_minutes tgt = Inr m
    \<and> sorted_wrt (<) (map bar_time bars)
    \<and> list_all (is_bar_of m cs) bars
    \<and> list_all (\<lambda>c. list_ex (\<lambda>bar. in_bucket m (bar_time bar) c) bars) cs"
proof -
  obtain m d where m: "timeframe_to_minutes tgt = Inr m" and d: "grouped m cs d"
    and l: "list_all2 (\<lambda>kv bar. bucket_candle (snd kv) = Inr bar) (sort_key fst d) bars"
    using assms by (rule resample_InrE)
  have each: "bar_time bar = fst kv \<and> is_bar_of m cs bar"
    if "bucket_candle (snd kv) = Inr bar" "kv \<in> set d" for kv bar
    using bucket_candle_is_bar [OF d, of "fst kv" "fst (snd kv)" "snd (snd kv)"] that by simp
  have l': "list_all2 (\<lambda>kv bar. fst kv = bar_time bar \<and> is_bar_of m cs bar) (sort_key fst d) bars"
    by (rule list.rel_mono_strong [OF l]) (use each in auto)
  have keys: "map fst (sort_key fst d) = map bar_time bars"
    using l' by (induction rule: list_all2_induct) simp_all
  have bars: "list_all (is_bar_of m cs) bars"
    using l' by (induction rule: list_all2_induct) simp_all
  have "list_ex (\<lambda>bar. in_bucket m (bar_time bar) c) bars" if c: "c \<in> set cs" for c
  proof -
    obtain k where k: "dict_get d k \<noteq> None" "in_bucket m k c"
      using d c unfolding grouped_def by blast
    then have "k \<in> set (map fst (sort_key fst d))"
      by (auto simp: dict_get_def map_of_eq_None_iff)
    with k show ?thesis unfolding keys by (auto simp: list_ex_iff)
  qed
  with m bars d show ?thesis
    using strictly_sorted_keys [of d] by (auto simp: grouped_def dict_ok_def list_all_iff simp flip: keys)
qed

text \<open>C21: Resampling is the grouping it stands for. The bars come in strictly increasing time,
  each is the aggregate of exactly the source candles whose bucket it is, in time order, and
  every source candle is in the bucket of one of them.\<close>

theorem resample_is_grouping:
  assumes "resample_candles cs src tgt = Inr bars"
  shows "\<exists>m. timeframe_to_minutes tgt = Inr m
    \<and> sorted_wrt (<) (map bar_time bars)
    \<and> list_all (is_bar_of m cs) bars
    \<and> list_all (\<lambda>c. list_ex (\<lambda>bar. in_bucket m (bar_time bar) c) bars) cs"
  using assms by (rule resample_grouping)

definition minute_bar :: "int \<Rightarrow> rat \<Rightarrow> candle" where
  "minute_bar k p =
     \<lparr>c_time = \<lparr>dt_day = 738521, dt_us = 13500000000 + k * us_per_minute, dt_offset = Some 0\<rparr>,
      c_open = Fin p, c_high = Fin (p + 2), c_low = Fin (p - 1), c_close = Fin (p + 1), c_volume = Fin 10\<rparr>"

lemma resample_is_grouping_witness:
  "\<exists>m. timeframe_to_minutes ''5m'' = Inr m
    \<and> sorted_wrt (<) (map bar_time [minute_bar 0 100\<lparr>c_close := Fin 103, c_high := Fin 104, c_volume := Fin 20\<rparr>, minute_bar 5 105])
    \<and> list_all (is_bar_of m [minute_bar 4 102, minute_bar 5 105, minute_bar 0 100])
        [minute_bar 0 100\<lparr>c_close := Fin 103, c_high := Fin 104, c_volume := Fin 20\<rparr>, minute_bar 5 105]
    \<and> list_all (\<lambda>c. list_ex (\<lambda>bar. in_bucket m (bar_time bar) c)
        [minute_bar 0 100\<lparr>c_close := Fin 103, c_high := Fin 104, c_volume := Fin 20\<rparr>, minute_bar 5 105])
        [minute_bar 4 102, minute_bar 5 105, minute_bar 0 100]"
proof (rule resample_is_grouping)
  show "resample_candles [minute_bar 4 102, minute_bar 5 105, minute_bar 0 100] ''1m'' ''5m'' =
    Inr [minute_bar 0 100\<lparr>c_close := Fin 103, c_high := Fin 104, c_volume := Fin 20\<rparr>, minute_bar 5 105]"
    by code_simp
qed

end
