(* ===== verification/Persistence.thy ===== *)
theory Persistence
  imports OrderManager PositionManager Market
begin

text \<open>
  The journal in Postgres (\<open>trading/persistence.py\<close>, \<open>core/text.py\<close>): the tables of orders,
  events, positions and trades, the writers that mirror the memory of the trading engines into
  them, and the readers that rebuild it after a restart. A table is the list of its rows; a query
  is a comprehension over it. What the driver makes of a float in a \<open>Numeric(18, 6)\<close> column
  is the argument \<open>num\<close>, \<open>None\<close> when the server refuses it; reading gives \<open>float()\<close> of the
  decimal. Fresh ids, the clock and \<open>str\<close> of an id are arguments. The stamps of order events
  are left out: rows of one order are in the order they were written. Proved: whatever engines
  write meanwhile, a restarted engine reads back its own open positions, its orders and their
  whole history.
\<close>

subsection \<open>Text\<close>

text \<open>The mark of a cut, as code page 1252 has it.\<close>

definition ELLIPSIS :: char where
  "ELLIPSIS = CHR 0x85"

definition clip :: "string option \<Rightarrow> int \<Rightarrow> string option" where
  "clip v limit_n =
     (case v of
        None \<Rightarrow> None
      | Some s \<Rightarrow>
          if int (length s) \<le> limit_n then Some s
          else if limit_n \<le> 0 then Some []
          else Some (take (nat (limit_n - 1)) s @ [ELLIPSIS]))"

subsection \<open>Tables\<close>

datatype execution_mode = LIVE | PAPER | BACKTEST | REPLAY

datatype db_error = DataError | MultipleResultsFound

type_synonym numeric = rat
type_synonym to_numeric = "pyfloat \<Rightarrow> numeric option"

record position_row =
  pr_id :: uuid
  pr_user :: uuid
  pr_instrument :: uuid
  pr_mode :: execution_mode
  pr_source :: string
  pr_quantity :: numeric
  pr_average_price :: numeric
  pr_stop :: "numeric option"
  pr_target :: "numeric option"
  pr_protective_order_id :: "string option"
  pr_unrealized_pnl :: numeric
  pr_realized_pnl :: numeric
  pr_is_open :: bool
  pr_created_at :: int

record order_row =
  or_id :: uuid
  or_user :: uuid
  or_instrument :: uuid
  or_broker_account :: "uuid option"
  or_strategy :: "uuid option"
  or_strategy_version :: "int option"
  or_idempotency_key :: string
  or_mode :: execution_mode
  or_direction :: direction
  or_order_type :: order_type
  or_quantity :: numeric
  or_price :: "numeric option"
  or_status :: order_status
  or_broker_order_id :: "string option"
  or_rejection_reason :: "string option"
  or_created_at :: int

record event_row =
  ew_order :: uuid
  ew_from :: "order_status option"
  ew_to :: order_status
  ew_detail :: "string option"

record trade_row =
  tr_user :: uuid
  tr_position :: "uuid option"
  tr_instrument :: uuid
  tr_strategy :: "uuid option"
  tr_strategy_version :: "int option"
  tr_mode :: execution_mode
  tr_direction :: direction
  tr_entry_price :: numeric
  tr_exit_price :: "numeric option"
  tr_quantity :: numeric
  tr_stop :: "numeric option"
  tr_target :: "numeric option"
  tr_pnl :: "numeric option"
  tr_r_multiple :: "numeric option"
  tr_opened_at :: int
  tr_closed_at :: "int option"
  tr_source :: "string option"

record tables =
  db_positions :: "position_row list"
  db_orders :: "order_row list"
  db_events :: "event_row list"
  db_trades :: "trade_row list"
  db_symbols :: "(uuid, string) dict"

definition scalar_one_or_none :: "'a list \<Rightarrow> db_error + 'a option" where
  "scalar_one_or_none rows =
     (case rows of [] \<Rightarrow> Inr None | [r] \<Rightarrow> Inr (Some r) | _ \<Rightarrow> Inl MultipleResultsFound)"

definition column :: "to_numeric \<Rightarrow> pyfloat \<Rightarrow> db_error + numeric" where
  "column num x = of_opt DataError (num x)"

definition nullable :: "to_numeric \<Rightarrow> pyfloat option \<Rightarrow> db_error + numeric option" where
  "nullable num x = (case x of None \<Rightarrow> Inr None | Some v \<Rightarrow> bind_res (column num v) (\<lambda>r. Inr (Some r)))"

text \<open>\<open>float()\<close> of a decimal\<close>

definition py_float :: "numeric \<Rightarrow> pyfloat" where
  "py_float r = rnd64 r"

subsection \<open>Orders\<close>

definition REJECTION_REASON_LIMIT :: int where
  "REJECTION_REASON_LIMIT = 500"

record order_link =
  ol_user :: uuid
  ol_instrument :: uuid
  ol_strategy :: "uuid option"
  ol_strategy_version :: "int option"
  ol_mode :: execution_mode
  ol_broker_account :: "uuid option"

definition new_order_row :: "to_numeric \<Rightarrow> int \<Rightarrow> order_link \<Rightarrow> order \<Rightarrow> db_error + order_row" where
  "new_order_row num now link ord =
     bind_res (column num (o_quantity ord)) (\<lambda>quantity.
     bind_res (nullable num (o_price ord)) (\<lambda>price. Inr
       \<lparr>or_id = o_id ord, or_user = ol_user link, or_instrument = ol_instrument link,
        or_broker_account = ol_broker_account link, or_strategy = ol_strategy link,
        or_strategy_version = ol_strategy_version link, or_idempotency_key = o_idempotency_key ord,
        or_mode = ol_mode link, or_direction = o_direction ord, or_order_type = o_order_type ord,
        or_quantity = quantity, or_price = price, or_status = o_status ord,
        or_broker_order_id = o_broker_order_id ord,
        or_rejection_reason = clip (o_rejection_reason ord) REJECTION_REASON_LIMIT, or_created_at = now\<rparr>))"

definition update_order_row :: "order \<Rightarrow> order_row \<Rightarrow> order_row" where
  "update_order_row ord row =
     row\<lparr>or_status := o_status ord, or_broker_order_id := o_broker_order_id ord,
         or_rejection_reason := clip (o_rejection_reason ord) REJECTION_REASON_LIMIT\<rparr>"

definition event_row_of :: "uuid \<Rightarrow> order_event \<Rightarrow> event_row" where
  "event_row_of oid ev =
     \<lparr>ew_order = oid, ew_from = ev_from ev, ew_to = ev_to ev,
      ew_detail = (if ev_detail ev = [] then None else Some (ev_detail ev))\<rparr>"

definition events_of :: "tables \<Rightarrow> uuid \<Rightarrow> event_row list" where
  "events_of db oid = filter (\<lambda>e. ew_order e = oid) (db_events db)"

definition persist_order :: "to_numeric \<Rightarrow> int \<Rightarrow> order_link \<Rightarrow> tables \<Rightarrow> order \<Rightarrow> db_error + tables" where
  "persist_order num now link db ord =
     (let mine = (\<lambda>r. or_idempotency_key r = o_idempotency_key ord)
      in bind_res (scalar_one_or_none (filter mine (db_orders db))) (\<lambda>found.
         case found of
           None \<Rightarrow>
             bind_res (new_order_row num now link ord) (\<lambda>row. Inr
               (db\<lparr>db_orders := db_orders db @ [row],
                  db_events := db_events db @ map (event_row_of (or_id row)) (o_events ord)\<rparr>))
         | Some row \<Rightarrow> Inr
             (db\<lparr>db_orders := map (\<lambda>r. if mine r then update_order_row ord r else r) (db_orders db),
                db_events := db_events db
                  @ map (event_row_of (or_id row)) (drop (length (events_of db (or_id row))) (o_events ord))\<rparr>)))"

definition event_of_row :: "event_row \<Rightarrow> order_event" where
  "event_of_row e =
     \<lparr>ev_from = ew_from e, ev_to = ew_to e, ev_detail = (case ew_detail e of None \<Rightarrow> [] | Some d \<Rightarrow> d)\<rparr>"

definition order_of_row :: "tables \<Rightarrow> string \<Rightarrow> string \<Rightarrow> order_row \<Rightarrow> order" where
  "order_of_row db account_id symbol row =
     \<lparr>o_id = or_id row, o_idempotency_key = or_idempotency_key row, o_account_id = account_id,
      o_symbol = symbol, o_direction = or_direction row, o_order_type = or_order_type row,
      o_quantity = py_float (or_quantity row), o_price = map_option py_float (or_price row),
      o_status = or_status row, o_broker_order_id = or_broker_order_id row, o_filled_quantity = Fin 0,
      o_average_fill_price = None, o_rejection_reason = or_rejection_reason row,
      o_events = map event_of_row (events_of db (or_id row))\<rparr>"

text \<open>The join with the instruments keeps the rows whose instrument exists.\<close>

definition with_symbol :: "tables \<Rightarrow> ('r \<Rightarrow> uuid) \<Rightarrow> 'r list \<Rightarrow> ('r \<times> string) list" where
  "with_symbol db instrument rows =
     concat (map (\<lambda>r. case dict_get (db_symbols db) (instrument r) of None \<Rightarrow> [] | Some s \<Rightarrow> [(r, s)]) rows)"

definition load_recent_orders ::
  "(uuid \<Rightarrow> string) \<Rightarrow> tables \<Rightarrow> uuid \<Rightarrow> execution_mode \<Rightarrow> int \<Rightarrow> order list" where
  "load_recent_orders str_id db user_id mode since =
     map (\<lambda>(row, symbol). order_of_row db (str_id user_id) symbol row)
       (with_symbol db or_instrument
          (filter (\<lambda>r. or_user r = user_id \<and> or_mode r = mode \<and> since \<le> or_created_at r) (db_orders db)))"

definition ORDER_REHYDRATION_WINDOW :: int where
  "ORDER_REHYDRATION_WINDOW = us_per_day"

subsection \<open>Positions\<close>

definition open_for :: "uuid \<Rightarrow> execution_mode \<Rightarrow> string \<Rightarrow> position_row \<Rightarrow> bool" where
  "open_for user_id mode source_key r \<longleftrightarrow>
     pr_user r = user_id \<and> pr_mode r = mode \<and> pr_source r = source_key \<and> pr_is_open r"

definition abandon_position_mirrors :: "tables \<Rightarrow> uuid \<Rightarrow> execution_mode \<Rightarrow> string \<Rightarrow> tables \<times> nat" where
  "abandon_position_mirrors db user_id mode source_key =
     (db\<lparr>db_positions := map (\<lambda>r. if open_for user_id mode source_key r
                                  then r\<lparr>pr_is_open := False, pr_unrealized_pnl := 0\<rparr> else r) (db_positions db)\<rparr>,
      length (filter (open_for user_id mode source_key) (db_positions db)))"

definition mirror_position :: "to_numeric \<Rightarrow> position \<Rightarrow> position_row \<Rightarrow> db_error + position_row" where
  "mirror_position num pos row =
     bind_res (column num (p_quantity pos)) (\<lambda>quantity.
     bind_res (column num (p_average_price pos)) (\<lambda>average_price.
     bind_res (nullable num (p_stop pos)) (\<lambda>stop.
     bind_res (nullable num (p_target pos)) (\<lambda>target.
     bind_res (column num (p_unrealized_pnl pos)) (\<lambda>unrealized_pnl.
     bind_res (column num (p_realized_pnl pos)) (\<lambda>realized_pnl. Inr
       (row\<lparr>pr_quantity := quantity, pr_average_price := average_price, pr_stop := stop, pr_target := target,
           pr_protective_order_id := p_protective_order_id pos, pr_unrealized_pnl := unrealized_pnl,
           pr_realized_pnl := realized_pnl, pr_is_open := is_open pos\<rparr>)))))))"

definition blank_row :: "uuid \<Rightarrow> int \<Rightarrow> uuid \<Rightarrow> uuid \<Rightarrow> execution_mode \<Rightarrow> string \<Rightarrow> position_row" where
  "blank_row new_id now user_id instrument_id mode source_key =
     \<lparr>pr_id = new_id, pr_user = user_id, pr_instrument = instrument_id, pr_mode = mode, pr_source = source_key,
      pr_quantity = 0, pr_average_price = 0, pr_stop = None, pr_target = None, pr_protective_order_id = None,
      pr_unrealized_pnl = 0, pr_realized_pnl = 0, pr_is_open = False, pr_created_at = now\<rparr>"

definition persist_position ::
  "to_numeric \<Rightarrow> uuid \<Rightarrow> int \<Rightarrow> tables \<Rightarrow> uuid \<Rightarrow> uuid \<Rightarrow> position \<Rightarrow> execution_mode \<Rightarrow> string
     \<Rightarrow> db_error + tables \<times> position_row" where
  "persist_position num new_id now db user_id instrument_id pos mode source_key =
     (let mine = (\<lambda>r. pr_instrument r = instrument_id \<and> open_for user_id mode source_key r)
      in bind_res (scalar_one_or_none (filter mine (db_positions db))) (\<lambda>found.
         case found of
           None \<Rightarrow>
             bind_res (mirror_position num pos (blank_row new_id now user_id instrument_id mode source_key)) (\<lambda>row.
               Inr (db\<lparr>db_positions := db_positions db @ [row]\<rparr>, row))
         | Some r \<Rightarrow>
             bind_res (mirror_position num pos r) (\<lambda>row.
               Inr (db\<lparr>db_positions := map (\<lambda>x. if mine x then row else x) (db_positions db)\<rparr>, row))))"

definition position_of_row :: "string \<Rightarrow> string \<Rightarrow> position_row \<Rightarrow> position" where
  "position_of_row account_id symbol row =
     \<lparr>p_account_id = account_id, p_symbol = symbol, p_quantity = py_float (pr_quantity row),
      p_average_price = py_float (pr_average_price row), p_realized_pnl = py_float (pr_realized_pnl row),
      p_unrealized_pnl = py_float (pr_unrealized_pnl row), p_stop = map_option py_float (pr_stop row),
      p_target = map_option py_float (pr_target row), p_strategy_id = None,
      p_protective_order_id = pr_protective_order_id row\<rparr>"

definition load_open_positions ::
  "(uuid \<Rightarrow> string) \<Rightarrow> tables \<Rightarrow> uuid \<Rightarrow> execution_mode \<Rightarrow> string \<Rightarrow> position list" where
  "load_open_positions str_id db user_id mode source_key =
     map (\<lambda>(row, symbol). position_of_row (str_id user_id) symbol row)
       (with_symbol db pr_instrument (filter (open_for user_id mode source_key) (db_positions db)))"

definition ACCOUNT_BACKED_SOURCE_KEYS :: "string list" where
  "ACCOUNT_BACKED_SOURCE_KEYS = [''manual'', ''auto'']"

definition add_notional :: "(string, pyfloat) dict \<Rightarrow> position_row \<times> string \<Rightarrow> (string, pyfloat) dict" where
  "add_notional d item =
     (case item of (row, symbol) \<Rightarrow>
        dict_put symbol ((case dict_get d symbol of None \<Rightarrow> Fin 0 | Some x \<Rightarrow> x)
                         + py_float (pr_quantity row) * py_float (pr_average_price row)) d)"

definition load_open_position_notionals_elsewhere :: "tables \<Rightarrow> uuid \<Rightarrow> string \<Rightarrow> (string, pyfloat) dict" where
  "load_open_position_notionals_elsewhere db user_id excluding_source_key =
     foldl add_notional []
       (with_symbol db pr_instrument
          (filter (\<lambda>r. pr_user r = user_id \<and> pr_source r \<in> set ACCOUNT_BACKED_SOURCE_KEYS
                       \<and> pr_source r \<noteq> excluding_source_key \<and> pr_is_open r) (db_positions db)))"

subsection \<open>Trades and counters\<close>

definition MANUAL_TRADE_SOURCE :: string where
  "MANUAL_TRADE_SOURCE = ''manual_order''"

definition PAPER_SANDBOX_TRADE_SOURCE :: string where
  "PAPER_SANDBOX_TRADE_SOURCE = ''manual_paper''"

definition AUTO_TRADE_SOURCE :: string where
  "AUTO_TRADE_SOURCE = ''auto_trade''"

text \<open>A trade as the caller states it, with floats.\<close>

record trade_note =
  tn_direction :: direction
  tn_entry_price :: pyfloat
  tn_exit_price :: "pyfloat option"
  tn_quantity :: pyfloat
  tn_pnl :: pyfloat
  tn_stop :: "pyfloat option"
  tn_target :: "pyfloat option"
  tn_position :: "uuid option"
  tn_strategy :: "uuid option"
  tn_strategy_version :: "int option"

definition trade_row_of ::
  "to_numeric \<Rightarrow> int \<Rightarrow> int \<Rightarrow> string \<Rightarrow> uuid \<Rightarrow> uuid \<Rightarrow> execution_mode \<Rightarrow> numeric option \<Rightarrow> trade_note
     \<Rightarrow> db_error + trade_row" where
  "trade_row_of num opened_at closed_at source user_id instrument_id mode r_multiple note =
     bind_res (column num (tn_entry_price note)) (\<lambda>entry_price.
     bind_res (nullable num (tn_exit_price note)) (\<lambda>exit_price.
     bind_res (column num (tn_quantity note)) (\<lambda>quantity.
     bind_res (nullable num (tn_stop note)) (\<lambda>stop.
     bind_res (nullable num (tn_target note)) (\<lambda>target.
     bind_res (column num (tn_pnl note)) (\<lambda>pnl. Inr
       \<lparr>tr_user = user_id, tr_position = tn_position note, tr_instrument = instrument_id,
        tr_strategy = tn_strategy note, tr_strategy_version = tn_strategy_version note, tr_mode = mode,
        tr_direction = tn_direction note, tr_entry_price = entry_price, tr_exit_price = exit_price,
        tr_quantity = quantity, tr_stop = stop, tr_target = target, tr_pnl = Some pnl,
        tr_r_multiple = r_multiple, tr_opened_at = opened_at, tr_closed_at = Some closed_at, tr_source = Some source\<rparr>))))))"

definition record_trade ::
  "to_numeric \<Rightarrow> int \<Rightarrow> tables \<Rightarrow> uuid \<Rightarrow> uuid \<Rightarrow> execution_mode \<Rightarrow> trade_note \<Rightarrow> db_error + tables" where
  "record_trade num now db user_id instrument_id mode note =
     bind_res (trade_row_of num now now MANUAL_TRADE_SOURCE user_id instrument_id mode None note) (\<lambda>row.
       Inr (db\<lparr>db_trades := db_trades db @ [row]\<rparr>))"

definition risk_window_starts :: "datetime \<Rightarrow> py_error + datetime \<times> datetime" where
  "risk_window_starts now =
     (let day_start = now\<lparr>dt_us := 0, dt_offset := Some 0\<rparr>
      in bind_res (dt_add day_start (- ((dt_day now + 6) mod 7 * us_per_day))) (\<lambda>week_start.
           Inr (day_start, week_start)))"

definition load_orders_placed_since :: "tables \<Rightarrow> uuid \<Rightarrow> execution_mode \<Rightarrow> int \<Rightarrow> int" where
  "load_orders_placed_since db user_id mode since =
     int (length (filter (\<lambda>r. or_user r = user_id \<and> or_mode r = mode \<and> since \<le> or_created_at r) (db_orders db)))"

text \<open>\<open>coalesce(sum(pnl), 0)\<close> skips absent values.\<close>

definition sum_pnl :: "trade_row list \<Rightarrow> numeric" where
  "sum_pnl rows = sum_list (map (\<lambda>r. case tr_pnl r of None \<Rightarrow> 0 | Some x \<Rightarrow> x) rows)"

definition closed_since :: "int \<Rightarrow> trade_row \<Rightarrow> bool" where
  "closed_since since r = (case tr_closed_at r of None \<Rightarrow> False | Some t \<Rightarrow> since \<le> t)"

definition load_realized_pnl_since :: "tables \<Rightarrow> uuid \<Rightarrow> execution_mode \<Rightarrow> int \<Rightarrow> pyfloat" where
  "load_realized_pnl_since db user_id mode since =
     py_float (sum_pnl (filter (\<lambda>r. tr_user r = user_id \<and> tr_mode r = mode
        \<and> tr_source r = Some MANUAL_TRADE_SOURCE \<and> closed_since since r) (db_trades db)))"

definition written_by_the_auto_trade_worker :: "trade_row \<Rightarrow> bool" where
  "written_by_the_auto_trade_worker r \<longleftrightarrow>
     tr_source r = Some AUTO_TRADE_SOURCE \<or> (tr_source r = None \<and> tr_strategy r \<noteq> None)"

definition load_auto_trade_entries_since :: "tables \<Rightarrow> uuid \<Rightarrow> int \<Rightarrow> string \<Rightarrow> int" where
  "load_auto_trade_entries_since db user_id since source_key =
     int (length (filter (\<lambda>r. tr_user r = user_id \<and> written_by_the_auto_trade_worker r \<and> since \<le> tr_opened_at r)
            (db_trades db)))
     + int (length (filter (\<lambda>r. pr_user r = user_id \<and> pr_source r = source_key \<and> pr_is_open r \<and> since \<le> pr_created_at r)
            (db_positions db)))"

definition load_auto_trade_realized_pnl_since :: "tables \<Rightarrow> uuid \<Rightarrow> int \<Rightarrow> pyfloat" where
  "load_auto_trade_realized_pnl_since db user_id since =
     py_float (sum_pnl (filter (\<lambda>r. tr_user r = user_id \<and> written_by_the_auto_trade_worker r
        \<and> closed_since since r) (db_trades db)))"

subsection \<open>Rows\<close>

lemma filter_replace:
  "filter P (map (\<lambda>x. if P x then y else x) xs) = (if P y then replicate (length (filter P xs)) y else [])"
  by (induction xs) auto

lemma filter_replace_other:
  "(\<And>x. Q x \<Longrightarrow> \<not> P x) \<Longrightarrow> \<not> Q y \<Longrightarrow> filter Q (map (\<lambda>x. if P x then y else x) xs) = filter Q xs"
  by (induction xs) auto

lemma column_Inr: "column num x = Inr r \<longleftrightarrow> num x = Some r"
  by (simp add: column_def of_opt_Inr)

lemma scalar_simps [simp]:
  "scalar_one_or_none [] = Inr None" "scalar_one_or_none [r] = Inr (Some r)"
  by (simp_all add: scalar_one_or_none_def)

lemma with_symbol_simps [simp]:
  "with_symbol db f [] = []"
  "with_symbol db f (r # rs) = (case dict_get (db_symbols db) (f r) of None \<Rightarrow> [] | Some s \<Rightarrow> [(r, s)]) @ with_symbol db f rs"
  by (simp_all add: with_symbol_def)

text \<open>A number the column gives back unchanged.\<close>

definition kept :: "to_numeric \<Rightarrow> pyfloat \<Rightarrow> bool" where
  "kept num x \<longleftrightarrow> (case num x of None \<Rightarrow> False | Some r \<Rightarrow> py_float r = x)"

definition kept_opt :: "to_numeric \<Rightarrow> pyfloat option \<Rightarrow> bool" where
  "kept_opt num x \<longleftrightarrow> (case x of None \<Rightarrow> True | Some v \<Rightarrow> kept num v)"

lemma keptE:
  assumes "kept num x"
  obtains r where "num x = Some r" "column num x = Inr r" "py_float r = x"
  using assms by (auto simp: kept_def column_def split: option.splits)

lemma kept_optE:
  assumes "kept_opt num x"
  obtains r where "nullable num x = Inr r" "map_option py_float r = x"
  using assms by (cases x) (auto simp: kept_opt_def nullable_def column_def kept_def split: option.splits)

definition position_kept :: "to_numeric \<Rightarrow> position \<Rightarrow> bool" where
  "position_kept num p \<longleftrightarrow> kept num (p_quantity p) \<and> kept num (p_average_price p) \<and> kept num (p_unrealized_pnl p)
     \<and> kept num (p_realized_pnl p) \<and> kept_opt num (p_stop p) \<and> kept_opt num (p_target p)"

text \<open>What a restart can know of a position: all but the strategy it belongs to.\<close>

definition reloaded :: "string \<Rightarrow> string \<Rightarrow> position \<Rightarrow> position" where
  "reloaded account_id symbol p = p\<lparr>p_account_id := account_id, p_symbol := symbol, p_strategy_id := None\<rparr>"

lemma mirror_position_kept:
  assumes "position_kept num p"
  obtains row where "mirror_position num p r = Inr row"
    "\<And>a s. position_of_row a s row = reloaded a s p" "pr_is_open row = is_open p"
    "pr_user row = pr_user r" "pr_instrument row = pr_instrument r" "pr_mode row = pr_mode r"
    "pr_source row = pr_source r" "pr_id row = pr_id r" "pr_created_at row = pr_created_at r"
proof -
  obtain q a u z where n: "column num (p_quantity p) = Inr q" "py_float q = p_quantity p"
    "column num (p_average_price p) = Inr a" "py_float a = p_average_price p"
    "column num (p_unrealized_pnl p) = Inr u" "py_float u = p_unrealized_pnl p"
    "column num (p_realized_pnl p) = Inr z" "py_float z = p_realized_pnl p"
    using assms unfolding position_kept_def by (metis keptE)
  obtain st tg where o: "nullable num (p_stop p) = Inr st" "map_option py_float st = p_stop p"
    "nullable num (p_target p) = Inr tg" "map_option py_float tg = p_target p"
    using assms unfolding position_kept_def by (metis kept_optE)
  show thesis
  proof (rule that)
    show "mirror_position num p r = Inr
       (r\<lparr>pr_quantity := q, pr_average_price := a, pr_stop := st, pr_target := tg,
          pr_protective_order_id := p_protective_order_id p, pr_unrealized_pnl := u, pr_realized_pnl := z,
          pr_is_open := is_open p\<rparr>)"
      by (simp add: mirror_position_def n o)
  qed (simp_all add: position_of_row_def reloaded_def n o)
qed

subsection \<open>The position mirror\<close>

definition rows_for :: "tables \<Rightarrow> uuid \<Rightarrow> uuid \<Rightarrow> execution_mode \<Rightarrow> string \<Rightarrow> position_row list" where
  "rows_for db u i m k = filter (\<lambda>r. pr_instrument r = i \<and> open_for u m k r) (db_positions db)"

lemma persist_position_step:
  assumes "position_kept num p" and "length (rows_for db u i m k) \<le> 1"
  obtains db' row where "persist_position num new_id now db u i p m k = Inr (db', row)"
    "rows_for db' u i m k = (if is_open p then [row] else [])"
    "\<And>u' i' m' k'. (u', i', m', k') \<noteq> (u, i, m, k) \<Longrightarrow> rows_for db' u' i' m' k' = rows_for db u' i' m' k'"
    "\<And>a s. position_of_row a s row = reloaded a s p" "db_symbols db' = db_symbols db"
proof (cases "rows_for db u i m k")
  case Nil
  obtain row where row: "mirror_position num p (blank_row new_id now u i m k) = Inr row"
    "\<And>a s. position_of_row a s row = reloaded a s p" "pr_is_open row = is_open p"
    "pr_user row = u" "pr_instrument row = i" "pr_mode row = m" "pr_source row = k"
    using mirror_position_kept [OF assms(1), of "blank_row new_id now u i m k"] by (auto simp: blank_row_def)
  show thesis
  proof (rule that)
    show "persist_position num new_id now db u i p m k = Inr (db\<lparr>db_positions := db_positions db @ [row]\<rparr>, row)"
      using Nil row(1) by (simp add: persist_position_def rows_for_def Let_def)
  qed (use Nil row in \<open>auto simp: rows_for_def open_for_def\<close>)
next
  case (Cons r rs)
  with assms(2) have one: "rows_for db u i m k = [r]" by simp
  then have r: "pr_user r = u" "pr_instrument r = i" "pr_mode r = m" "pr_source r = k"
    by (auto simp: rows_for_def open_for_def filter_eq_Cons_iff)
  obtain row where row: "mirror_position num p r = Inr row"
    "\<And>a s. position_of_row a s row = reloaded a s p" "pr_is_open row = is_open p"
    "pr_user row = u" "pr_instrument row = i" "pr_mode row = m" "pr_source row = k"
    using mirror_position_kept [OF assms(1), of r] r by metis
  let ?db = "db\<lparr>db_positions := map (\<lambda>x. if pr_instrument x = i \<and> open_for u m k x then row else x) (db_positions db)\<rparr>"
  show thesis
  proof (rule that)
    show "persist_position num new_id now db u i p m k = Inr (?db, row)"
      using one row(1) by (simp add: persist_position_def rows_for_def Let_def)
    show "rows_for ?db u i m k = (if is_open p then [row] else [])"
      using one row by (simp add: rows_for_def filter_replace, simp add: open_for_def)
    show "rows_for ?db u' i' m' k' = rows_for db u' i' m' k'" if "(u', i', m', k') \<noteq> (u, i, m, k)" for u' i' m' k'
      unfolding rows_for_def using that row by (simp, intro filter_replace_other) (auto simp: open_for_def)
  qed (use row in simp_all)
qed

text \<open>The writes of every engine, in the order they reach the table.\<close>

record position_write =
  pw_user :: uuid
  pw_instrument :: uuid
  pw_mode :: execution_mode
  pw_source :: string
  pw_position :: position
  pw_new_id :: uuid
  pw_now :: int

definition write_one :: "to_numeric \<Rightarrow> position_write \<Rightarrow> tables \<Rightarrow> db_error + tables" where
  "write_one num w db =
     bind_res (persist_position num (pw_new_id w) (pw_now w) db (pw_user w) (pw_instrument w) (pw_position w)
                 (pw_mode w) (pw_source w)) (\<lambda>(db, row). Inr db)"

definition write_all :: "to_numeric \<Rightarrow> position_write list \<Rightarrow> tables \<Rightarrow> db_error + tables" where
  "write_all num ws db = foldl (\<lambda>m w. bind_res m (write_one num w)) (Inr db) ws"

definition last_write :: "position_write list \<Rightarrow> uuid \<Rightarrow> uuid \<Rightarrow> execution_mode \<Rightarrow> string \<Rightarrow> position_write option" where
  "last_write ws u i m k =
     find (\<lambda>w. pw_user w = u \<and> pw_instrument w = i \<and> pw_mode w = m \<and> pw_source w = k) (rev ws)"

text \<open>The open position an engine last wrote.\<close>

definition open_write :: "position_write list \<Rightarrow> uuid \<Rightarrow> uuid \<Rightarrow> execution_mode \<Rightarrow> string \<Rightarrow> position option" where
  "open_write ws u i m k =
     (case last_write ws u i m k of
        None \<Rightarrow> None | Some w \<Rightarrow> if is_open (pw_position w) then Some (pw_position w) else None)"

definition option_list :: "'a option \<Rightarrow> 'a list" where
  "option_list x = (case x of None \<Rightarrow> [] | Some a \<Rightarrow> [a])"

lemma option_list_simps [simp]: "option_list None = []" "option_list (Some a) = [a]"
  by (simp_all add: option_list_def)

definition reflects :: "tables \<Rightarrow> position_write list \<Rightarrow> bool" where
  "reflects db ws \<longleftrightarrow>
     (\<forall>u i m k a s. map (position_of_row a s) (rows_for db u i m k) = option_list (map_option (reloaded a s) (open_write ws u i m k)))"

lemma reflects_length: "reflects db ws \<Longrightarrow> length (rows_for db u i m k) \<le> 1"
proof -
  assume "reflects db ws"
  then have "map (position_of_row [] []) (rows_for db u i m k) = option_list (map_option (reloaded [] []) (open_write ws u i m k))"
    by (simp add: reflects_def)
  then have "length (rows_for db u i m k) = length (option_list (map_option (reloaded [] []) (open_write ws u i m k)))"
    by (metis length_map)
  also have "\<dots> \<le> 1" by (simp add: option_list_def split: option.split)
  finally show ?thesis .
qed

lemma write_one_reflects:
  assumes "reflects db ws" and "position_kept num (pw_position w)"
  obtains db' where "write_one num w db = Inr db'" "reflects db' (ws @ [w])" "db_symbols db' = db_symbols db"
proof -
  obtain db' row where step:
    "persist_position num (pw_new_id w) (pw_now w) db (pw_user w) (pw_instrument w) (pw_position w) (pw_mode w) (pw_source w)
       = Inr (db', row)"
    "rows_for db' (pw_user w) (pw_instrument w) (pw_mode w) (pw_source w) = (if is_open (pw_position w) then [row] else [])"
    "\<And>u' i' m' k'. (u', i', m', k') \<noteq> (pw_user w, pw_instrument w, pw_mode w, pw_source w)
       \<Longrightarrow> rows_for db' u' i' m' k' = rows_for db u' i' m' k'"
    "\<And>a s. position_of_row a s row = reloaded a s (pw_position w)" "db_symbols db' = db_symbols db"
    by (rule persist_position_step [OF assms(2) reflects_length [OF assms(1)], where new_id = "pw_new_id w" and now = "pw_now w"
          and u = "pw_user w" and i = "pw_instrument w" and m = "pw_mode w" and k = "pw_source w"]) blast
  have "map (position_of_row a s) (rows_for db' u i m k) = option_list (map_option (reloaded a s) (open_write (ws @ [w]) u i m k))"
    for u i m k a s
  proof (cases "(u, i, m, k) = (pw_user w, pw_instrument w, pw_mode w, pw_source w)")
    case True
    then show ?thesis using step(2,4) by (simp add: open_write_def last_write_def)
  next
    case False
    then have "open_write (ws @ [w]) u i m k = open_write ws u i m k"
      by (auto simp: open_write_def last_write_def)
    with False step(3) assms(1) show ?thesis by (simp add: reflects_def)
  qed
  then have "reflects db' (ws @ [w])" by (simp add: reflects_def)
  with step(1,5) that show thesis by (simp add: write_one_def)
qed

lemma write_all_reflects:
  assumes "db_positions db = []" and "list_all (\<lambda>w. position_kept num (pw_position w)) ws"
  shows "\<exists>db'. write_all num ws db = Inr db' \<and> reflects db' ws \<and> db_symbols db' = db_symbols db"
  using assms(2)
proof (induction ws rule: rev_induct)
  case Nil
  then show ?case
    using assms(1) by (simp add: write_all_def reflects_def rows_for_def open_write_def last_write_def)
next
  case (snoc w ws)
  then obtain db1 where db1: "write_all num ws db = Inr db1" "reflects db1 ws" "db_symbols db1 = db_symbols db" by auto
  obtain db2 where "write_one num w db1 = Inr db2" "reflects db2 (ws @ [w])" "db_symbols db2 = db_symbols db1"
    using write_one_reflects [OF db1(2), of num w] snoc.prems by auto
  with db1 show ?case by (simp add: write_all_def)
qed

subsection \<open>Reading positions back\<close>

text \<open>Every instrument row has its own symbol.\<close>

definition symbols_ok :: "tables \<Rightarrow> bool" where
  "symbols_ok db \<longleftrightarrow> dict_ok (db_symbols db) \<and> distinct (map snd (db_symbols db))"

lemma symbol_unique:
  assumes "symbols_ok db" "dict_get (db_symbols db) i = Some s" "dict_get (db_symbols db) j = Some s"
  shows "i = j"
proof -
  have "(i, s) \<in> set (db_symbols db)" "(j, s) \<in> set (db_symbols db)"
    using assms dict_items_get [of "db_symbols db"] by (simp_all add: symbols_ok_def)
  then show ?thesis
    using assms(1) inj_onD [of snd "set (db_symbols db)" "(i, s)" "(j, s)"] by (simp add: symbols_ok_def distinct_map)
qed

lemma with_symbol_filter:
  assumes "symbols_ok db" "dict_get (db_symbols db) i = Some nm"
  shows "filter (\<lambda>x. snd x = nm) (with_symbol db f rows) = map (\<lambda>r. (r, nm)) (filter (\<lambda>r. f r = i) rows)"
proof (induction rows)
  case (Cons r rows)
  have "f r = i" if "dict_get (db_symbols db) (f r) = Some nm"
    using symbol_unique [OF assms(1) that assms(2)] .
  with Cons assms(2) show ?case by (cases "dict_get (db_symbols db) (f r)") auto
qed simp

lemma restore_positions_get:
  "get_position (restore_positions book ps) a s =
     (case last_opt (filter (\<lambda>p. p_account_id p = a \<and> p_symbol p = s) ps) of
        None \<Rightarrow> get_position book a s | Some p \<Rightarrow> Some p)"
  by (induction ps rule: rev_induct) (auto simp: restore_positions_def get_position_def split: option.splits)

lemma loaded_for_symbol:
  assumes "symbols_ok db" "dict_get (db_symbols db) i = Some nm"
  shows "filter (\<lambda>p. p_account_id p = str_id u \<and> p_symbol p = nm) (load_open_positions str_id db u m k)
    = map (position_of_row (str_id u) nm) (rows_for db u i m k)"
proof -
  have "filter (\<lambda>p. p_account_id p = str_id u \<and> p_symbol p = nm)
      (map (\<lambda>(row, symbol). position_of_row (str_id u) symbol row) rows)
    = map (\<lambda>(row, symbol). position_of_row (str_id u) symbol row) (filter (\<lambda>x. snd x = nm) rows)" for rows
    by (induction rows) (auto simp: position_of_row_def)
  then show ?thesis
    by (simp add: load_open_positions_def with_symbol_filter [OF assms] rows_for_def conj_commute)
qed

lemma restart_reads_back:
  assumes "symbols_ok db" "dict_get (db_symbols db) i = Some nm" "reflects db ws"
  shows "get_position (restore_positions [] (load_open_positions str_id db u m k)) (str_id u) nm
    = map_option (reloaded (str_id u) nm) (open_write ws u i m k)"
  using assms(3) unfolding restore_positions_get loaded_for_symbol [OF assms(1,2)] reflects_def
  by (cases "open_write ws u i m k") (simp_all add: get_position_def last_opt_def)

subsection \<open>The exposure of the account\<close>

lemma add_notional_get:
  "dict_get (foldl add_notional d items) s =
     (let mine = filter (\<lambda>x. snd x = s) items
      in if mine = [] then dict_get d s
         else Some (foldl (\<lambda>acc x. acc + py_float (pr_quantity (fst x)) * py_float (pr_average_price (fst x)))
                (case dict_get d s of None \<Rightarrow> Fin 0 | Some x \<Rightarrow> x) mine))"
  by (induction items arbitrary: d) (auto simp: add_notional_def Let_def split: prod.splits option.splits)

lemma reflects_written:
  assumes "reflects db ws" "r \<in> set (db_positions db)" "pr_is_open r"
  shows "\<exists>w \<in> set ws. pw_user w = pr_user r \<and> pw_instrument w = pr_instrument r \<and> pw_mode w = pr_mode r
    \<and> pw_source w = pr_source r"
proof -
  have "r \<in> set (rows_for db (pr_user r) (pr_instrument r) (pr_mode r) (pr_source r))"
    using assms(2,3) by (simp add: rows_for_def open_for_def)
  moreover have "map (position_of_row [] []) (rows_for db (pr_user r) (pr_instrument r) (pr_mode r) (pr_source r))
    = option_list (map_option (reloaded [] []) (open_write ws (pr_user r) (pr_instrument r) (pr_mode r) (pr_source r)))"
    using assms(1) by (simp add: reflects_def)
  ultimately have "open_write ws (pr_user r) (pr_instrument r) (pr_mode r) (pr_source r) \<noteq> None"
    by (cases "open_write ws (pr_user r) (pr_instrument r) (pr_mode r) (pr_source r)") auto
  then obtain w where "last_write ws (pr_user r) (pr_instrument r) (pr_mode r) (pr_source r) = Some w"
    by (auto simp: open_write_def split: option.splits)
  then show ?thesis
    unfolding last_write_def find_Some_iff by (metis length_rev nth_mem set_rev)
qed

definition notional_of :: "position \<Rightarrow> pyfloat" where
  "notional_of p = Fin 0 + p_quantity p * p_average_price p"

lemma exposure_elsewhere:
  assumes r: "reflects db ws" and nm: "symbols_ok db" "dict_get (db_symbols db) i = Some s"
    and keys: "(mine, other) \<in> {(''manual'', ''auto''), (''auto'', ''manual'')}"
    and mode: "\<And>w. w \<in> set ws \<Longrightarrow> pw_user w = u \<Longrightarrow> pw_source w = other \<Longrightarrow> pw_mode w = m"
  shows "dict_get (load_open_position_notionals_elsewhere db u mine) s = map_option notional_of (open_write ws u i m other)"
proof -
  let ?Q = "\<lambda>r. pr_user r = u \<and> pr_source r \<in> set ACCOUNT_BACKED_SOURCE_KEYS \<and> pr_source r \<noteq> mine \<and> pr_is_open r"
  have "?Q r \<longleftrightarrow> open_for u m other r" if "r \<in> set (db_positions db)" for r
    using keys reflects_written [OF r that] mode by (auto simp: open_for_def ACCOUNT_BACKED_SOURCE_KEYS_def)
  then have same: "filter ?Q (db_positions db) = filter (open_for u m other) (db_positions db)"
    by (rule filter_cong [OF refl])
  have rows: "filter (\<lambda>x. snd x = s) (with_symbol db pr_instrument (filter ?Q (db_positions db)))
    = map (\<lambda>r. (r, s)) (rows_for db u i m other)"
    unfolding same with_symbol_filter [OF nm] by (simp add: rows_for_def conj_commute)
  have view: "map (position_of_row [] s) (rows_for db u i m other) = option_list (map_option (reloaded [] s) (open_write ws u i m other))"
    using r by (simp add: reflects_def)
  show ?thesis
  proof (cases "open_write ws u i m other")
    case None
    then show ?thesis
      using view rows by (simp add: load_open_position_notionals_elsewhere_def add_notional_get)
  next
    case (Some p)
    with view obtain x where x: "rows_for db u i m other = [x]" "position_of_row [] s x = reloaded [] s p" by auto
    have "py_float (pr_quantity x) = p_quantity p" "py_float (pr_average_price x) = p_average_price p"
      using arg_cong [OF x(2), of p_quantity] arg_cong [OF x(2), of p_average_price]
      by (simp_all add: position_of_row_def reloaded_def)
    with Some x rows show ?thesis
      by (simp add: load_open_position_notionals_elsewhere_def add_notional_get notional_of_def)
  qed
qed

subsection \<open>The order journal\<close>

text \<open>The orders every process journals, in the order they reach the table: the time, who for, the order
  as it stands.\<close>

type_synonym order_write = "int \<times> order_link \<times> order"

abbreviation ow_key :: "order_write \<Rightarrow> string" where
  "ow_key w \<equiv> o_idempotency_key (snd (snd w))"

abbreviation ow_id :: "order_write \<Rightarrow> uuid" where
  "ow_id w \<equiv> o_id (snd (snd w))"

definition journal_all :: "to_numeric \<Rightarrow> order_write list \<Rightarrow> tables \<Rightarrow> db_error + tables" where
  "journal_all num ws db = foldl (\<lambda>m (now, link, ord). bind_res m (\<lambda>db. persist_order num now link db ord)) (Inr db) ws"

definition first_with :: "string \<Rightarrow> order_write list \<Rightarrow> order_write option" where
  "first_with key ws = find (\<lambda>w. ow_key w = key) ws"

definition last_with :: "string \<Rightarrow> order_write list \<Rightarrow> order_write option" where
  "last_with key ws = find (\<lambda>w. ow_key w = key) (rev ws)"

text \<open>What one key names stays one order: its id, its terms, its owner; its history only grows.\<close>

definition same_order :: "order_write \<Rightarrow> order_write \<Rightarrow> bool" where
  "same_order v w \<longleftrightarrow>
     ow_id v = ow_id w \<and> order_terms (snd (snd v)) = order_terms (snd (snd w)) \<and> fst (snd v) = fst (snd w)
     \<and> is_prefix_of (o_events (snd (snd v))) (o_events (snd (snd w)))"

fun writes_ok :: "to_numeric \<Rightarrow> order_write list \<Rightarrow> order_write list \<Rightarrow> bool" where
  "writes_ok num before [] = True"
| "writes_ok num before (w # ws) =
     (kept num (o_quantity (snd (snd w))) \<and> kept_opt num (o_price (snd (snd w)))
      \<and> list_all (\<lambda>v. (ow_key v = ow_key w \<longrightarrow> same_order v w) \<and> (ow_id v = ow_id w \<longrightarrow> ow_key v = ow_key w)) before
      \<and> writes_ok num (before @ [w]) ws)"

text \<open>What a restart can know of an order: all but what was filled and at which price.\<close>

definition reloaded_order :: "string \<Rightarrow> string \<Rightarrow> order \<Rightarrow> order" where
  "reloaded_order account_id symbol ord =
     ord\<lparr>o_account_id := account_id, o_symbol := symbol, o_filled_quantity := Fin 0, o_average_fill_price := None,
         o_rejection_reason := clip (o_rejection_reason ord) REJECTION_REASON_LIMIT\<rparr>"

definition journals :: "tables \<Rightarrow> order_write list \<Rightarrow> bool" where
  "journals db ws \<longleftrightarrow>
     (\<forall>key. case last_with key ws of
        None \<Rightarrow> filter (\<lambda>r. or_idempotency_key r = key) (db_orders db) = []
      | Some (now, link, ord) \<Rightarrow>
          (\<exists>row. filter (\<lambda>r. or_idempotency_key r = key) (db_orders db) = [row]
             \<and> (\<forall>a s. order_of_row db a s row = reloaded_order a s ord)
             \<and> or_user row = ol_user link \<and> or_mode row = ol_mode link \<and> or_instrument row = ol_instrument link
             \<and> Some (or_created_at row) = map_option fst (first_with key ws)))
     \<and> (\<forall>oid. (\<forall>w \<in> set ws. ow_id w \<noteq> oid) \<longrightarrow> events_of db oid = [])"

lemma event_row_roundtrip [simp]: "event_of_row (event_row_of oid ev) = ev"
  by (simp add: event_of_row_def event_row_of_def)

lemma event_rows_of [simp]:
  "filter (\<lambda>e. ew_order e = oid) (map (event_row_of i) evs) = (if i = oid then map (event_row_of i) evs else [])"
  by (induction evs) (auto simp: event_row_of_def)

lemma last_with_snoc: "last_with key (ws @ [w]) = (if ow_key w = key then Some w else last_with key ws)"
  by (simp add: last_with_def)

lemma first_with_snoc:
  "first_with key (ws @ [w]) = (case first_with key ws of Some v \<Rightarrow> Some v | None \<Rightarrow> if ow_key w = key then Some w else None)"
  by (induction ws) (auto simp: first_with_def)

lemma last_with_in:
  assumes "last_with key ws = Some w"
  shows "w \<in> set ws" "ow_key w = key"
  using assms unfolding last_with_def find_Some_iff by (metis length_rev nth_mem set_rev)+

lemma last_with_None: "last_with key ws = None \<longleftrightarrow> (\<forall>w \<in> set ws. ow_key w \<noteq> key)"
  unfolding last_with_def find_None_iff set_rev by blast

lemma order_of_row_cong:
  "events_of db' (or_id r) = events_of db (or_id r) \<Longrightarrow> order_of_row db' a s r = order_of_row db a s r"
  by (simp add: order_of_row_def)

lemma order_of_row_id:
  assumes "\<And>a s. order_of_row db a s row = reloaded_order a s ord"
  shows "or_id row = o_id ord" "map event_of_row (events_of db (or_id row)) = o_events ord"
  using arg_cong [OF assms [of "[]" "[]"], of o_id] arg_cong [OF assms [of "[]" "[]"], of o_events]
  by (simp_all add: order_of_row_def reloaded_order_def)

lemma persist_order_new:
  assumes "kept num (o_quantity ord)" "kept_opt num (o_price ord)"
    and "filter (\<lambda>r. or_idempotency_key r = o_idempotency_key ord) (db_orders db) = []"
    and "events_of db (o_id ord) = []"
  obtains row db' where "persist_order num now link db ord = Inr db'" "db_orders db' = db_orders db @ [row]"
    "db_symbols db' = db_symbols db" "or_idempotency_key row = o_idempotency_key ord"
    "\<And>a s. order_of_row db' a s row = reloaded_order a s ord" "or_user row = ol_user link" "or_mode row = ol_mode link"
    "or_instrument row = ol_instrument link" "or_created_at row = now"
    "\<And>oid. oid \<noteq> o_id ord \<Longrightarrow> events_of db' oid = events_of db oid"
proof -
  obtain q where q: "column num (o_quantity ord) = Inr q" "py_float q = o_quantity ord"
    using assms(1) by (rule keptE)
  obtain x where x: "nullable num (o_price ord) = Inr x" "map_option py_float x = o_price ord"
    using assms(2) by (rule kept_optE)
  obtain row where row: "new_order_row num now link ord = Inr row" "or_id row = o_id ord"
    "or_idempotency_key row = o_idempotency_key ord" "or_user row = ol_user link" "or_mode row = ol_mode link"
    "or_instrument row = ol_instrument link" "or_created_at row = now"
    "\<And>db a s. order_of_row db a s row = (reloaded_order a s ord)\<lparr>o_events := map event_of_row (events_of db (o_id ord))\<rparr>"
    by (simp add: new_order_row_def q x order_of_row_def reloaded_order_def)
  let ?db = "db\<lparr>db_orders := db_orders db @ [row], db_events := db_events db @ map (event_row_of (o_id ord)) (o_events ord)\<rparr>"
  have own: "events_of ?db (o_id ord) = map (event_row_of (o_id ord)) (o_events ord)"
    using assms(4) by (simp add: events_of_def)
  show thesis
  proof (rule that [of ?db row])
    show "persist_order num now link db ord = Inr ?db"
      using assms(3) row(1,2) by (simp add: persist_order_def)
    show "order_of_row ?db a s row = reloaded_order a s ord" for a s
      by (simp add: row(8) own comp_def, simp add: reloaded_order_def)
  qed (simp_all add: row events_of_def)
qed

lemma persist_order_again:
  assumes "filter (\<lambda>r. or_idempotency_key r = o_idempotency_key ord) (db_orders db) = [row]"
    and old: "\<And>a s. order_of_row db a s row = reloaded_order a s ord0"
    and same: "o_id ord0 = o_id ord" "order_terms ord0 = order_terms ord" "is_prefix_of (o_events ord0) (o_events ord)"
      "o_idempotency_key ord0 = o_idempotency_key ord"
  obtains db' where "persist_order num now link db ord = Inr db'"
    "db_orders db' = map (\<lambda>r. if or_idempotency_key r = o_idempotency_key ord then update_order_row ord r else r) (db_orders db)"
    "db_symbols db' = db_symbols db"
    "\<And>a s. order_of_row db' a s (update_order_row ord row) = reloaded_order a s ord"
    "\<And>oid. oid \<noteq> o_id ord \<Longrightarrow> events_of db' oid = events_of db oid"
proof -
  note id = order_of_row_id [OF old]
  obtain new where new: "o_events ord = o_events ord0 @ new" using same(3) by (auto simp: is_prefix_of_def)
  have len: "length (events_of db (o_id ord)) = length (o_events ord0)"
    using arg_cong [OF id(2), of length] id(1) same(1) by simp
  let ?db = "db\<lparr>db_orders := map (\<lambda>r. if or_idempotency_key r = o_idempotency_key ord then update_order_row ord r else r) (db_orders db),
      db_events := db_events db @ map (event_row_of (o_id ord)) new\<rparr>"
  have own: "map event_of_row (events_of ?db (o_id ord)) = o_events ord"
    using id same(1) by (simp add: events_of_def new comp_def)
  show thesis
  proof (rule that [of ?db])
    show "persist_order num now link db ord = Inr ?db"
      using assms(1) id(1) same(1) len new by (simp add: persist_order_def)
    show "order_of_row ?db a s (update_order_row ord row) = reloaded_order a s ord" for a s
      using old [of a s] own id(1) same
      by (cases ord0; cases ord) (simp add: order_of_row_def update_order_row_def reloaded_order_def order_terms_def)
  qed (simp_all add: events_of_def)
qed

lemma journals_last:
  assumes "journals db ws" "last_with key ws = Some (now, link, ord)"
  obtains row where "filter (\<lambda>r. or_idempotency_key r = key) (db_orders db) = [row]"
    "\<And>a s. order_of_row db a s row = reloaded_order a s ord" "or_user row = ol_user link" "or_mode row = ol_mode link"
    "or_instrument row = ol_instrument link" "Some (or_created_at row) = map_option fst (first_with key ws)"
  using conjunct1 [OF assms(1) [unfolded journals_def], THEN spec [of _ key]] assms(2) by auto

lemma journals_None:
  assumes "journals db ws" "last_with key ws = None"
  shows "filter (\<lambda>r. or_idempotency_key r = key) (db_orders db) = []"
  using conjunct1 [OF assms(1) [unfolded journals_def], THEN spec [of _ key]] assms(2) by simp

lemma journals_step:
  assumes j: "journals db ws" and ok: "writes_ok num ws [(now, link, ord)]"
  obtains db' where "persist_order num now link db ord = Inr db'" "journals db' (ws @ [(now, link, ord)])"
    "db_symbols db' = db_symbols db"
proof -
  let ?w = "(now, link, ord)" and ?key = "o_idempotency_key ord"
  have num: "kept num (o_quantity ord)" "kept_opt num (o_price ord)"
    and same: "\<And>v. v \<in> set ws \<Longrightarrow> ow_key v = ?key \<Longrightarrow> same_order v ?w"
    and ids: "\<And>v. v \<in> set ws \<Longrightarrow> ow_id v = o_id ord \<Longrightarrow> ow_key v = ?key"
    using ok by (auto simp: list_all_iff)
  have step: "journals db' (ws @ [?w])"
    if others: "\<And>key. key \<noteq> ?key \<Longrightarrow> filter (\<lambda>r. or_idempotency_key r = key) (db_orders db')
        = filter (\<lambda>r. or_idempotency_key r = key) (db_orders db)"
      and events: "\<And>oid. oid \<noteq> o_id ord \<Longrightarrow> events_of db' oid = events_of db oid"
      and mine: "filter (\<lambda>r. or_idempotency_key r = ?key) (db_orders db') = [row]"
        "\<And>a s. order_of_row db' a s row = reloaded_order a s ord" "or_user row = ol_user link"
        "or_mode row = ol_mode link" "or_instrument row = ol_instrument link"
        "Some (or_created_at row) = map_option fst (first_with ?key (ws @ [?w]))" for db' row
    unfolding journals_def
  proof (intro conjI allI impI)
    fix oid assume "\<forall>w \<in> set (ws @ [?w]). ow_id w \<noteq> oid"
    then show "events_of db' oid = []" using events j by (auto simp: journals_def)
  next
    fix key
    show "case last_with key (ws @ [?w]) of
        None \<Rightarrow> filter (\<lambda>r. or_idempotency_key r = key) (db_orders db') = []
      | Some (now, link, ord) \<Rightarrow>
          (\<exists>row. filter (\<lambda>r. or_idempotency_key r = key) (db_orders db') = [row]
             \<and> (\<forall>a s. order_of_row db' a s row = reloaded_order a s ord)
             \<and> or_user row = ol_user link \<and> or_mode row = ol_mode link \<and> or_instrument row = ol_instrument link
             \<and> Some (or_created_at row) = map_option fst (first_with key (ws @ [?w])))"
    proof (cases "key = ?key")
      case True
      then show ?thesis using mine by (simp add: last_with_snoc)
    next
      case False
      show ?thesis
      proof (cases "last_with key ws")
        case None
        then show ?thesis using False others journals_None [OF j None] by (simp add: last_with_snoc)
      next
        case (Some v)
        obtain n1 l1 o1 where v: "v = (n1, l1, o1)" by (cases v)
        from journals_last [OF j Some [unfolded v]] obtain r1 where
          r1: "filter (\<lambda>r. or_idempotency_key r = key) (db_orders db) = [r1]"
          "\<And>a s. order_of_row db a s r1 = reloaded_order a s o1" "or_user r1 = ol_user l1" "or_mode r1 = ol_mode l1"
          "or_instrument r1 = ol_instrument l1" "Some (or_created_at r1) = map_option fst (first_with key ws)" by metis
        have "o_id o1 \<noteq> o_id ord"
          using ids last_with_in [OF Some] False v by auto
        then have "order_of_row db' a s r1 = reloaded_order a s o1" for a s
          using r1(2) order_of_row_id(1) [OF r1(2)] events order_of_row_cong by metis
        moreover have "first_with key (ws @ [?w]) = first_with key ws"
          using False by (auto simp: first_with_snoc split: option.splits)
        ultimately show ?thesis using Some v False r1 others by (auto simp: last_with_snoc)
      qed
    qed
  qed
  show thesis
  proof (cases "last_with ?key ws")
    case None
    then have "\<forall>w \<in> set ws. ow_key w \<noteq> ?key" by (simp add: last_with_None)
    then have "\<forall>w \<in> set ws. ow_id w \<noteq> o_id ord" using ids by blast
    then have fresh: "events_of db (o_id ord) = []" using j by (simp add: journals_def)
    have fresh2: "first_with ?key ws = None"
      using \<open>\<forall>w \<in> set ws. ow_key w \<noteq> ?key\<close> unfolding first_with_def find_None_iff by blast
    obtain row db' where p: "persist_order num now link db ord = Inr db'" "db_orders db' = db_orders db @ [row]"
      "db_symbols db' = db_symbols db" "or_idempotency_key row = ?key"
      "\<And>a s. order_of_row db' a s row = reloaded_order a s ord" "or_user row = ol_user link" "or_mode row = ol_mode link"
      "or_instrument row = ol_instrument link" "or_created_at row = now"
      "\<And>oid. oid \<noteq> o_id ord \<Longrightarrow> events_of db' oid = events_of db oid"
      using persist_order_new [OF num journals_None [OF j None] fresh, of now link] by metis
    have "journals db' (ws @ [?w])"
      by (rule step [where row = row]) (use p fresh2 journals_None [OF j None] in \<open>simp_all add: first_with_snoc\<close>)
    with p(1,3) that show ?thesis by blast
  next
    case (Some v)
    obtain n0 l0 o0 where v: "v = (n0, l0, o0)" by (cases v)
    from journals_last [OF j Some [unfolded v]] obtain r0 where
      r0: "filter (\<lambda>r. or_idempotency_key r = ?key) (db_orders db) = [r0]"
      "\<And>a s. order_of_row db a s r0 = reloaded_order a s o0" "or_user r0 = ol_user l0" "or_mode r0 = ol_mode l0"
      "or_instrument r0 = ol_instrument l0" "Some (or_created_at r0) = map_option fst (first_with ?key ws)" by metis
    have so: "same_order v ?w" "ow_key v = ?key" using same last_with_in [OF Some] by auto
    obtain db' where p: "persist_order num now link db ord = Inr db'"
      "db_orders db' = map (\<lambda>r. if or_idempotency_key r = ?key then update_order_row ord r else r) (db_orders db)"
      "db_symbols db' = db_symbols db" "\<And>a s. order_of_row db' a s (update_order_row ord r0) = reloaded_order a s ord"
      "\<And>oid. oid \<noteq> o_id ord \<Longrightarrow> events_of db' oid = events_of db oid"
      using persist_order_again [OF r0(1,2), of num now link] so v by (auto simp: same_order_def)
    have upd: "or_idempotency_key (update_order_row ord r) = or_idempotency_key r" for r by (simp add: update_order_row_def)
    have filt: "filter (\<lambda>r. or_idempotency_key r = key) (db_orders db')
        = map (\<lambda>r. if or_idempotency_key r = ?key then update_order_row ord r else r)
            (filter (\<lambda>r. or_idempotency_key r = key) (db_orders db))" for key
      unfolding p(2) filter_map by (simp add: comp_def upd if_distrib cong: if_cong)
    have key0: "or_idempotency_key r0 = ?key" using r0(1) by (auto simp: filter_eq_Cons_iff)
    have "journals db' (ws @ [?w])"
    proof (rule step [where row = "update_order_row ord r0"])
      show "filter (\<lambda>r. or_idempotency_key r = key) (db_orders db') = filter (\<lambda>r. or_idempotency_key r = key) (db_orders db)"
        if "key \<noteq> ?key" for key
        unfolding filt by (rule map_idI) (use that in auto)
      show "filter (\<lambda>r. or_idempotency_key r = ?key) (db_orders db') = [update_order_row ord r0]"
        unfolding filt r0(1) using key0 by simp
      show "Some (or_created_at (update_order_row ord r0)) = map_option fst (first_with ?key (ws @ [?w]))"
        using r0(6) by (cases "first_with ?key ws") (simp_all add: first_with_snoc update_order_row_def)
    qed (use p(4,5) r0 so v in \<open>simp_all add: update_order_row_def same_order_def\<close>)
    with p(1,3) that show ?thesis by blast
  qed
qed

lemma writes_ok_snoc: "writes_ok num before (ws @ [w]) \<longleftrightarrow> writes_ok num before ws \<and> writes_ok num (before @ ws) [w]"
  by (induction ws arbitrary: before) (auto simp: list_all_append)

lemma journal_all_journals:
  assumes "db_orders db = []" "db_events db = []" and "writes_ok num [] ws"
  shows "\<exists>db'. journal_all num ws db = Inr db' \<and> journals db' ws \<and> db_symbols db' = db_symbols db"
  using assms(3)
proof (induction ws rule: rev_induct)
  case Nil
  then show ?case using assms by (simp add: journal_all_def journals_def last_with_def events_of_def)
next
  case (snoc w ws)
  obtain now link ord where w: "w = (now, link, ord)" by (cases w)
  from snoc obtain db1 where db1: "journal_all num ws db = Inr db1" "journals db1 ws" "db_symbols db1 = db_symbols db"
    by (auto simp: writes_ok_snoc)
  have "writes_ok num ws [(now, link, ord)]" using snoc.prems by (simp add: writes_ok_snoc w)
  from journals_step [OF db1(2) this] obtain db2 where
    "persist_order num now link db1 ord = Inr db2" "journals db2 (ws @ [w])" "db_symbols db2 = db_symbols db1"
    unfolding w by metis
  with db1 show ?case by (simp add: journal_all_def w)
qed

lemma with_symbol_filter_row:
  "filter (\<lambda>x. P (fst x)) (with_symbol db f rows) = with_symbol db f (filter P rows)"
  by (induction rows) (auto split: option.splits)

lemma loaded_for_key:
  assumes "journals db ws" "last_with key ws = Some (now, link, ord)" "first_with key ws = Some w0"
    and "dict_get (db_symbols db) (ol_instrument link) = Some nm"
  shows "filter (\<lambda>x. o_idempotency_key x = key) (load_recent_orders str_id db u m since)
    = (if ol_user link = u \<and> ol_mode link = m \<and> since \<le> fst w0 then [reloaded_order (str_id u) nm ord] else [])"
proof -
  let ?P = "\<lambda>r. or_user r = u \<and> or_mode r = m \<and> since \<le> or_created_at r"
  from journals_last [OF assms(1,2)] obtain row where
    row: "filter (\<lambda>r. or_idempotency_key r = key) (db_orders db) = [row]"
    "\<And>a s. order_of_row db a s row = reloaded_order a s ord" "or_user row = ol_user link" "or_mode row = ol_mode link"
    "or_instrument row = ol_instrument link" "Some (or_created_at row) = map_option fst (first_with key ws)" by metis
  have "filter (\<lambda>x. o_idempotency_key x = key) (map (\<lambda>(row, symbol). order_of_row db (str_id u) symbol row) xs)
    = map (\<lambda>(row, symbol). order_of_row db (str_id u) symbol row) (filter (\<lambda>x. or_idempotency_key (fst x) = key) xs)" for xs
    by (induction xs) (auto simp: order_of_row_def)
  then have "filter (\<lambda>x. o_idempotency_key x = key) (load_recent_orders str_id db u m since)
    = map (\<lambda>(row, symbol). order_of_row db (str_id u) symbol row) (with_symbol db or_instrument (filter ?P [row]))"
    unfolding load_recent_orders_def
    by (simp only: with_symbol_filter_row [where P = "\<lambda>r. or_idempotency_key r = key"] filter_filter row(1) [symmetric])
       (simp add: conj_commute)
  with row assms(3,4) show ?thesis by simp
qed

subsection \<open>Properties\<close>


text \<open>The column of the witnesses: six decimals, refused from a million million on.\<close>

fun six_decimals :: to_numeric where
  "six_decimals (Fin r) = (if \<bar>r\<bar> < 1000000000000 then Some (of_int (rhe (r * 1000000)) / 1000000) else None)"
| "six_decimals _ = None"

definition a_long_position :: "pyfloat \<Rightarrow> position" where
  "a_long_position q = (new_position ''u1'' ''A'')\<lparr>p_quantity := q, p_average_price := Fin 100, p_stop := Some (Fin 95),
     p_strategy_id := Some ''s''\<rparr>"

definition a_journal :: tables where
  "a_journal = \<lparr>db_positions = [], db_orders = [], db_events = [], db_trades = [], db_symbols = [(5, ''A'')]\<rparr>"

definition some_writes :: "position_write list" where
  "some_writes =
     [\<lparr>pw_user = 1, pw_instrument = 5, pw_mode = PAPER, pw_source = ''manual'', pw_position = a_long_position (Fin 10),
       pw_new_id = 100, pw_now = 0\<rparr>,
      \<lparr>pw_user = 1, pw_instrument = 5, pw_mode = PAPER, pw_source = ''auto'', pw_position = a_long_position (Fin 7),
       pw_new_id = 101, pw_now = 1\<rparr>,
      \<lparr>pw_user = 1, pw_instrument = 5, pw_mode = PAPER, pw_source = ''manual'', pw_position = a_long_position (Fin 4),
       pw_new_id = 102, pw_now = 2\<rparr>]"

lemma kept_whole: "\<bar>n\<bar> < 1000000000000 \<Longrightarrow> kept six_decimals (Fin (of_int n))"
proof -
  assume n: "\<bar>n\<bar> < 1000000000000"
  have "rhe (of_int n * 1000000) = n * 1000000" using rhe_of_int [of "n * 1000000"] by simp
  moreover have "\<bar>rat_of_int n\<bar> < 1000000000000"
    using n unfolding of_int_abs [symmetric] by (metis of_int_less_iff of_int_numeral)
  ultimately show ?thesis using rnd64_int [of n] n by (simp add: kept_def py_float_def)
qed

lemma kept_numeral [simp]:
  "kept six_decimals (Fin 0)" "numeral k < (1000000000000 :: int) \<Longrightarrow> kept six_decimals (Fin (numeral k))"
  using kept_whole [of 0] kept_whole [of "numeral k"] by simp_all

lemma some_writes_kept: "list_all (\<lambda>w. position_kept six_decimals (pw_position w)) some_writes"
  by (simp add: some_writes_def position_kept_def kept_opt_def a_long_position_def new_position_def)

lemma a_journal_ok: "symbols_ok a_journal" "dict_get (db_symbols a_journal) 5 = Some ''A''" "db_positions a_journal = []"
  by (simp_all add: symbols_ok_def dict_ok_def dict_get_def a_journal_def)





definition a_fresh_order :: order where
  "a_fresh_order = \<lparr>o_id = 9, o_idempotency_key = ''k'', o_account_id = ''u1'', o_symbol = ''A'', o_direction = LONG,
     o_order_type = MARKET, o_quantity = Fin 10, o_price = None, o_status = CREATED, o_broker_order_id = None,
     o_filled_quantity = Fin 0, o_average_fill_price = None, o_rejection_reason = None,
     o_events = [\<lparr>ev_from = None, ev_to = CREATED, ev_detail = ''created''\<rparr>]\<rparr>"

definition a_link :: order_link where
  "a_link = \<lparr>ol_user = 1, ol_instrument = 5, ol_strategy = None, ol_strategy_version = None, ol_mode = PAPER,
     ol_broker_account = None\<rparr>"


text \<open>The rebuilt result of a day need not be the counter it replaces: the column adds decimals, the counter
  adds floats.\<close>

definition a_trade :: "numeric \<Rightarrow> trade_row" where
  "a_trade pnl = \<lparr>tr_user = 1, tr_position = None, tr_instrument = 5, tr_strategy = None, tr_strategy_version = None,
     tr_mode = PAPER, tr_direction = LONG, tr_entry_price = 100, tr_exit_price = Some 101, tr_quantity = 1, tr_stop = None,
     tr_target = None, tr_pnl = Some pnl, tr_r_multiple = None, tr_opened_at = 0, tr_closed_at = Some 0, tr_source = Some MANUAL_TRADE_SOURCE\<rparr>"

lemma rebuilt_result_differs:
  "load_realized_pnl_since (a_journal\<lparr>db_trades := [a_trade (1 / 10), a_trade (2 / 10)]\<rparr>) 1 PAPER 0
     < Fin 0 + rnd64 (1 / 10) + rnd64 (2 / 10)"
  by code_simp

text \<open>Each write of a position that is flat, and was, inserts one more closed row.\<close>

lemma closed_position_adds_a_row:
  assumes "position_kept num p" "\<not> is_open p" "rows_for db u i m k = []"
  shows "\<exists>row. persist_position num new_id now db u i p m k = Inr (db\<lparr>db_positions := db_positions db @ [row]\<rparr>, row)
    \<and> \<not> pr_is_open row \<and> rows_for (db\<lparr>db_positions := db_positions db @ [row]\<rparr>) u i m k = []"
proof -
  obtain row where "mirror_position num p (blank_row new_id now u i m k) = Inr row" "pr_is_open row = is_open p"
    using mirror_position_kept [OF assms(1), of "blank_row new_id now u i m k"] by metis
  with assms(2,3) show ?thesis by (auto simp: persist_position_def rows_for_def open_for_def Let_def)
qed

end
