(* ===== verification/ManualOrders.thy ===== *)
theory ManualOrders
  imports Paper ProtectiveStops TradeLock Persistence
begin

text \<open>
  Placing and cancelling an order by hand (\<open>api/orders.py\<close>): the stack an account trades through,
  its rebuilding from the journal, and the whole handlers of \<open>POST /orders\<close> and
  \<open>POST /orders/{id}/cancel\<close> over the models of the gates, the execution engine, the protective
  stop and the journal. What a request reads from outside is an argument (\<open>order_env\<close>): the clock,
  fresh ids, the price cache, the kill flags, the candle history. The broker is its operations
  (\<open>order_ops\<close>). A run is the stack it leaves, what it wrote outside, and the answer or the error.
  Proved: every order that is created was approved at that quantity and logged, a halted account
  only reduces and never flips, and a rebuilt stack holds the book it replaces.
\<close>

subsection \<open>The broker, as the handler uses it\<close>

record 'b simulated =
  sm_seed :: "'b \<Rightarrow> string \<Rightarrow> pyfloat \<Rightarrow> py_error + 'b"
  sm_restore :: "'b \<Rightarrow> pyfloat \<Rightarrow> 'b"

text \<open>\<open>op_simulated\<close> is present exactly for a \<open>MockBroker\<close>.\<close>

record 'b order_ops =
  op_place :: "'b place_order"
  op_calls :: "'b broker_calls"
  op_account :: "'b \<Rightarrow> py_error + account_info"
  op_quote :: "'b \<Rightarrow> string \<Rightarrow> py_error + quote"
  op_healthy :: "'b \<Rightarrow> bool"
  op_simulated :: "'b simulated option"

definition mock_ops :: "mock_session order_ops" where
  "mock_ops =
     \<lparr>op_place = mock_place, op_calls = mock_calls, op_account = (\<lambda>b. Inr (get_account (fst b))),
      op_quote = (\<lambda>b symbol. get_quote (fst b) symbol), op_healthy = (\<lambda>b. is_healthy (fst b)),
      op_simulated = Some
        \<lparr>sm_seed = (\<lambda>b symbol price. bind_res (set_quote (fst b) symbol price None None False) (\<lambda>mb. Inr (mb, snd b))),
         sm_restore = (\<lambda>b pnl. (restore_realized_pnl (fst b) pnl, snd b))\<rparr>\<rparr>"

subsection \<open>The stack\<close>

record 'b stack =
  sk_exec :: "'b engine"
  sk_broker_account :: "uuid option"
  sk_risk :: risk_engine
  sk_trades_today :: int
  sk_daily_pnl :: pyfloat
  sk_weekly_pnl :: pyfloat
  sk_repeated_rejections :: int
  sk_risk_day :: "int option"
  sk_risk_week :: "(int \<times> int) option"

definition new_stack :: "'b \<Rightarrow> uuid option \<Rightarrow> 'b stack" where
  "new_stack broker broker_account_id =
     \<lparr>sk_exec = \<lparr>ex_broker = broker, ex_orders = empty_manager, ex_positions = []\<rparr>,
      sk_broker_account = broker_account_id, sk_risk = new_risk_engine (Some default_limits) None,
      sk_trades_today = 0, sk_daily_pnl = Fin 0, sk_weekly_pnl = Fin 0, sk_repeated_rejections = 0,
      sk_risk_day = None, sk_risk_week = None\<rparr>"

definition roll_risk_window :: "'b stack \<Rightarrow> datetime \<Rightarrow> 'b stack" where
  "roll_risk_window sk now =
     (let today = dt_day now; this_week = iso_year_week (dt_day now);
          sk = (if sk_risk_day sk \<noteq> None \<and> sk_risk_day sk \<noteq> Some today
                then sk\<lparr>sk_trades_today := 0, sk_daily_pnl := Fin 0\<rparr> else sk);
          sk = (if sk_risk_week sk \<noteq> None \<and> sk_risk_week sk \<noteq> Some this_week
                then sk\<lparr>sk_weekly_pnl := Fin 0\<rparr> else sk)
      in sk\<lparr>sk_risk_day := Some today, sk_risk_week := Some this_week\<rparr>)"

definition execution_mode_for :: "'b order_ops \<Rightarrow> execution_mode" where
  "execution_mode_for ops = (if op_simulated ops \<noteq> None then PAPER else LIVE)"

definition market_data_age_for :: "'b order_ops \<Rightarrow> pyfloat option \<Rightarrow> pyfloat option" where
  "market_data_age_for ops age_seconds =
     (case age_seconds of
        Some age \<Rightarrow> Some age
      | None \<Rightarrow> if op_simulated ops \<noteq> None then Some (Fin 0) else None)"

text \<open>\<open>datetime.min\<close> in UTC\<close>

definition EPOCH :: datetime where
  "EPOCH = \<lparr>dt_day = 1, dt_us = 0, dt_offset = Some 0\<rparr>"

text \<open>A stack built from what the journal says.\<close>

definition build_stack ::
  "'b order_ops \<Rightarrow> (uuid \<Rightarrow> string) \<Rightarrow> tables \<Rightarrow> uuid \<Rightarrow> datetime \<Rightarrow> 'b \<Rightarrow> uuid option \<Rightarrow> py_error + 'b stack" where
  "build_stack ops str_id db user_id now broker broker_account_id =
     (let sk = new_stack broker broker_account_id;
          mode = execution_mode_for ops
      in bind_res (risk_window_starts now) (\<lambda>(day_start, week_start).
           let broker = (case op_simulated ops of
                  None \<Rightarrow> broker
                | Some sim \<Rightarrow> sm_restore sim broker (load_realized_pnl_since db user_id mode (instant EPOCH)))
           in Inr (sk\<lparr>sk_exec :=
                   \<lparr>ex_broker = broker,
                    ex_orders = restore (ex_orders (sk_exec sk))
                      (load_recent_orders str_id db user_id mode (instant now - ORDER_REHYDRATION_WINDOW)),
                    ex_positions = restore_positions (ex_positions (sk_exec sk))
                      (load_open_positions str_id db user_id mode ''manual'')\<rparr>,
                 sk_trades_today := load_orders_placed_since db user_id mode (instant day_start),
                 sk_daily_pnl := load_realized_pnl_since db user_id mode (instant day_start),
                 sk_weekly_pnl := load_realized_pnl_since db user_id mode (instant week_start),
                 sk_risk_day := Some (dt_day now), sk_risk_week := Some (iso_year_week (dt_day now))\<rparr>)))"

subsection \<open>Requests, answers and what they write\<close>

record order_payload =
  pl_symbol :: string
  pl_direction :: direction
  pl_order_type :: order_type
  pl_entry :: pyfloat
  pl_stop :: pyfloat
  pl_price :: "pyfloat option"

definition MAX_PRICE :: pyfloat where
  "MAX_PRICE = Fin 1000000000000"

definition priced :: "pyfloat \<Rightarrow> bool" where
  "priced x \<longleftrightarrow> Fin 0 < x \<and> x < MAX_PRICE"

definition valid_payload :: "order_payload \<Rightarrow> bool" where
  "valid_payload p \<longleftrightarrow>
     priced (pl_entry p) \<and> priced (pl_stop p) \<and> (case pl_price p of None \<Rightarrow> True | Some x \<Rightarrow> priced x)
     \<and> (pl_order_type p = MARKET
        \<or> pl_order_type p = LIMIT \<and> (case pl_price p of None \<Rightarrow> False | Some x \<Rightarrow> \<not> x \<le> Fin 0))"

datatype fault = Raised py_error | Database db_error

datatype http_error =
    Unprocessable
  | Unknown_instrument string
  | Halted string
  | Risk_rejected "detail option"
  | Broker_unavailable string
  | Account_busy
  | Lock_unreachable
  | Order_not_found
  | Not_cancellable order_status
  | Broker_refused_cancel string
  | Server_error fault

record order_response =
  rp_order :: order
  rp_unprotected_reason :: "stop_problem option"

record risk_event =
  rv_user :: uuid
  rv_decision :: risk_decision
  rv_reason :: "detail option"
  rv_checks :: "(string, bool) dict"

datatype notice =
    Order_rejected string "detail option"
  | Daily_loss_limit string "detail option"
  | Reconciliation_required string stop_problem
  | Position_closed string pyfloat
  | Trade_executed string direction

datatype audit =
    Order_placed string direction order_status
  | Order_cancelled uuid
  | Protective_stop_unplaced string pyfloat stop_problem bool

text \<open>What is shared with other requests and other processes.\<close>

record world =
  wo_tables :: tables
  wo_halts :: "(string, string) dict"
  wo_risk_events :: "risk_event list"
  wo_notes :: "(uuid \<times> notice) list"
  wo_audits :: "(uuid \<times> audit) list"

record order_env =
  oe_user :: uuid
  oe_now :: datetime
  oe_instrument :: "string \<Rightarrow> uuid option"
  oe_price_age :: "pyfloat option"
  oe_price_jump :: "pyfloat option"
  oe_redis :: redis
  oe_history :: "py_error + history"
  oe_symbols :: "string list"
  oe_sqr :: power_fn
  oe_rt :: power_fn
  oe_order_id :: uuid
  oe_stop_key :: string
  oe_row_id :: uuid
  oe_str_id :: "uuid \<Rightarrow> string"
  oe_repr :: "pyfloat \<Rightarrow> string"
  oe_num :: to_numeric

type_synonym ('b, 'a) handled = "'b stack \<times> world \<times> (http_error + 'a)"

definition then_do :: "('b, 'a) handled \<Rightarrow> ('b stack \<Rightarrow> world \<Rightarrow> 'a \<Rightarrow> ('b, 'c) handled) \<Rightarrow> ('b, 'c) handled" where
  "then_do m k = (case m of (sk, wo, Inl e) \<Rightarrow> (sk, wo, Inl e) | (sk, wo, Inr a) \<Rightarrow> k sk wo a)"

definition attempt :: "'b stack \<Rightarrow> world \<Rightarrow> py_error + 'a \<Rightarrow> ('b, 'a) handled" where
  "attempt sk wo r = (sk, wo, case r of Inl e \<Rightarrow> Inl (Server_error (Raised e)) | Inr a \<Rightarrow> Inr a)"

definition write_db :: "'b stack \<Rightarrow> world \<Rightarrow> db_error + tables \<times> 'a \<Rightarrow> ('b, 'a) handled" where
  "write_db sk wo r =
     (case r of Inl e \<Rightarrow> (sk, wo, Inl (Server_error (Database e))) | Inr (db, a) \<Rightarrow> (sk, wo\<lparr>wo_tables := db\<rparr>, Inr a))"

definition account_of :: "order_env \<Rightarrow> string" where
  "account_of env = oe_str_id env (oe_user env)"

definition notify :: "order_env \<Rightarrow> notice \<Rightarrow> world \<Rightarrow> world" where
  "notify env n wo = wo\<lparr>wo_notes := wo_notes wo @ [(oe_user env, n)]\<rparr>"

definition record_audit :: "order_env \<Rightarrow> audit \<Rightarrow> world \<Rightarrow> world" where
  "record_audit env a wo = wo\<lparr>wo_audits := wo_audits wo @ [(oe_user env, a)]\<rparr>"

definition with_engine :: "'b stack \<Rightarrow> ('b engine \<Rightarrow> 'b engine) \<Rightarrow> 'b stack" where
  "with_engine sk f = sk\<lparr>sk_exec := f (sk_exec sk)\<rparr>"

subsection \<open>Judging the order\<close>

definition position_at :: "'b stack \<Rightarrow> order_env \<Rightarrow> order_payload \<Rightarrow> position option" where
  "position_at sk env p = get_position (ex_positions (sk_exec sk)) (account_of env) (pl_symbol p)"

definition reducing :: "position option \<Rightarrow> order_payload \<Rightarrow> bool" where
  "reducing existing p =
     (case existing of None \<Rightarrow> False | Some pos \<Rightarrow> is_open pos \<and> is_long pos \<noteq> (pl_direction p = LONG))"

definition seed_quote :: "'b order_ops \<Rightarrow> order_payload \<Rightarrow> 'b stack \<Rightarrow> world \<Rightarrow> ('b, unit) handled" where
  "seed_quote ops p sk wo =
     (case op_simulated ops of
        None \<Rightarrow> (sk, wo, Inr ())
      | Some sim \<Rightarrow>
          (case sm_seed sim (ex_broker (sk_exec sk)) (pl_symbol p) (pl_entry p) of
             Inl e \<Rightarrow> (sk, wo, Inl (Server_error (Raised e)))
           | Inr b \<Rightarrow> (with_engine sk (\<lambda>ex. ex\<lparr>ex_broker := b\<rparr>), wo, Inr ())))"

definition order_quantity :: "risk_limits \<Rightarrow> pyfloat \<Rightarrow> pyfloat \<Rightarrow> pyfloat \<Rightarrow> position option \<Rightarrow> bool \<Rightarrow> pyfloat" where
  "order_quantity lims balance fill_price stop existing is_reducing =
     (let quantity = calculate_position_size balance (rl_risk_per_trade_pct lims) fill_price stop (rl_max_position_size lims)
      in case existing of
           Some pos \<Rightarrow>
             if is_reducing
             then let quantity = pymin quantity \<bar>p_quantity pos\<bar>
                  in if quantity \<le> Fin 0 then \<bar>p_quantity pos\<bar> else quantity
             else quantity
         | None \<Rightarrow> quantity)"

definition entry_deviation :: "pyfloat \<Rightarrow> pyfloat \<Rightarrow> pyfloat" where
  "entry_deviation entry ltp = (if truthy ltp then \<bar>entry - ltp\<bar> / ltp * Fin 100 else Fin 0)"

text \<open>Everything between the quote and the risk engine, which only reads.\<close>

definition order_proposal ::
  "'b order_ops \<Rightarrow> order_env \<Rightarrow> order_payload \<Rightarrow> 'b stack \<Rightarrow> world \<Rightarrow> py_error + trade_proposal" where
  "order_proposal ops env p sk wo =
     (let b = ex_broker (sk_exec sk);
          lims = re_limits (sk_risk sk);
          existing = position_at sk env p;
          is_reducing = reducing existing p
      in bind_res (op_quote ops b (pl_symbol p)) (\<lambda>quote.
         bind_res (op_account ops b) (\<lambda>account.
           let opens = open_positions (ex_positions (sk_exec sk)) (account_of env);
               elsewhere = load_open_position_notionals_elsewhere (wo_tables wo) (oe_user env) ''manual'';
               others = foldl (merge_notional (pl_symbol p)) (signed_notionals_excluding opens (pl_symbol p)) elsewhere
           in bind_res (bind_res (oe_history env) (\<lambda>history.
                compute_correlated_exposure (oe_sqr env) (oe_rt env) history (oe_symbols env) (pl_symbol p) (Fin 0)
                  others (rl_correlation_threshold lims) 100)) (\<lambda>correlated.
              bind_res (if pl_order_type p = LIMIT then of_opt TypeError (pl_price p) else Inr (pl_entry p)) (\<lambda>fill_price.
                let quantity = order_quantity lims (ai_balance account) fill_price (pl_stop p) existing is_reducing
                in Inr
                  \<lparr>tp_account_id = account_of env, tp_strategy_id = None, tp_entry = fill_price, tp_stop = pl_stop p,
                   tp_account_balance = ai_balance account, tp_open_positions = int (length opens),
                   tp_trades_today = sk_trades_today sk, tp_daily_pnl = sk_daily_pnl sk, tp_weekly_pnl = sk_weekly_pnl sk,
                   tp_current_exposure = gross_notional opens + pysum (map (\<lambda>x. \<bar>snd x\<bar>) elsewhere),
                   tp_strategy_allocation = Fin 0,
                   tp_market_data_age_seconds = market_data_age_for ops (oe_price_age env),
                   tp_broker_healthy = op_healthy ops b, tp_repeated_rejections = sk_repeated_rejections sk,
                   tp_recent_price_jump_pct = (case oe_price_jump env of None \<Rightarrow> Fin 0 | Some x \<Rightarrow> x),
                   tp_entry_deviation_pct = entry_deviation (pl_entry p) (qt_ltp quote),
                   tp_correlated_exposure = correlated,
                   tp_liquidity_acceptable = assess_equity_liquidity (Some (oe_history env)) (pl_symbol p) quantity
                     (rl_max_participation_pct lims) default_volume_window_bars,
                   tp_proposed_quantity = Some quantity, tp_is_reducing = is_reducing\<rparr>)))))"

definition rejection_note :: "order_payload \<Rightarrow> risk_result \<Rightarrow> notice" where
  "rejection_note p decision =
     (case failed_checks decision of
        c # _ \<Rightarrow> if rc_name c = ''daily_loss_limit'' then Daily_loss_limit (pl_symbol p) (rr_reason decision)
                 else Order_rejected (pl_symbol p) (rr_reason decision)
      | [] \<Rightarrow> Order_rejected (pl_symbol p) (rr_reason decision))"

text \<open>The decision, logged whatever it is; the answer is the approved proposal.\<close>

definition judge :: "'b order_ops \<Rightarrow> order_env \<Rightarrow> order_payload \<Rightarrow> 'b stack \<Rightarrow> world \<Rightarrow> ('b, trade_proposal) handled" where
  "judge ops env p sk wo =
     then_do (attempt sk wo (order_proposal ops env p sk wo)) (\<lambda>sk wo proposal.
       let sk = sk\<lparr>sk_risk := (sk_risk sk)
                  \<lparr>re_kill_switch := load_kill_switch_state (oe_redis env) (Some (account_of env)) None\<rparr>\<rparr>;
           decision = evaluate (sk_risk sk) proposal;
           wo = wo\<lparr>wo_risk_events := wo_risk_events wo @
                 [\<lparr>rv_user = oe_user env, rv_decision = (if approved decision then APPROVE else REJECT),
                   rv_reason = rr_reason decision, rv_checks = dict_of rc_name rc_passed (rr_checks decision)\<rparr>]\<rparr>
       in if approved decision then (sk, wo, Inr proposal)
          else (sk, notify env (rejection_note p decision) wo, Inl (Risk_rejected (rr_reason decision))))"

subsection \<open>Sending it\<close>

definition order_key :: "order_env \<Rightarrow> order_payload \<Rightarrow> string" where
  "order_key env p =
     account_of env @ '':'' @ pl_symbol p @ '':'' @ direction_value (pl_direction p) @ '':'' @ oe_repr env (pl_entry p)
     @ '':'' @ oe_repr env (pl_stop p) @ '':'' @ (case pl_price p of None \<Rightarrow> ''None'' | Some x \<Rightarrow> oe_repr env x)"

text \<open>The order, created or found under its key, with the position as it was before a fill.\<close>

definition send_order ::
  "'b order_ops \<Rightarrow> order_env \<Rightarrow> order_payload \<Rightarrow> pyfloat \<Rightarrow> 'b stack \<Rightarrow> world
     \<Rightarrow> ('b, order \<times> bool \<times> position option) handled" where
  "send_order ops env p quantity sk wo =
     then_do (attempt sk wo (create_order (ex_orders (sk_exec sk)) (oe_order_id env) (order_key env p) (account_of env)
                (pl_symbol p) (pl_direction p) (pl_order_type p) quantity (pl_price p))) (\<lambda>sk wo (ord, created, om).
       let sk = with_engine sk (\<lambda>ex. ex\<lparr>ex_orders := om\<rparr>);
           before = position_at sk env p;
           oid = o_id ord
       in if \<not> created then (sk, wo, Inr (ord, False, before))
          else case move_to (sk_exec sk) oid VALIDATING [] (\<lambda>st. move_to st oid RISK_APPROVED []
                      (\<lambda>st. submit (op_place ops) st oid)) of
                 (st, Some e) \<Rightarrow> (sk\<lparr>sk_exec := st\<rparr>, wo, Inl (Server_error (Raised e)))
               | (st, None) \<Rightarrow>
                   let sk = sk\<lparr>sk_exec := st, sk_trades_today := sk_trades_today sk + 1\<rparr>
                   in (case get_order (ex_orders st) oid of
                         None \<Rightarrow> (sk, wo, Inl (Server_error (Raised TypeError)))
                       | Some final \<Rightarrow>
                           (sk\<lparr>sk_repeated_rejections :=
                                 (if o_status final = REJECTED then sk_repeated_rejections sk + 1 else 0)\<rparr>,
                            wo, Inr (final, True, before))))"

definition order_link_of :: "'b order_ops \<Rightarrow> order_env \<Rightarrow> 'b stack \<Rightarrow> uuid \<Rightarrow> order_link" where
  "order_link_of ops env sk instrument_id =
     \<lparr>ol_user = oe_user env, ol_instrument = instrument_id, ol_strategy = None, ol_strategy_version = None,
      ol_mode = execution_mode_for ops, ol_broker_account = sk_broker_account sk\<rparr>"

definition journal_order ::
  "'b order_ops \<Rightarrow> order_env \<Rightarrow> uuid \<Rightarrow> order \<Rightarrow> 'b stack \<Rightarrow> world \<Rightarrow> ('b, unit) handled" where
  "journal_order ops env instrument_id ord sk wo =
     write_db sk wo (bind_res (persist_order (oe_num env) (instant (oe_now env)) (order_link_of ops env sk instrument_id)
       (wo_tables wo) ord) (\<lambda>db. Inr (db, ())))"

subsection \<open>After a fill\<close>

definition same_side :: "order_payload \<Rightarrow> position \<Rightarrow> bool" where
  "same_side p pos \<longleftrightarrow> is_open pos \<and> is_long pos = (pl_direction p = LONG)"

definition set_stop_price :: "order_env \<Rightarrow> order_payload \<Rightarrow> position \<Rightarrow> 'b stack \<Rightarrow> 'b stack" where
  "set_stop_price env p pos sk =
     (if same_side p pos
      then with_engine sk (\<lambda>ex. ex\<lparr>ex_positions := set_position (ex_positions ex) (account_of env) (pl_symbol p)
             (\<lambda>x. x\<lparr>p_stop := Some (pl_stop p)\<rparr>)\<rparr>)
      else sk)"

definition no_stop_reason :: "order_payload \<Rightarrow> string" where
  "no_stop_reason p = pl_symbol p @ '' position has no stop at the broker''"

text \<open>Put, move or withdraw the stop order; when that fails, halt the account and say so.\<close>

definition protect ::
  "'b order_ops \<Rightarrow> order_env \<Rightarrow> order_payload \<Rightarrow> 'b stack \<Rightarrow> world \<Rightarrow> ('b, stop_problem option) handled" where
  "protect ops env p sk wo =
     (case position_at sk env p of
        None \<Rightarrow> (sk, wo, Inr None)
      | Some pos \<Rightarrow>
          (case ensure_protective_stop (op_calls ops) (oe_stop_key env) (ex_broker (sk_exec sk)) pos of
             (r, b, pos') \<Rightarrow>
               let sk = with_engine sk (\<lambda>ex. ex\<lparr>ex_broker := b,
                      ex_positions := set_position (ex_positions ex) (account_of env) (pl_symbol p) (\<lambda>x. pos')\<rparr>)
               in (case r of
                     Inl e \<Rightarrow> (sk, wo, Inl (Server_error (Raised e)))
                   | Inr res \<Rightarrow>
                       (case sr_problem res of
                          None \<Rightarrow> (sk, wo, Inr None)
                        | Some problem \<Rightarrow>
                            (sk,
                             record_audit env (Protective_stop_unplaced (pl_symbol p) (pl_stop p) problem (sr_fate_unknown res))
                               (notify env (Reconciliation_required (pl_symbol p) problem)
                                  (wo\<lparr>wo_halts := dict_put (account_of env) (no_stop_reason p) (wo_halts wo)\<rparr>)),
                             Inr (Some problem))))))"

definition closing_note :: "position \<Rightarrow> order \<Rightarrow> pyfloat \<Rightarrow> uuid \<Rightarrow> trade_note" where
  "closing_note before final delta row_id =
     \<lparr>tn_direction = (if is_long before then LONG else SHORT), tn_entry_price = p_average_price before,
      tn_exit_price = o_average_fill_price final, tn_quantity = pymin (o_filled_quantity final) \<bar>p_quantity before\<bar>,
      tn_pnl = delta, tn_stop = p_stop before, tn_target = p_target before, tn_position = Some row_id,
      tn_strategy = None, tn_strategy_version = None\<rparr>"

definition book_result ::
  "'b order_ops \<Rightarrow> order_env \<Rightarrow> order_payload \<Rightarrow> uuid \<Rightarrow> order \<Rightarrow> position option \<Rightarrow> position \<Rightarrow> position_row
     \<Rightarrow> 'b stack \<Rightarrow> world \<Rightarrow> ('b, unit) handled" where
  "book_result ops env p instrument_id final before pos row sk wo =
     (case before of
        None \<Rightarrow> (sk, wo, Inr ())
      | Some old \<Rightarrow>
          let delta = p_realized_pnl pos - p_realized_pnl old
          in if py_eq delta (Fin 0) then (sk, wo, Inr ())
             else
               let sk = sk\<lparr>sk_daily_pnl := sk_daily_pnl sk + delta, sk_weekly_pnl := sk_weekly_pnl sk + delta\<rparr>
               in then_do
                    (write_db sk wo (bind_res (record_trade (oe_num env) (instant (oe_now env)) (wo_tables wo) (oe_user env)
                       instrument_id (execution_mode_for ops) (closing_note old final delta (pr_id row))) (\<lambda>db. Inr (db, ()))))
                    (\<lambda>sk wo _. (sk, notify env (Position_closed (pl_symbol p) delta) wo, Inr ())))"

definition settle_position ::
  "'b order_ops \<Rightarrow> order_env \<Rightarrow> order_payload \<Rightarrow> uuid \<Rightarrow> order \<Rightarrow> bool \<Rightarrow> position option \<Rightarrow> 'b stack \<Rightarrow> world
     \<Rightarrow> ('b, stop_problem option) handled" where
  "settle_position ops env p instrument_id final created before sk wo =
     (case position_at sk env p of
        None \<Rightarrow> (sk, wo, Inr None)
      | Some after \<Rightarrow>
          let just_filled = (created \<and> o_status final \<in> {FILLED, PARTIALLY_FILLED, MONITORING});
              opened_or_added = (just_filled \<and> same_side p after);
              sk = set_stop_price env p after sk
          in then_do (if just_filled then protect ops env p sk wo else (sk, wo, Inr None)) (\<lambda>sk wo unprotected.
             case position_at sk env p of
               None \<Rightarrow> (sk, wo, Inr unprotected)
             | Some pos \<Rightarrow>
                 then_do (write_db sk wo (persist_position (oe_num env) (oe_row_id env) (instant (oe_now env)) (wo_tables wo)
                            (oe_user env) instrument_id pos (execution_mode_for ops) ''manual'')) (\<lambda>sk wo row.
                 then_do (book_result ops env p instrument_id final before pos row sk wo) (\<lambda>sk wo _.
                   (sk, if opened_or_added then notify env (Trade_executed (pl_symbol p) (pl_direction p)) wo else wo,
                    Inr unprotected)))))"

subsection \<open>The handlers\<close>

definition place_manual_order ::
  "'b order_ops \<Rightarrow> order_env \<Rightarrow> order_payload \<Rightarrow> uuid \<Rightarrow> 'b stack \<Rightarrow> world \<Rightarrow> ('b, order_response) handled" where
  "place_manual_order ops env p instrument_id sk wo =
     (let sk = roll_risk_window sk (oe_now env);
          is_reducing = reducing (position_at sk env p) p
      in case (dict_get (wo_halts wo) (account_of env), is_reducing) of
           (Some reason, False) \<Rightarrow> (sk, wo, Inl (Halted reason))
         | _ \<Rightarrow>
             then_do (seed_quote ops p sk wo) (\<lambda>sk wo _.
             then_do (judge ops env p sk wo) (\<lambda>sk wo proposal.
             then_do (send_order ops env p (the (tp_proposed_quantity proposal)) sk wo) (\<lambda>sk wo (final, created, before).
             then_do (journal_order ops env instrument_id final sk wo) (\<lambda>sk wo _.
             then_do (settle_position ops env p instrument_id final created before sk wo) (\<lambda>sk wo unprotected.
               (sk, record_audit env (Order_placed (pl_symbol p) (pl_direction p) (o_status final)) wo,
                Inr \<lparr>rp_order = final, rp_unprotected_reason = unprotected\<rparr>)))))))"

text \<open>\<open>DELETE\<close>-like: the order leaves only from a status its broker can still cancel.\<close>

definition cancel_placed_order ::
  "'b order_ops \<Rightarrow> order_env \<Rightarrow> uuid \<Rightarrow> 'b stack \<Rightarrow> world \<Rightarrow> ('b, order_response) handled" where
  "cancel_placed_order ops env oid sk wo =
     (case get_order (ex_orders (sk_exec sk)) oid of
        None \<Rightarrow> (sk, wo, Inl Order_not_found)
      | Some ord \<Rightarrow>
          if o_status ord \<notin> {SUBMITTED, ACKNOWLEDGED} then (sk, wo, Inl (Not_cancellable (o_status ord)))
          else then_do
            (case o_broker_order_id ord of
               None \<Rightarrow> (sk, wo, Inr ())
             | Some bid \<Rightarrow>
                 if bid = [] then (sk, wo, Inr ())
                 else (case bc_cancel (op_calls ops) (ex_broker (sk_exec sk)) bid of
                         (r, b) \<Rightarrow>
                           let sk = with_engine sk (\<lambda>ex. ex\<lparr>ex_broker := b\<rparr>)
                           in (case r of
                                 Inr _ \<Rightarrow> (sk, wo, Inr ())
                               | Inl (BrokerError m) \<Rightarrow> (sk, wo, Inl (Broker_refused_cancel m))
                               | Inl e \<Rightarrow> (sk, wo, Inl (Server_error (Raised e))))))
            (\<lambda>sk wo _. case transition (ex_orders (sk_exec sk)) oid CANCELLED ''cancelled by user'' of
               Inl e \<Rightarrow> (sk, wo, Inl (Server_error (Raised e)))
             | Inr om \<Rightarrow>
                 let sk = with_engine sk (\<lambda>ex. ex\<lparr>ex_orders := om\<rparr>)
                 in (case get_order om oid of
                       None \<Rightarrow> (sk, wo, Inl (Server_error (Raised TypeError)))
                     | Some final \<Rightarrow>
                         (case oe_instrument env (o_symbol final) of
                            None \<Rightarrow> (sk, wo, Inl (Unknown_instrument (o_symbol final)))
                          | Some instrument_id \<Rightarrow>
                              then_do (journal_order ops env instrument_id final sk wo) (\<lambda>sk wo _.
                                (sk, record_audit env (Order_cancelled oid) wo,
                                 Inr \<lparr>rp_order = final, rp_unprotected_reason = None\<rparr>))))))"

subsection \<open>Reading the book\<close>

definition list_orders :: "order_env \<Rightarrow> 'b stack \<Rightarrow> order list" where
  "list_orders env sk = list_all_orders (ex_orders (sk_exec sk)) (Some (account_of env))"

datatype cached_price = Price pyfloat | No_tick | Cache_down

datatype mark_fault = Mark_raised py_error | No_attribute string

text \<open>Only \<open>MockBroker\<close> has \<open>set_quote\<close>.\<close>

fun mark_positions ::
  "'b order_ops \<Rightarrow> string \<Rightarrow> (string \<Rightarrow> cached_price) \<Rightarrow> position list \<Rightarrow> 'b stack \<Rightarrow> 'b stack \<times> mark_fault option" where
  "mark_positions ops account prices [] sk = (sk, None)"
| "mark_positions ops account prices (pos # ps) sk =
     (case prices (p_symbol pos) of
        Cache_down \<Rightarrow> (sk, None)
      | No_tick \<Rightarrow> mark_positions ops account prices ps sk
      | Price x \<Rightarrow>
          let sk = with_engine sk (\<lambda>ex. ex\<lparr>ex_positions := mark_to_market (ex_positions ex) account (p_symbol pos) x\<rparr>)
          in (case op_simulated ops of
                None \<Rightarrow> (sk, Some (No_attribute ''set_quote''))
              | Some sim \<Rightarrow>
                  (case sm_seed sim (ex_broker (sk_exec sk)) (p_symbol pos) x of
                     Inl e \<Rightarrow> (sk, Some (Mark_raised e))
                   | Inr b \<Rightarrow> mark_positions ops account prices ps (with_engine sk (\<lambda>ex. ex\<lparr>ex_broker := b\<rparr>)))))"

definition mark_open_positions ::
  "'b order_ops \<Rightarrow> order_env \<Rightarrow> (string \<Rightarrow> cached_price) \<Rightarrow> 'b stack \<Rightarrow> 'b stack \<times> (mark_fault + position list)" where
  "mark_open_positions ops env prices sk =
     (let account = account_of env;
          positions = open_positions (ex_positions (sk_exec sk)) account
      in case mark_positions ops account prices positions sk of
           (sk, Some fault) \<Rightarrow> (sk, Inl fault)
         | (sk, None) \<Rightarrow>
             (sk, Inr (map (\<lambda>pos. case get_position (ex_positions (sk_exec sk)) account (p_symbol pos) of
                                    None \<Rightarrow> pos | Some now \<Rightarrow> now) positions)))"

subsection \<open>Reaching the handler\<close>

datatype lock_answer = Lock_failed | Lock_busy | Lock_token string

definition fresh_stack ::
  "'b order_ops \<Rightarrow> order_env \<Rightarrow> world \<Rightarrow> string + 'b \<times> uuid option \<Rightarrow> 'b stack option \<times> (http_error + 'b stack)" where
  "fresh_stack ops env wo resolved =
     (case resolved of
        Inl message \<Rightarrow> (None, Inl (Broker_unavailable message))
      | Inr (broker, broker_account_id) \<Rightarrow>
          (case build_stack ops (oe_str_id env) (wo_tables wo) (oe_user env) (oe_now env) broker broker_account_id of
             Inl e \<Rightarrow> (None, Inl (Server_error (Raised e)))
           | Inr sk \<Rightarrow> (Some sk, Inr sk)))"

definition stack_for ::
  "'b order_ops \<Rightarrow> order_env \<Rightarrow> world \<Rightarrow> uuid option \<Rightarrow> string + 'b \<times> uuid option \<Rightarrow> 'b stack option
     \<Rightarrow> 'b stack option \<times> (http_error + 'b stack)" where
  "stack_for ops env wo current_account_id resolved cached =
     (case cached of
        Some sk \<Rightarrow> if sk_broker_account sk = current_account_id then (Some sk, Inr sk)
                   else fresh_stack ops env wo resolved
      | None \<Rightarrow> fresh_stack ops env wo resolved)"

text \<open>The request: the lock of the account, the body, the instrument, the stack, the order. The token, if one
  was taken, is released whatever happens.\<close>

definition post_order ::
  "'b order_ops \<Rightarrow> bool \<Rightarrow> lock_answer \<Rightarrow> uuid option \<Rightarrow> string + 'b \<times> uuid option \<Rightarrow> order_env \<Rightarrow> order_payload
     \<Rightarrow> 'b stack option \<Rightarrow> world \<Rightarrow> 'b stack option \<times> world \<times> string option \<times> (http_error + order_response)" where
  "post_order ops fail_open lock current_account_id resolved env p cached wo =
     (let handler = (
        if \<not> valid_payload p then (cached, wo, Inl Unprocessable)
        else case oe_instrument env (pl_symbol p) of
               None \<Rightarrow> (cached, wo, Inl (Unknown_instrument (pl_symbol p)))
             | Some instrument_id \<Rightarrow>
                 (case stack_for ops env wo current_account_id resolved cached of
                    (cached, Inl e) \<Rightarrow> (cached, wo, Inl e)
                  | (cached, Inr sk) \<Rightarrow>
                      (case place_manual_order ops env p instrument_id sk wo of (sk, wo, r) \<Rightarrow> (Some sk, wo, r))))
      in case lock of
           Lock_failed \<Rightarrow>
             if \<not> fail_open then (cached, wo, None, Inl Lock_unreachable)
             else (case handler of (cached, wo, r) \<Rightarrow> (cached, wo, None, r))
         | Lock_busy \<Rightarrow> (cached, wo, None, Inl Account_busy)
         | Lock_token token \<Rightarrow> (case handler of (cached, wo, r) \<Rightarrow> (cached, wo, Some token, r)))"


subsection \<open>What a run may do to the book\<close>

text \<open>What is held, per account and symbol; nothing is held where there is no record.\<close>

definition holding :: "position_book \<Rightarrow> string \<Rightarrow> string \<Rightarrow> pyfloat \<times> pyfloat \<times> pyfloat" where
  "holding book a s =
     (case get_position book a s of
        None \<Rightarrow> (Fin 0, Fin 0, Fin 0)
      | Some pos \<Rightarrow> (p_quantity pos, p_average_price pos, p_realized_pnl pos))"

text \<open>Only the record of one account and symbol changed, and it was not removed.\<close>

definition touches :: "string \<Rightarrow> string \<Rightarrow> position_book \<Rightarrow> position_book \<Rightarrow> bool" where
  "touches a s book book' \<longleftrightarrow>
     (\<forall>a' s'. (a', s') \<noteq> (a, s) \<longrightarrow> get_position book' a' s' = get_position book a' s')
     \<and> (get_position book' a s = None \<longrightarrow> get_position book a s = None)"

lemma touches_refl [simp]: "touches a s book book"
  by (simp add: touches_def)

lemma touches_trans: "touches a s x y \<Longrightarrow> touches a s y z \<Longrightarrow> touches a s x z"
  by (auto simp: touches_def)

lemma touches_fill [simp]: "touches a s book (apply_fill book a s d q x)"
  by (auto simp: touches_def apply_fill_get)

lemma touches_set [simp]: "touches a s book (set_position book a s f)"
  by (auto simp: touches_def set_position_get)

lemma holding_set:
  assumes "\<And>pos. get_position book a s = Some pos \<Longrightarrow>
     (p_quantity (f pos), p_average_price (f pos), p_realized_pnl (f pos))
       = (p_quantity pos, p_average_price pos, p_realized_pnl pos)"
  shows "holding (set_position book a s f) = holding book"
  using assms by (intro ext) (auto simp: holding_def set_position_get split: option.splits)

definition blank_kept :: "position_book \<Rightarrow> string \<Rightarrow> string \<Rightarrow> position_book" where
  "blank_kept book a s =
     (case get_position book a s of None \<Rightarrow> dict_put (a, s) (new_position a s) book | Some _ \<Rightarrow> book)"

lemma blank_kept_simps [simp]:
  "touches a s book (blank_kept book a s)" "holding (blank_kept book a s) = holding book"
proof -
  show "touches a s book (blank_kept book a s)"
    by (auto simp: touches_def blank_kept_def get_position_def split: option.splits)
  show "holding (blank_kept book a s) = holding book"
    by (intro ext) (auto simp: holding_def blank_kept_def get_position_def split: option.splits)
qed

text \<open>What one submission of \<open>ord\<close> may do: nothing to what is held, or the fill its broker answered.\<close>

definition fill_answered ::
  "'b place_order \<Rightarrow> 'b \<Rightarrow> order \<Rightarrow> position_book \<Rightarrow> position_book \<Rightarrow> bool" where
  "fill_answered place b ord book book' \<longleftrightarrow>
     (\<exists>res b' x. place b (request_of ord) = Inr (res, b') \<and> Fin 0 < rs_filled_quantity res
        \<and> holding book' = holding (apply_fill book (o_account_id ord) (o_symbol ord) (o_direction ord) (rs_filled_quantity res) x))"

lemma move_to_book:
  assumes "\<And>om. P (ex_positions (fst (k (st\<lparr>ex_orders := om\<rparr>))))" and "P (ex_positions st)"
  shows "P (ex_positions (fst (move_to st oid s d k)))"
  using assms by (simp add: move_to_def split: sum.split)

lemma settle_answer_book:
  fixes st :: "'b engine" and ord :: order and oid :: uuid and res :: order_result
  defines "book' \<equiv> ex_positions (fst (settle_answer st ord oid res))"
  shows "touches (o_account_id ord) (o_symbol ord) (ex_positions st) book'
    \<and> (holding book' = holding (ex_positions st)
       \<or> Fin 0 < rs_filled_quantity res \<and> (\<exists>x. holding book' = holding
            (apply_fill (ex_positions st) (o_account_id ord) (o_symbol ord) (o_direction ord) (rs_filled_quantity res) x)))"
proof -
  let ?P = "\<lambda>book'. touches (o_account_id ord) (o_symbol ord) (ex_positions st) book'
    \<and> (holding book' = holding (ex_positions st)
       \<or> Fin 0 < rs_filled_quantity res \<and> (\<exists>x. holding book' = holding
            (apply_fill (ex_positions st) (o_account_id ord) (o_symbol ord) (o_direction ord) (rs_filled_quantity res) x)))"
  have fill: "?P (ex_positions (fst (book_fill st' ord (rs_filled_quantity res) x k)))"
    if "ex_positions st' = ex_positions st" "Fin 0 < rs_filled_quantity res" "\<And>st''. ex_positions (fst (k st'')) = ex_positions st''"
    for st' :: "'b engine" and x k
  proof (cases x)
    case None
    then have "ex_positions (fst (book_fill st' ord (rs_filled_quantity res) x k))
      = blank_kept (ex_positions st) (o_account_id ord) (o_symbol ord)"
      using that(1) by (simp add: book_fill_def blank_kept_def split: option.split)
    then show ?thesis by simp
  next
    case (Some y)
    then have "ex_positions (fst (book_fill st' ord (rs_filled_quantity res) x k))
      = apply_fill (ex_positions st) (o_account_id ord) (o_symbol ord) (o_direction ord) (rs_filled_quantity res) y"
      using that by (simp add: book_fill_def)
    with that(2) show ?thesis by (metis touches_fill)
  qed
  have done_: "ex_positions (fst (if b then move_to st' oid MONITORING d returned else returned st')) = ex_positions st'"
    for b d and st' :: "'b engine"
    by (simp add: returned_def) (rule move_to_book, simp_all add: returned_def)
  have step: "?P (ex_positions (fst (move_to st' oid s d k)))"
    if "ex_positions st' = ex_positions st"
      "\<And>st''. ex_positions st'' = ex_positions st \<Longrightarrow> ?P (ex_positions (fst (k st'')))" for st' :: "'b engine" and s d k
    using that by (intro move_to_book [where P = ?P]) simp_all
  have return: "?P (ex_positions (fst (returned st')))" if "ex_positions st' = ex_positions st" for st' :: "'b engine"
    using that by (simp add: returned_def)
  have filled: "?P (ex_positions (fst (move_to (st'\<lparr>ex_orders := om\<rparr>) oid s d (\<lambda>st. book_fill st ord (rs_filled_quantity res)
        (rs_average_fill_price res) (\<lambda>st. if b then move_to st oid MONITORING d' returned else returned st)))))"
    if "ex_positions st' = ex_positions st" "Fin 0 < rs_filled_quantity res" for st' :: "'b engine" and om s d d' b
    using that by (intro step fill done_) simp_all
  show ?thesis
  proof (cases "rs_status res = REJECTED \<or> rs_status res = FAILED")
    case True
    then obtain s d where "settle_answer st ord oid res = move_to st oid s d returned"
      by (auto simp: settle_answer_def)
    then show ?thesis unfolding book'_def using step [OF refl return] by simp
  next
    case False
    have "?P (ex_positions (fst (move_to st oid ACKNOWLEDGED ''broker acknowledged'' (\<lambda>st.
        if Fin 0 < rs_filled_quantity res then move_to (st\<lparr>ex_orders := f st\<rparr>) oid s d (\<lambda>st. book_fill st ord
          (rs_filled_quantity res) (rs_average_fill_price res) (\<lambda>st. if b then move_to st oid MONITORING d' returned else returned st))
        else returned st))))" for f s d d' b
    proof (rule step [OF refl], goal_cases)
      case (1 st')
      show ?case
      proof (cases "Fin 0 < rs_filled_quantity res")
        case True
        show ?thesis unfolding if_P [OF True] by (rule filled [OF 1 True])
      next
        case False
        show ?thesis unfolding if_not_P [OF False] by (rule return [OF 1])
      qed
    qed
    with False show ?thesis
      unfolding book'_def settle_answer_def Let_def by (simp only: de_Morgan_disj if_False simp_thms)
  qed
qed

lemma submit_book:
  fixes st :: "'b engine" and ord :: order and oid :: uuid and place :: "'b place_order"
  assumes "get_order (ex_orders st) oid = Some ord"
  defines "book' \<equiv> ex_positions (fst (submit place st oid))"
  shows "touches (o_account_id ord) (o_symbol ord) (ex_positions st) book'
    \<and> (holding book' = holding (ex_positions st) \<or> fill_answered place (ex_broker st) ord (ex_positions st) book')"
proof -
  let ?Q = "\<lambda>book'. touches (o_account_id ord) (o_symbol ord) (ex_positions st) book'
    \<and> (holding book' = holding (ex_positions st) \<or> fill_answered place (ex_broker st) ord (ex_positions st) book')"
  have "?Q (ex_positions (fst (settle_answer st' ord oid res)))"
    if "ex_positions st' = ex_positions st" "place (ex_broker st) (request_of ord) = Inr (res, b')" for st' :: "'b engine" and res b'
    using settle_answer_book [of ord st' oid res] that unfolding fill_answered_def by (metis (no_types, lifting))
  then have "?Q (ex_positions (fst (case place (ex_broker st') (request_of ord) of Inl e \<Rightarrow> (st', Some e)
      | Inr (res, b) \<Rightarrow> settle_answer (st'\<lparr>ex_broker := b, ex_orders := set_order (ex_orders st') oid (f res)\<rparr>) ord oid res)))"
    if "ex_positions st' = ex_positions st" "ex_broker st' = ex_broker st" for st' :: "'b engine" and f
    using that by (cases "place (ex_broker st) (request_of ord)") (simp_all split: prod.split)
  then have "?Q (ex_positions (fst (move_to st oid SUBMITTED ''sent to broker''
      (\<lambda>st. case place (ex_broker st) (request_of ord) of Inl e \<Rightarrow> (st, Some e)
      | Inr (res, b) \<Rightarrow> settle_answer (st\<lparr>ex_broker := b, ex_orders := set_order (ex_orders st) oid
            (\<lambda>x. x\<lparr>o_broker_order_id := Some (rs_broker_order_id res)\<rparr>)\<rparr>) ord oid res))))"
    by (intro move_to_book [where P = ?Q]) simp_all
  then show ?thesis
    unfolding book'_def by (cases "o_status ord = RISK_APPROVED") (simp_all add: submit_def assms(1))
qed

text \<open>No step of a submission adds or loses an order.\<close>

definition same_ids :: "order_manager \<Rightarrow> order_manager \<Rightarrow> bool" where
  "same_ids om om' \<longleftrightarrow> (\<forall>j. get_order om' j = None \<longleftrightarrow> get_order om j = None)"

lemma move_to_ids:
  assumes "\<And>st'. same_ids (ex_orders st') (ex_orders (fst (k st')))"
  shows "same_ids (ex_orders st) (ex_orders (fst (move_to st oid s d k)))"
proof (cases "transition (ex_orders st) oid s d")
  case (Inr om)
  have "same_ids om (ex_orders (fst (k (st\<lparr>ex_orders := om\<rparr>))))" using assms [of "st\<lparr>ex_orders := om\<rparr>"] by simp
  moreover have "same_ids (ex_orders st) om"
    using Inr by (auto simp: same_ids_def transition_get transition_Inr split: if_splits)
  ultimately show ?thesis using Inr by (simp add: move_to_def same_ids_def)
qed (simp add: move_to_def same_ids_def)

lemma set_order_ids: "same_ids om (set_order om i f)"
  by (auto simp: same_ids_def set_order_get)

lemma returned_ids: "same_ids (ex_orders st) (ex_orders (fst (returned st)))"
  by (simp add: returned_def same_ids_def)

lemma book_fill_ids:
  assumes "\<And>st'. same_ids (ex_orders st') (ex_orders (fst (k st')))"
  shows "same_ids (ex_orders st) (ex_orders (fst (book_fill st ord q x k)))"
proof (cases x)
  case (Some y)
  then show ?thesis
    using assms [of "st\<lparr>ex_positions := apply_fill (ex_positions st) (o_account_id ord) (o_symbol ord) (o_direction ord) q y\<rparr>"]
    by (simp add: book_fill_def)
qed (simp add: book_fill_def same_ids_def)

lemma set_then_ids:
  assumes "same_ids (set_order (ex_orders st) oid f) om"
  shows "same_ids (ex_orders st) om"
  using assms set_order_ids [of "ex_orders st" oid f] by (simp add: same_ids_def)

lemma settle_answer_ids: "same_ids (ex_orders st) (ex_orders (fst (settle_answer st ord oid res)))"
proof -
  have fill: "same_ids (ex_orders st') (ex_orders (fst (move_to (st'\<lparr>ex_orders := set_order (ex_orders st') oid f\<rparr>) oid s d k)))"
    if "\<And>st''. same_ids (ex_orders st'') (ex_orders (fst (k st'')))" for st' :: "'a engine" and f s d k
    using move_to_ids [OF that, of "st'\<lparr>ex_orders := set_order (ex_orders st') oid f\<rparr>" oid s d] by (auto intro: set_then_ids)
  show ?thesis
    unfolding settle_answer_def Let_def by (auto intro!: move_to_ids fill book_fill_ids returned_ids)
qed

lemma submit_ids: "same_ids (ex_orders st) (ex_orders (fst (submit place st oid)))"
proof (cases "get_order (ex_orders st) oid")
  case None
  then show ?thesis by (simp add: submit_def same_ids_def)
next
  case (Some ord)
  have "same_ids (ex_orders st') (ex_orders (fst (settle_answer
      (st'\<lparr>ex_broker := b, ex_orders := set_order (ex_orders st') oid f\<rparr>) ord oid res)))" for st' :: "'a engine" and b f res
    using settle_answer_ids [of "st'\<lparr>ex_broker := b, ex_orders := set_order (ex_orders st') oid f\<rparr>" ord oid res]
    by (auto intro: set_then_ids)
  with Some show ?thesis
    by (auto simp: submit_def same_ids_def [of "ex_orders st" "ex_orders st"] intro!: move_to_ids split: sum.split)
      (simp add: same_ids_def)
qed

subsection \<open>What the handler may do\<close>

abbreviation book_of :: "'b stack \<Rightarrow> position_book" where
  "book_of sk \<equiv> ex_positions (sk_exec sk)"

abbreviation orders_of :: "'b stack \<Rightarrow> order_manager" where
  "orders_of sk \<equiv> ex_orders (sk_exec sk)"

abbreviation state_of :: "('b, 'a) handled \<Rightarrow> 'b stack \<times> world" where
  "state_of m \<equiv> (fst m, fst (snd m))"

text \<open>Nothing is filled, ordered or decided; one record may get another stop.\<close>

definition books_kept :: "string \<Rightarrow> string \<Rightarrow> 'b stack \<times> world \<Rightarrow> 'b stack \<times> world \<Rightarrow> bool" where
  "books_kept a s x y \<longleftrightarrow>
     touches a s (book_of (fst x)) (book_of (fst y)) \<and> holding (book_of (fst y)) = holding (book_of (fst x))
     \<and> orders_of (fst y) = orders_of (fst x) \<and> wo_risk_events (snd y) = wo_risk_events (snd x)"

lemma books_kept_refl [simp]: "books_kept a s x x"
  by (simp add: books_kept_def)

lemma books_kept_trans: "books_kept a s x y \<Longrightarrow> books_kept a s y z \<Longrightarrow> books_kept a s x z"
  by (auto simp: books_kept_def intro: touches_trans)

lemma then_do_kept:
  assumes "books_kept a s x (state_of m)"
    and "\<And>sk wo v. m = (sk, wo, Inr v) \<Longrightarrow> books_kept a s (sk, wo) (state_of (k sk wo v))"
  shows "books_kept a s x (state_of (then_do m k))"
proof (cases m)
  case (fields sk wo r)
  show ?thesis
  proof (cases r)
    case (Inl e)
    with assms(1) fields show ?thesis by (simp add: then_do_def)
  next
    case (Inr v)
    have "state_of m = (sk, wo)" by (simp add: fields)
    with assms(1) assms(2) [of sk wo v] fields Inr show ?thesis
      by (auto simp: then_do_def intro: books_kept_trans)
  qed
qed

lemma then_do_Inr:
  "then_do m k = (sk', wo', Inr v) \<longleftrightarrow> (\<exists>sk wo u. m = (sk, wo, Inr u) \<and> k sk wo u = (sk', wo', Inr v))"
  by (auto simp: then_do_def split: prod.splits sum.splits)

lemma write_db_kept [simp]: "books_kept a s (sk, wo) (state_of (write_db sk wo r))"
  by (simp add: write_db_def books_kept_def split: sum.split prod.split)

lemma notify_kept [simp]:
  "books_kept a s x (sk, notify env n wo) \<longleftrightarrow> books_kept a s x (sk, wo)"
  "books_kept a s x (sk, record_audit env d wo) \<longleftrightarrow> books_kept a s x (sk, wo)"
  "books_kept a s x (sk, wo\<lparr>wo_halts := h\<rparr>) \<longleftrightarrow> books_kept a s x (sk, wo)"
  by (simp_all add: books_kept_def notify_def record_audit_def)

lemma stop_kept:
  assumes "\<And>pos. get_position (book_of sk) a s = Some pos \<Longrightarrow>
     (p_quantity (f pos), p_average_price (f pos), p_realized_pnl (f pos))
       = (p_quantity pos, p_average_price pos, p_realized_pnl pos)"
  shows "books_kept a s (sk, wo) (with_engine sk (\<lambda>ex. ex\<lparr>ex_positions := set_position (ex_positions ex) a s f\<rparr>), wo)"
    "books_kept a s (sk, wo) (with_engine sk (\<lambda>ex. ex\<lparr>ex_broker := b, ex_positions := set_position (ex_positions ex) a s f\<rparr>), wo)"
  using holding_set [of "book_of sk" a s f, OF assms] by (simp_all add: books_kept_def with_engine_def)

lemma ensure_only_handle:
  assumes "ensure_protective_stop calls key b pos = (r, b', pos')"
  shows "\<exists>i. pos' = pos\<lparr>p_protective_order_id := i\<rparr>"
proof -
  obtain ok b1 pos1 where c: "cancel_protective_stop calls b pos = (ok, b1, pos1)" by (cases "cancel_protective_stop calls b pos")
  have pos1: "pos1 = pos\<lparr>p_protective_order_id := p_protective_order_id pos1\<rparr>"
    using cancel_cases [OF c] by (cases ok) auto
  have "\<exists>i. pos' = pos1\<lparr>p_protective_order_id := i\<rparr>"
    using assms
    by (auto simp: ensure_protective_stop_def c place_stop_def split: bool.splits option.splits if_splits prod.splits sum.splits
        intro: exI [of _ "p_protective_order_id pos1"])
  then show ?thesis by (subst (asm) pos1) auto
qed

lemma protect_kept: "books_kept (account_of env) (pl_symbol p) (sk, wo) (state_of (protect ops env p sk wo))"
proof (cases "position_at sk env p")
  case (Some pos)
  obtain r b pos' where e: "ensure_protective_stop (op_calls ops) (oe_stop_key env) (ex_broker (sk_exec sk)) pos = (r, b, pos')"
    by (metis prod_cases3)
  obtain i where pos': "pos' = pos\<lparr>p_protective_order_id := i\<rparr>" using ensure_only_handle [OF e] by blast
  have "books_kept (account_of env) (pl_symbol p) (sk, wo) (with_engine sk (\<lambda>ex. ex\<lparr>ex_broker := b,
      ex_positions := set_position (ex_positions ex) (account_of env) (pl_symbol p) (\<lambda>x. pos')\<rparr>), wo)"
    using Some by (intro stop_kept) (simp add: pos' position_at_def)
  then show ?thesis
    by (simp add: protect_def Some e Let_def split: sum.split option.split)
qed (simp add: protect_def)

lemma set_stop_kept: "books_kept (account_of env) (pl_symbol p) (sk, wo) (set_stop_price env p pos sk, wo)"
  by (simp add: set_stop_price_def stop_kept)

lemma book_result_kept: "books_kept a s (sk, wo) (state_of (book_result ops env p i final before pos row sk wo))"
proof (cases before)
  case (Some old)
  have "books_kept a s (sk, wo) (sk\<lparr>sk_daily_pnl := x, sk_weekly_pnl := y\<rparr>, wo)" for x y
    by (simp add: books_kept_def)
  then show ?thesis
    by (auto simp: book_result_def Some Let_def intro!: then_do_kept intro: books_kept_trans [OF _ write_db_kept])
qed (simp add: book_result_def)

lemma settle_kept:
  "books_kept (account_of env) (pl_symbol p) (sk, wo) (state_of (settle_position ops env p i final created before sk wo))"
proof (cases "position_at sk env p")
  case (Some after)
  let ?rest = "\<lambda>b sk wo unprotected. case position_at sk env p of
      None \<Rightarrow> (sk, wo, Inr unprotected)
    | Some pos \<Rightarrow>
        then_do (write_db sk wo (persist_position (oe_num env) (oe_row_id env) (instant (oe_now env)) (wo_tables wo)
                   (oe_user env) i pos (execution_mode_for ops) ''manual'')) (\<lambda>sk wo row.
        then_do (book_result ops env p i final before pos row sk wo) (\<lambda>sk wo _.
          (sk, if b then notify env (Trade_executed (pl_symbol p) (pl_direction p)) wo else wo, Inr unprotected)))"
  have rest: "books_kept (account_of env) (pl_symbol p) (sk, wo) (state_of (?rest b sk wo u))" for sk wo b and u :: "stop_problem option"
    by (simp split: option.split) (auto intro!: then_do_kept book_result_kept)
  show ?thesis
    unfolding settle_position_def Some option.case Let_def
    by (rule then_do_kept [OF _ rest]) (auto intro: books_kept_trans [OF set_stop_kept] protect_kept set_stop_kept)
qed (simp add: settle_position_def)

lemma roll_risk_window_keeps [simp]:
  "sk_exec (roll_risk_window sk now) = sk_exec sk" "sk_risk (roll_risk_window sk now) = sk_risk sk"
  by (simp_all add: roll_risk_window_def Let_def)

text \<open>The gate as it stands when the order is judged.\<close>

definition gate_at :: "'b stack \<Rightarrow> order_env \<Rightarrow> risk_engine" where
  "gate_at sk env = (sk_risk sk)\<lparr>re_kill_switch := load_kill_switch_state (oe_redis env) (Some (account_of env)) None\<rparr>"

lemma judge_cases:
  assumes "judge ops env p sk wo = (sk', wo', r)"
  shows "sk_exec sk' = sk_exec sk"
    and "r = Inr t \<Longrightarrow> order_proposal ops env p sk wo = Inr t \<and> approved (evaluate (gate_at sk env) t)
      \<and> wo_tables wo' = wo_tables wo
      \<and> (\<exists>ev. wo_risk_events wo' = wo_risk_events wo @ [ev] \<and> rv_user ev = oe_user env \<and> rv_decision ev = APPROVE
           \<and> rv_checks ev = dict_of rc_name rc_passed (rr_checks (evaluate (gate_at sk env) t)))"
  using assms by (auto simp: judge_def then_do_def attempt_def Let_def gate_at_def split: sum.splits if_splits)

lemma seed_quote_cases:
  assumes "seed_quote ops p sk wo = (sk', wo', r)"
  shows "book_of sk' = book_of sk" "orders_of sk' = orders_of sk" "sk_risk sk' = sk_risk sk" "wo' = wo"
  using assms by (auto simp: seed_quote_def with_engine_def split: option.splits sum.splits)

lemma order_proposal_fields:
  assumes "order_proposal ops env p sk wo = Inr t"
  shows "tp_account_id t = account_of env \<and> tp_strategy_id t = None \<and> tp_stop t = pl_stop p
    \<and> tp_is_reducing t = reducing (position_at sk env p) p
    \<and> (if pl_order_type p = LIMIT then Some (tp_entry t) = pl_price p else tp_entry t = pl_entry p)
    \<and> (\<exists>balance. tp_proposed_quantity t = Some (order_quantity (re_limits (sk_risk sk)) balance (tp_entry t) (pl_stop p)
          (position_at sk env p) (reducing (position_at sk env p) p)))"
  using assms by (auto simp: order_proposal_def bind_res_Inr Let_def of_opt_Inr split: if_splits)

lemma place_order_cases:
  assumes run: "place_manual_order ops env p i sk wo = (sk', wo', r)"
  obtains (nothing) "touches (account_of env) (pl_symbol p) (book_of sk) (book_of sk')"
      "holding (book_of sk') = holding (book_of sk)" "orders_of sk' = orders_of sk"
  | (sent) sk1 t sk2 wo2 ev sk3 wo3 r3 where
      "dict_get (wo_halts wo) (account_of env) = None \<or> reducing (position_at sk env p) p"
      "book_of sk1 = book_of sk" "orders_of sk1 = orders_of sk" "sk_risk sk1 = sk_risk sk"
      "order_proposal ops env p sk1 wo = Inr t" "approved (evaluate (gate_at sk env) t)" "sk_exec sk2 = sk_exec sk1"
      "wo_risk_events wo2 = wo_risk_events wo @ [ev]" "rv_user ev = oe_user env" "rv_decision ev = APPROVE"
      "rv_checks ev = dict_of rc_name rc_passed (rr_checks (evaluate (gate_at sk env) t))"
      "send_order ops env p (the (tp_proposed_quantity t)) sk2 wo2 = (sk3, wo3, r3)"
      "books_kept (account_of env) (pl_symbol p) (sk3, wo3) (sk', wo')"
proof -
  define sk0 where "sk0 = roll_risk_window sk (oe_now env)"
  have pos: "position_at sk0 env p = position_at sk env p" by (simp add: sk0_def position_at_def)
  let ?allowed = "dict_get (wo_halts wo) (account_of env) = None \<or> reducing (position_at sk env p) p"
  show thesis
  proof (cases ?allowed)
    case False
    then have same: "sk' = sk0"
      using run unfolding place_manual_order_def Let_def sk0_def [symmetric] pos by (auto split: option.splits bool.splits)
    show thesis by (rule nothing) (simp_all add: same, simp_all add: sk0_def)
  next
    case True
    obtain sk1 wo1 r1 where seed: "seed_quote ops p sk0 wo = (sk1, wo1, r1)" by (metis prod_cases3)
    note kept = seed_quote_cases [OF seed]
    have same: "book_of sk1 = book_of sk" "orders_of sk1 = orders_of sk" "sk_risk sk1 = sk_risk sk" "wo1 = wo"
      using kept by (simp_all add: sk0_def)
    define tail where "tail = (\<lambda>(final, created, before) sk wo.
      then_do (journal_order ops env i final sk wo) (\<lambda>sk wo _.
      then_do (settle_position ops env p i final created before sk wo) (\<lambda>sk wo unprotected.
        (sk, record_audit env (Order_placed (pl_symbol p) (pl_direction p) (o_status final)) wo,
         Inr \<lparr>rp_order = final, rp_unprotected_reason = unprotected\<rparr>))))"
    have tail_kept: "books_kept (account_of env) (pl_symbol p) (sk, wo) (state_of (tail x sk wo))" for x and sk :: "'a stack" and wo
      unfolding tail_def by (cases x) (auto simp: journal_order_def intro!: then_do_kept settle_kept)
    have body: "(sk', wo', r) = then_do (sk1, wo1, r1) (\<lambda>sk wo _. then_do (judge ops env p sk wo) (\<lambda>sk wo t.
        then_do (send_order ops env p (the (tp_proposed_quantity t)) sk wo) (\<lambda>sk wo x. tail x sk wo)))"
      using run True
      unfolding place_manual_order_def Let_def sk0_def [symmetric] pos seed tail_def
      by (auto split: option.splits bool.splits simp: case_prod_unfold)
    show thesis
    proof (cases r1)
      case (Inl e)
      then have here: "sk' = sk1" using body by (simp add: then_do_def)
      show thesis by (rule nothing) (simp_all add: here same)
    next
      case r1: (Inr u)
      obtain sk2 wo2 r2 where judged: "judge ops env p sk1 wo = (sk2, wo2, r2)" by (metis prod_cases3)
      note exec = judge_cases(1) [OF judged]
      show thesis
      proof (cases r2)
        case (Inl e)
        then have here: "sk' = sk2" using body same r1 judged by (simp add: then_do_def)
        show thesis by (rule nothing) (simp_all add: here same exec)
      next
        case (Inr t)
        note ok = judge_cases(2) [OF judged Inr]
        obtain sk3 wo3 r3 where send: "send_order ops env p (the (tp_proposed_quantity t)) sk2 wo2 = (sk3, wo3, r3)"
          by (metis prod_cases3)
        have "(sk', wo', r) = then_do (sk3, wo3, r3) (\<lambda>sk wo x. tail x sk wo)"
          using body same r1 judged Inr send by (simp add: then_do_def)
        moreover have "books_kept (account_of env) (pl_symbol p) (sk3, wo3)
            (state_of (then_do (sk3, wo3, r3) (\<lambda>sk wo x. tail x sk wo)))"
          by (rule then_do_kept) (auto intro: tail_kept)
        ultimately have "books_kept (account_of env) (pl_symbol p) (sk3, wo3) (sk', wo')"
          by (metis fst_conv snd_conv)
        moreover have "gate_at sk1 env = gate_at sk env" using same(3) by (simp add: gate_at_def)
        ultimately show thesis
          using ok True same exec send by (auto intro: sent)
      qed
    qed
  qed
qed

lemma fill_answered_move: "fill_answered place b (move_order ord s d) = fill_answered place b ord"
  by (intro ext) (simp add: fill_answered_def request_of_def)

lemma send_order_cases:
  assumes "send_order ops env p q sk wo = (sk', wo', r)"
  shows "wo' = wo \<and> touches (account_of env) (pl_symbol p) (book_of sk) (book_of sk')
    \<and> (book_of sk' = book_of sk \<and> orders_of sk' = orders_of sk
       \<or> (\<exists>ord. o_id ord = oe_order_id env
            \<and> order_terms ord = (account_of env, pl_symbol p, pl_direction p, pl_order_type p, q, pl_price p)
            \<and> dict_get (om_by_key (orders_of sk)) (order_key env p) = None
            \<and> (\<forall>j. j \<noteq> oe_order_id env \<longrightarrow> (get_order (orders_of sk') j = None \<longleftrightarrow> get_order (orders_of sk) j = None))
            \<and> (\<forall>ord'. get_order (orders_of sk') (oe_order_id env) = Some ord' \<longrightarrow> order_terms ord' = order_terms ord)
            \<and> (holding (book_of sk') = holding (book_of sk)
               \<or> fill_answered (op_place ops) (ex_broker (sk_exec sk)) ord (book_of sk) (book_of sk'))))"
proof -
  let ?new = "create_order (orders_of sk) (oe_order_id env) (order_key env p) (account_of env) (pl_symbol p) (pl_direction p)
    (pl_order_type p) q (pl_price p)"
  show ?thesis
  proof (cases ?new)
    case (Inl e)
    then show ?thesis using assms by (auto simp: send_order_def attempt_def then_do_def)
  next
    case (Inr x)
    obtain ord created om where x: "x = (ord, created, om)" by (metis prod_cases3)
    with Inr have new: "?new = Inr (ord, created, om)" by simp
    define sk1 where "sk1 = with_engine sk (\<lambda>ex. ex\<lparr>ex_orders := om\<rparr>)"
    have sk1: "book_of sk1 = book_of sk" "orders_of sk1 = om" "ex_broker (sk_exec sk1) = ex_broker (sk_exec sk)"
      by (simp_all add: sk1_def with_engine_def)
    show ?thesis
    proof (cases created)
      case False
      then have "sk' = sk1 \<and> wo' = wo"
        using assms new by (simp add: send_order_def attempt_def then_do_def sk1_def Let_def)
      then show ?thesis
        using create_order_cases [OF new] False sk1 by auto
    next
      case True
      from create_order_cases [OF new] True
      have fresh: "dict_get (om_by_key (orders_of sk)) (order_key env p) = None" "om = restore_order (orders_of sk) ord"
        "o_id ord = oe_order_id env" "o_account_id ord = account_of env" "o_symbol ord = pl_symbol p"
        "o_direction ord = pl_direction p" "o_order_type ord = pl_order_type p" "o_quantity ord = q" "o_price ord = pl_price p"
        by simp_all
      define out where "out = move_to (sk_exec sk1) (o_id ord) VALIDATING [] (\<lambda>st. move_to st (o_id ord) RISK_APPROVED []
        (\<lambda>st. submit (op_place ops) st (o_id ord)))"
      have sk': "sk_exec sk' = fst out" "wo' = wo"
        using assms new True
        by (auto simp: send_order_def attempt_def then_do_def sk1_def out_def Let_def split: prod.splits option.splits)
      have ids: "same_ids om (ex_orders (fst out))"
        unfolding out_def sk1 [symmetric] by (intro move_to_ids submit_ids)
      have terms: "order_terms ord = (account_of env, pl_symbol p, pl_direction p, pl_order_type p, q, pl_price p)"
        using fresh by (simp add: order_terms_def)
      have om: "get_order om j = (if j = oe_order_id env then Some ord else get_order (orders_of sk) j)" for j
        using fresh by (simp add: restore_order_def get_order_def)
      have "om_evolves om (ex_orders (fst out))"
        unfolding out_def sk1 [symmetric] by (intro move_to_evolves submit_evolves)
      from om_evolves_terms [OF this, of "oe_order_id env" ord] om
      have kept: "get_order (ex_orders (fst out)) (oe_order_id env) = Some ord' \<Longrightarrow> order_terms ord' = order_terms ord" for ord'
        by auto
      have "touches (account_of env) (pl_symbol p) (book_of sk) (ex_positions (fst out))
          \<and> (holding (ex_positions (fst out)) = holding (book_of sk)
             \<or> fill_answered (op_place ops) (ex_broker (sk_exec sk)) ord (book_of sk) (ex_positions (fst out)))" (is "?Q (ex_positions (fst out))")
      proof -
        have ord: "o_account_id ord = account_of env" "o_symbol ord = pl_symbol p" using fresh by simp_all
        have "?Q (ex_positions (fst (submit (op_place ops) (sk_exec sk1\<lparr>ex_orders := om2\<rparr>) (o_id ord))))"
          if "transition om (o_id ord) VALIDATING [] = Inr om1" "transition om1 (o_id ord) RISK_APPROVED [] = Inr om2" for om1 om2
        proof -
          have "get_order om2 (o_id ord) = Some (move_order (move_order ord VALIDATING []) RISK_APPROVED [])"
            using transition_get [OF that(1), of "o_id ord"] transition_get [OF that(2), of "o_id ord"] om fresh by simp
          from submit_book [of "sk_exec sk1\<lparr>ex_orders := om2\<rparr>", simplified, OF this, of "op_place ops"]
          show ?thesis by (simp add: ord sk1 fill_answered_move)
        qed
        then show ?thesis
          unfolding out_def move_to_def using sk1 by (auto split: sum.split)
      qed
      then show ?thesis
        using fresh terms om ids kept sk' by (auto simp: same_ids_def)
    qed
  qed
qed

subsection \<open>Reducing orders\<close>

lemma reducing_side:
  assumes "reducing (Some pos) p" "p_quantity pos = Fin x"
  shows "x \<noteq> 0 \<and> pl_direction p = (if 0 < x then SHORT else LONG)"
  using assms by (cases "pl_direction p") (auto simp: reducing_def is_open_def is_long_def py_eq_def)

lemma holding_fill:
  "fst (holding (apply_fill book a s d q x) a s) =
     p_quantity (fill_position (case get_position book a s of None \<Rightarrow> new_position a s | Some pos \<Rightarrow> pos) d q x)"
  by (simp add: holding_def apply_fill_get)

text \<open>Towards zero, and not past it.\<close>

definition only_reduced :: "pyfloat \<Rightarrow> pyfloat \<Rightarrow> bool" where
  "only_reduced q q' \<longleftrightarrow> q' = q \<or> Fin 0 \<le> q' \<and> q' \<le> q \<or> q \<le> q' \<and> q' \<le> Fin 0"

lemma reducing_fill:
  assumes pos: "get_position book a s = Some pos" "p_quantity pos = Fin x" "representable x"
    and red: "reducing (Some pos) p" and f: "Fin 0 < f" "f \<le> q"
    and q: "q = order_quantity lims balance entry stop (Some pos) True"
  shows "only_reduced (fst (holding book a s)) (fst (holding (apply_fill book a s (pl_direction p) f price) a s))"
proof -
  note side = reducing_side [OF red pos(2)]
  have "q \<le> \<bar>Fin x\<bar>"
    using f q pos(2) flt_not_NaN
    by (cases "calculate_position_size balance (rl_risk_per_trade_pct lims) entry stop (rl_max_position_size lims) = NaN")
      (auto simp: order_quantity_def Let_def pymin_def not_flt_iff split: if_splits)
  with f obtain r where r: "f = Fin r" "0 < r" "r \<le> \<bar>x\<bar>"
    by (cases f; cases q) auto
  from clamped_exit [OF pos(2) r(2,3) pos(3), of price] side show ?thesis
    unfolding holding_fill by (auto simp: r(1) pos holding_def only_reduced_def split: if_splits)
qed

text \<open>A broker that never fills more than it was asked for.\<close>

definition honest_fills :: "'b place_order \<Rightarrow> bool" where
  "honest_fills place \<longleftrightarrow>
     (\<forall>b rq res b'. place b rq = Inr (res, b') \<and> Fin 0 < rs_filled_quantity res \<longrightarrow> rs_filled_quantity res \<le> rq_quantity rq)"

lemma fill_answered_sound:
  assumes "fill_answered place b ord book book'" and "honest_fills place"
  obtains f x where "Fin 0 < f" "f \<le> o_quantity ord"
    "holding book' = holding (apply_fill book (o_account_id ord) (o_symbol ord) (o_direction ord) f x)"
  using assms unfolding fill_answered_def honest_fills_def by (metis request_of_simps(3))

subsection \<open>The book and the journal\<close>

lemma persist_order_tables:
  assumes "persist_order num now link db ord = Inr db'"
  shows "db_positions db' = db_positions db" "db_symbols db' = db_symbols db"
  using assms by (auto simp: persist_order_def Let_def bind_res_Inr split: option.splits)

lemma record_trade_tables:
  assumes "record_trade num now db u i m tn = Inr db'"
  shows "db_positions db' = db_positions db" "db_symbols db' = db_symbols db"
  using assms by (auto simp: record_trade_def bind_res_Inr)

definition open_at :: "position_book \<Rightarrow> string \<Rightarrow> string \<Rightarrow> position option" where
  "open_at book a s =
     (case get_position book a s of None \<Rightarrow> None | Some pos \<Rightarrow> if is_open pos then Some pos else None)"

text \<open>The rows of the user, of every known symbol, are the open positions of the book.\<close>

definition mirrors :: "(uuid \<Rightarrow> string) \<Rightarrow> uuid \<Rightarrow> execution_mode \<Rightarrow> tables \<Rightarrow> position_book \<Rightarrow> bool" where
  "mirrors str_id u m db book \<longleftrightarrow>
     (\<forall>i s. dict_get (db_symbols db) i = Some s \<longrightarrow>
        map (position_of_row (str_id u) s) (rows_for db u i m ''manual'')
          = option_list (map_option (reloaded (str_id u) s) (open_at book (str_id u) s)))"

lemma mirrors_length:
  assumes "mirrors str_id u m db book" "dict_get (db_symbols db) i = Some s"
  shows "length (rows_for db u i m ''manual'') \<le> 1"
proof -
  have "length (map (position_of_row (str_id u) s) (rows_for db u i m ''manual'')) \<le> 1"
    using assms by (simp add: mirrors_def option_list_def split: option.split)
  then show ?thesis by simp
qed

lemma mirrors_same:
  assumes "mirrors str_id u m db book" "db_positions db' = db_positions db" "db_symbols db' = db_symbols db"
    and "\<And>s. open_at book' (str_id u) s = open_at book (str_id u) s"
  shows "mirrors str_id u m db' book'"
  using assms by (simp add: mirrors_def rows_for_def)

lemma mirrors_persisted:
  assumes m: "mirrors str_id u m db book" "symbols_ok db" "dict_get (db_symbols db) i = Some s"
    and pos: "get_position book' (str_id u) s = Some pos" "position_kept num pos"
    and others: "\<And>s'. s' \<noteq> s \<Longrightarrow> get_position book' (str_id u) s' = get_position book (str_id u) s'"
    and run: "persist_position num new_id now db u i pos m ''manual'' = Inr (db', row)"
  shows "mirrors str_id u m db' book'" "db_symbols db' = db_symbols db"
proof -
  obtain db1 row1 where one: "persist_position num new_id now db u i pos m ''manual'' = Inr (db1, row1)"
    "rows_for db1 u i m ''manual'' = (if is_open pos then [row1] else [])"
    "\<And>u' i' m' k'. (u', i', m', k') \<noteq> (u, i, m, ''manual'') \<Longrightarrow> rows_for db1 u' i' m' k' = rows_for db u' i' m' k'"
    "\<And>a s. position_of_row a s row1 = reloaded a s pos" "db_symbols db1 = db_symbols db"
    by (rule persist_position_step [OF pos(2) mirrors_length [OF m(1,3)], where new_id = new_id and now = now]) blast
  have eq: "db1 = db'" "row1 = row" using one(1) run by simp_all
  have step: "rows_for db' u i m ''manual'' = (if is_open pos then [row] else [])"
    "\<And>i'. i' \<noteq> i \<Longrightarrow> rows_for db' u i' m ''manual'' = rows_for db u i' m ''manual''"
    "\<And>a s. position_of_row a s row = reloaded a s pos" "db_symbols db' = db_symbols db"
    using one(2,4,5) one(3) [of u _ m "''manual''"] unfolding eq by simp_all
  show "db_symbols db' = db_symbols db" by (rule step)
  have "map (position_of_row (str_id u) s') (rows_for db' u i' m ''manual'')
      = option_list (map_option (reloaded (str_id u) s') (open_at book' (str_id u) s'))"
    if known: "dict_get (db_symbols db') i' = Some s'" for i' s'
  proof (cases "i' = i")
    case True
    then have "s' = s" using known step(4) m(3) by simp
    then show ?thesis using True step(1,3) pos(1) by (simp add: open_at_def)
  next
    case False
    have "s' \<noteq> s" using symbol_unique [OF m(2)] known step(4) m(3) False by metis
    then show ?thesis
      using False known step(2,4) m(1) others by (simp add: mirrors_def open_at_def)
  qed
  then show "mirrors str_id u m db' book'" by (simp add: mirrors_def)
qed

lemma book_result_tables:
  assumes "book_result ops env p i final before pos row sk wo = (sk', wo', Inr u)"
  shows "book_of sk' = book_of sk" "db_positions (wo_tables wo') = db_positions (wo_tables wo)"
    "db_symbols (wo_tables wo') = db_symbols (wo_tables wo)"
  using assms
  by (auto simp: book_result_def Let_def then_do_Inr write_db_def bind_res_Inr notify_def record_trade_tables
      split: option.splits if_splits sum.splits prod.splits)

lemma protect_tables:
  assumes "protect ops env p sk wo = (sk', wo', r)"
  shows "wo_tables wo' = wo_tables wo"
  using assms
  by (auto simp: protect_def Let_def notify_def record_audit_def split: option.splits sum.splits prod.splits)

lemma settle_mirrors:
  fixes sk :: "'b stack"
  assumes run: "settle_position ops env p i final created before sk wo = (sk', wo', Inr u)"
    and m: "mirrors (oe_str_id env) (oe_user env) (execution_mode_for ops) (wo_tables wo) book"
      "symbols_ok (wo_tables wo)" "dict_get (db_symbols (wo_tables wo)) i = Some (pl_symbol p)"
    and touch: "touches (account_of env) (pl_symbol p) book (book_of sk)"
    and kept: "\<And>pos. position_at sk' env p = Some pos \<Longrightarrow> position_kept (oe_num env) pos"
  shows "mirrors (oe_str_id env) (oe_user env) (execution_mode_for ops) (wo_tables wo') (book_of sk')
    \<and> db_symbols (wo_tables wo') = db_symbols (wo_tables wo)"
proof (cases "position_at sk env p")
  case None
  then have same: "sk' = sk" "wo' = wo" using run by (simp_all add: settle_position_def)
  have "open_at (book_of sk) (oe_str_id env (oe_user env)) s = open_at book (oe_str_id env (oe_user env)) s" for s
    using None touch by (cases "s = pl_symbol p") (simp_all add: open_at_def position_at_def touches_def account_of_def)
  with m(1) same show ?thesis by (auto intro: mirrors_same)
next
  case (Some after)
  obtain sk1 wo1 u1 where first: "(if created \<and> o_status final \<in> {FILLED, PARTIALLY_FILLED, MONITORING}
        then protect ops env p (set_stop_price env p after sk) wo else (set_stop_price env p after sk, wo, Inr None)) = (sk1, wo1, Inr u1)"
    and rest: "(case position_at sk1 env p of None \<Rightarrow> (sk1, wo1, Inr u1)
      | Some pos \<Rightarrow>
          then_do (write_db sk1 wo1 (persist_position (oe_num env) (oe_row_id env) (instant (oe_now env)) (wo_tables wo1)
                     (oe_user env) i pos (execution_mode_for ops) ''manual'')) (\<lambda>sk wo row.
          then_do (book_result ops env p i final before pos row sk wo) (\<lambda>sk wo _.
            (sk, if (created \<and> o_status final \<in> {FILLED, PARTIALLY_FILLED, MONITORING}) \<and> same_side p after
                 then notify env (Trade_executed (pl_symbol p) (pl_direction p)) wo else wo, Inr u1)))) = (sk', wo', Inr u)"
    using run unfolding settle_position_def Some option.case Let_def then_do_Inr by blast
  have "books_kept (account_of env) (pl_symbol p) (sk, wo) (sk1, wo1)"
    using first protect_kept [of env p "set_stop_price env p after sk" wo ops] set_stop_kept [of env p sk wo after]
    by (auto split: if_splits intro: books_kept_trans)
  then have touch1: "touches (account_of env) (pl_symbol p) book (book_of sk1)"
    "touches (account_of env) (pl_symbol p) (book_of sk) (book_of sk1)"
    using touch by (auto simp: books_kept_def intro: touches_trans)
  then obtain pos where pos: "position_at sk1 env p = Some pos"
    using Some by (auto simp: touches_def position_at_def)
  have tables: "wo_tables wo1 = wo_tables wo"
    using first protect_tables [of ops env p "set_stop_price env p after sk" wo] by (auto split: if_splits)
  obtain db2 row where stored: "persist_position (oe_num env) (oe_row_id env) (instant (oe_now env)) (wo_tables wo)
      (oe_user env) i pos (execution_mode_for ops) ''manual'' = Inr (db2, row)"
    and booked: "\<exists>wo3 v. book_result ops env p i final before pos row sk1 (wo1\<lparr>wo_tables := db2\<rparr>) = (sk', wo3, Inr v)
      \<and> wo_tables wo' = wo_tables wo3"
    using rest by (auto simp: pos then_do_Inr write_db_def tables notify_def split: sum.splits prod.splits if_splits)
  then obtain wo3 v where booked: "book_result ops env p i final before pos row sk1 (wo1\<lparr>wo_tables := db2\<rparr>) = (sk', wo3, Inr v)"
    "wo_tables wo' = wo_tables wo3" by blast
  have same: "book_of sk' = book_of sk1" "db_positions (wo_tables wo') = db_positions db2" "db_symbols (wo_tables wo') = db_symbols db2"
    using book_result_tables [OF booked(1)] booked(2) by simp_all
  have at: "get_position (book_of sk1) (oe_str_id env (oe_user env)) (pl_symbol p) = Some pos"
    using pos by (simp add: position_at_def account_of_def)
  have num: "position_kept (oe_num env) pos" using kept pos same(1) by (simp add: position_at_def)
  have "get_position (book_of sk1) (oe_str_id env (oe_user env)) s' = get_position book (oe_str_id env (oe_user env)) s'"
    if "s' \<noteq> pl_symbol p" for s' using that touch1(1) by (simp add: touches_def account_of_def)
  from mirrors_persisted [OF m at num this stored] same show ?thesis by (auto intro: mirrors_same)
qed

lemma place_order_Inr:
  assumes "place_manual_order ops env p i sk wo = (sk', wo', Inr a)"
  obtains sk3 wo3 final created before wo4 wo5 u where
    "touches (account_of env) (pl_symbol p) (book_of sk) (book_of sk3)" "wo_tables wo3 = wo_tables wo"
    "journal_order ops env i final sk3 wo3 = (sk3, wo4, Inr ())"
    "settle_position ops env p i final created before sk3 wo4 = (sk', wo5, Inr u)" "wo_tables wo' = wo_tables wo5"
proof -
  define sk0 where "sk0 = roll_risk_window sk (oe_now env)"
  have "then_do (seed_quote ops p sk0 wo) (\<lambda>sk wo _. then_do (judge ops env p sk wo) (\<lambda>sk wo t.
      then_do (send_order ops env p (the (tp_proposed_quantity t)) sk wo) (\<lambda>sk wo (final, created, before).
      then_do (journal_order ops env i final sk wo) (\<lambda>sk wo _.
      then_do (settle_position ops env p i final created before sk wo) (\<lambda>sk wo unprotected.
        (sk, record_audit env (Order_placed (pl_symbol p) (pl_direction p) (o_status final)) wo,
         Inr \<lparr>rp_order = final, rp_unprotected_reason = unprotected\<rparr>)))))) = (sk', wo', Inr a)"
    using assms by (auto simp: place_manual_order_def Let_def sk0_def split: option.splits bool.splits)
  then obtain sk1 wo1 v1 sk2 wo2 t sk3 wo3 final created before sk4 wo4 v4 wo5 u where
    run: "seed_quote ops p sk0 wo = (sk1, wo1, Inr v1)" "judge ops env p sk1 wo1 = (sk2, wo2, Inr t)"
    "send_order ops env p (the (tp_proposed_quantity t)) sk2 wo2 = (sk3, wo3, Inr (final, created, before))"
    "journal_order ops env i final sk3 wo3 = (sk4, wo4, Inr v4)"
    "settle_position ops env p i final created before sk4 wo4 = (sk', wo5, Inr u)"
    "wo' = record_audit env (Order_placed (pl_symbol p) (pl_direction p) (o_status final)) wo5"
    by (auto simp: then_do_Inr split_paired_all)
  have j: "sk4 = sk3" "v4 = ()"
    using run(4) by (auto simp: journal_order_def write_db_def split: sum.splits prod.splits)
  have same: "book_of sk2 = book_of sk" "wo_tables wo2 = wo_tables wo"
    using seed_quote_cases [OF run(1)] judge_cases(1) [OF run(2)] judge_cases(2) [OF run(2) refl] by (simp_all add: sk0_def)
  with send_order_cases [OF run(3)] run(4-6) j show thesis
    by (intro that [of sk3 wo3 final wo4 created before wo5 u]) (simp_all add: record_audit_def)
qed

lemma journal_order_tables:
  assumes "journal_order ops env i final sk wo = (sk', wo', Inr u)"
  shows "db_positions (wo_tables wo') = db_positions (wo_tables wo)" "db_symbols (wo_tables wo') = db_symbols (wo_tables wo)"
  using assms by (auto simp: journal_order_def write_db_def bind_res_Inr persist_order_tables split: sum.splits prod.splits)

lemma answered_order_mirrored:
  assumes run: "place_manual_order ops env p i sk wo = (sk', wo', Inr a)"
    and m: "mirrors (oe_str_id env) (oe_user env) (execution_mode_for ops) (wo_tables wo) (book_of sk)"
      "symbols_ok (wo_tables wo)" "dict_get (db_symbols (wo_tables wo)) i = Some (pl_symbol p)"
    and kept: "\<And>pos. position_at sk' env p = Some pos \<Longrightarrow> position_kept (oe_num env) pos"
  shows "mirrors (oe_str_id env) (oe_user env) (execution_mode_for ops) (wo_tables wo') (book_of sk')
    \<and> db_symbols (wo_tables wo') = db_symbols (wo_tables wo)"
proof -
  obtain sk3 wo3 final created before wo4 wo5 u where r: "touches (account_of env) (pl_symbol p) (book_of sk) (book_of sk3)"
    "wo_tables wo3 = wo_tables wo" "journal_order ops env i final sk3 wo3 = (sk3, wo4, Inr ())"
    "settle_position ops env p i final created before sk3 wo4 = (sk', wo5, Inr u)" "wo_tables wo' = wo_tables wo5"
    by (rule place_order_Inr [OF run])
  note j = journal_order_tables [OF r(3)]
  have "mirrors (oe_str_id env) (oe_user env) (execution_mode_for ops) (wo_tables wo4) (book_of sk)"
    using j r(2) by (intro mirrors_same [OF m(1)]) simp_all
  moreover have "symbols_ok (wo_tables wo4)" "dict_get (db_symbols (wo_tables wo4)) i = Some (pl_symbol p)"
    using m(2,3) j(2) r(2) by (simp_all add: symbols_ok_def)
  ultimately show ?thesis
    using settle_mirrors [OF r(4) _ _ _ r(1) kept] j(2) r(2,5) by simp
qed

lemma build_stack_book:
  assumes "build_stack ops str_id db u now b account = Inr sk" and "symbols_ok db" and "dict_get (db_symbols db) i = Some s"
    and "mirrors str_id u (execution_mode_for ops) db book"
  shows "get_position (book_of sk) (str_id u) s = map_option (reloaded (str_id u) s) (open_at book (str_id u) s)"
proof -
  have "book_of sk = restore_positions [] (load_open_positions str_id db u (execution_mode_for ops) ''manual'')"
    using assms(1) by (auto simp: build_stack_def bind_res_Inr Let_def new_stack_def)
  moreover have "map (position_of_row (str_id u) s) (rows_for db u i (execution_mode_for ops) ''manual'')
      = option_list (map_option (reloaded (str_id u) s) (open_at book (str_id u) s))"
    using assms(3,4) by (simp add: mirrors_def)
  moreover have "get_position [] (str_id u) s = None" by (simp add: get_position_def)
  ultimately show ?thesis
    by (cases "open_at book (str_id u) s")
      (simp_all add: restore_positions_get loaded_for_symbol [OF assms(2,3)] last_opt_def)
qed

subsection \<open>A concrete desk\<close>

definition desk_env :: order_env where
  "desk_env =
     \<lparr>oe_user = 1, oe_now = \<lparr>dt_day = 738000, dt_us = 36000000000, dt_offset = Some 0\<rparr>,
      oe_instrument = (\<lambda>s. if s = ''A'' then Some 5 else None), oe_price_age = None, oe_price_jump = None, oe_redis = [],
      oe_history = Inr (\<lambda>s. None), oe_symbols = [], oe_sqr = (\<lambda>v. Inr (v * v)), oe_rt = py_sqrt, oe_order_id = 7,
      oe_stop_key = ''k'', oe_row_id = 9, oe_str_id = (\<lambda>u. ''u1''), oe_repr = (\<lambda>x. ''x''), oe_num = six_decimals\<rparr>"

definition desk_stack :: "mock_session stack" where
  "desk_stack = new_stack (new_mock_broker (Fin 100000) (Fin 0) (Fin 0) (Fin 0), demo_dice) None"

definition desk_world :: world where
  "desk_world = \<lparr>wo_tables = a_journal, wo_halts = [], wo_risk_events = [], wo_notes = [], wo_audits = []\<rparr>"

definition buy :: "pyfloat \<Rightarrow> pyfloat \<Rightarrow> order_payload" where
  "buy entry stop =
     \<lparr>pl_symbol = ''A'', pl_direction = LONG, pl_order_type = MARKET, pl_entry = entry, pl_stop = stop, pl_price = None\<rparr>"

text \<open>A broker that fills every order whole at 100.\<close>

definition desk_answer :: "order_request \<Rightarrow> order_result" where
  "desk_answer rq =
     \<lparr>rs_broker_order_id = ''b'', rs_status = FILLED, rs_filled_quantity = rq_quantity rq,
      rs_average_fill_price = Some (Fin 100), rs_rejection_reason = None\<rparr>"

definition desk_ops :: "unit order_ops" where
  "desk_ops =
     \<lparr>op_place = (\<lambda>b rq. Inr (desk_answer rq, b)), op_calls = silent_broker,
      op_account = (\<lambda>b. Inr (get_account (new_mock_broker (Fin 100000) (Fin 0) (Fin 0) (Fin 0)))),
      op_quote = (\<lambda>b s. Inr \<lparr>qt_symbol = s, qt_ltp = Fin 100, qt_bid = None, qt_ask = None\<rparr>),
      op_healthy = (\<lambda>b. True), op_simulated = None\<rparr>"

definition held_stack :: "unit stack" where
  "held_stack = with_engine (new_stack () None) (\<lambda>ex. ex\<lparr>ex_positions := [((''u1'', ''A''), a_long_position (Fin 10))]\<rparr>)"

lemma desk_run:
  "case place_manual_order mock_ops desk_env (buy (Fin 100) (Fin 95)) 5 desk_stack desk_world of
     (sk', wo', Inl e) \<Rightarrow> False
   | (sk', wo', Inr a) \<Rightarrow> get_order (orders_of sk') 7 \<noteq> None
       \<and> map_option (\<lambda>x. (is_open x, p_quantity x, p_average_price x, p_unrealized_pnl x, p_realized_pnl x, p_stop x, p_target x))
            (position_at sk' desk_env (buy (Fin 100) (Fin 95)))
         = Some (True, Fin 100, Fin 100, Fin 0, Fin 0, Some (Fin 95), None)"
  by code_simp

section \<open>Properties\<close>

text \<open>C35: No order is created by hand that the gate did not approve: an order the handler adds to the book
  has the account, the side and exactly the quantity of a proposal the risk engine approved with the
  kill flags of this moment, the decision is logged with its checks, no earlier order has its key, and
  the account was not halted unless the order reduces what is held.\<close>

theorem created_order_was_approved:
  assumes "place_manual_order ops env p i sk wo = (sk', wo', r)"
    and "get_order (ex_orders (sk_exec sk)) oid = None" and "get_order (ex_orders (sk_exec sk')) oid = Some ord"
  shows "oid = oe_order_id env \<and> dict_get (om_by_key (ex_orders (sk_exec sk))) (order_key env p) = None
    \<and> (dict_get (wo_halts wo) (account_of env) = None \<or> reducing (position_at sk env p) p)
    \<and> (\<exists>t ev quantity. approved (evaluate (gate_at sk env) t)
        \<and> tp_account_id t = account_of env \<and> tp_stop t = pl_stop p \<and> tp_proposed_quantity t = Some quantity
        \<and> (if pl_order_type p = LIMIT then Some (tp_entry t) = pl_price p else tp_entry t = pl_entry p)
        \<and> tp_is_reducing t = reducing (position_at sk env p) p
        \<and> order_terms ord = (account_of env, pl_symbol p, pl_direction p, pl_order_type p, quantity, pl_price p)
        \<and> wo_risk_events wo' = wo_risk_events wo @ [ev] \<and> rv_user ev = oe_user env \<and> rv_decision ev = APPROVE
        \<and> rv_checks ev = dict_of rc_name rc_passed (rr_checks (evaluate (gate_at sk env) t)))"
proof (cases rule: place_order_cases [OF assms(1)])
  case 1
  then show ?thesis using assms(2,3) by simp
next
  case (2 sk1 t sk2 wo2 ev sk3 wo3 r3)
  have here: "position_at sk1 env p = position_at sk env p" using 2(2) by (simp add: position_at_def)
  have orders: "ex_orders (sk_exec sk2) = ex_orders (sk_exec sk)" "ex_orders (sk_exec sk') = ex_orders (sk_exec sk3)"
    "wo_risk_events wo' = wo_risk_events wo3"
    using 2(3,7,13) by (simp_all add: books_kept_def)
  from send_order_cases [OF 2(12)] assms(2,3) obtain ord0 where sent: "wo3 = wo2" "oid = oe_order_id env"
    "order_terms ord0 = (account_of env, pl_symbol p, pl_direction p, pl_order_type p, the (tp_proposed_quantity t), pl_price p)"
    "dict_get (om_by_key (ex_orders (sk_exec sk))) (order_key env p) = None" "order_terms ord = order_terms ord0"
    unfolding orders by (metis option.distinct(1))
  with order_proposal_fields [OF 2(5), unfolded here] 2 orders show ?thesis by auto
qed

lemma created_order_was_approved_witness:
  "\<exists>sk' wo' a ord t. place_manual_order mock_ops desk_env (buy (Fin 100) (Fin 95)) 5 desk_stack desk_world = (sk', wo', Inr a)
    \<and> get_order (ex_orders (sk_exec sk')) 7 = Some ord
    \<and> approved (evaluate (gate_at desk_stack desk_env) t) \<and> tp_proposed_quantity t = Some (o_quantity ord)"
proof -
  obtain sk' wo' a ord where run: "place_manual_order mock_ops desk_env (buy (Fin 100) (Fin 95)) 5 desk_stack desk_world = (sk', wo', Inr a)"
    "get_order (ex_orders (sk_exec sk')) 7 = Some ord"
    using desk_run by (auto split: prod.splits sum.splits)
  have "get_order (ex_orders (sk_exec desk_stack)) 7 = None"
    by (simp add: desk_stack_def new_stack_def get_order_def empty_manager_def)
  from created_order_was_approved [OF run(1) this run(2)] run show ?thesis by (auto simp: order_terms_def)
qed





subsection \<open>Where the handler falls short\<close>

text \<open>A long order with its stop above the entry is approved; the stop fires as soon as it is placed, and the
  program goes on believing in a position its broker no longer holds.\<close>

lemma stop_on_the_wrong_side:
  "case place_manual_order mock_ops desk_env (buy (Fin 100) (Fin 105)) 5 desk_stack desk_world of
     (sk', wo', Inl e) \<Rightarrow> False
   | (sk', wo', Inr a) \<Rightarrow> o_status (rp_order a) = MONITORING \<and> rp_unprotected_reason a = None
       \<and> map_option p_quantity (position_at sk' desk_env (buy (Fin 100) (Fin 105))) = Some (Fin 100)
       \<and> broker_qty (fst (ex_broker (sk_exec sk'))) ''A'' = Fin 0"
  by code_simp

text \<open>An order its broker refused still changes the stop recorded for the position, not the one that rests.\<close>

lemma rejected_order_moves_recorded_stop:
  assumes "position_at sk env p = Some pos" "same_side p pos" "o_status final = REJECTED"
    and "settle_position ops env p i final created before sk wo = (sk', wo', r)"
  shows "ex_broker (sk_exec sk') = ex_broker (sk_exec sk)
    \<and> (\<exists>pos'. position_at sk' env p = Some pos' \<and> p_stop pos' = Some (pl_stop p)
          \<and> p_protective_order_id pos' = p_protective_order_id pos)"
proof -
  define sk1 where "sk1 = set_stop_price env p pos sk"
  have at: "position_at sk1 env p = Some (pos\<lparr>p_stop := Some (pl_stop p)\<rparr>)" "ex_broker (sk_exec sk1) = ex_broker (sk_exec sk)"
    using assms(1,2) by (simp_all add: sk1_def set_stop_price_def position_at_def with_engine_def set_position_get)
  have "sk_exec sk' = sk_exec sk1"
    using assms(3,4) unfolding settle_position_def assms(1) option.case Let_def sk1_def [symmetric]
    by (auto simp: at then_do_def write_db_def book_result_def Let_def split: sum.splits prod.splits option.splits if_splits)
  with at show ?thesis by (simp add: position_at_def)
qed

text \<open>With a connected broker, one open position whose price is known makes every reader of the marked book
  raise, \<open>GET /positions\<close> and \<open>GET /portfolio\<close> among them.\<close>

lemma marking_a_live_position_raises:
  assumes "op_simulated ops = None" "open_positions (ex_positions (sk_exec sk)) (account_of env) = pos # ps"
    "prices (p_symbol pos) = Price x"
  shows "snd (mark_open_positions ops env prices sk) = Inl (No_attribute ''set_quote'')"
  by (simp add: mark_open_positions_def Let_def assms)

end
