(* ===== verification/CandleWorker.thy ===== *)
theory CandleWorker
  imports Market
begin

text \<open>
  The candle worker (\<open>workers/candle_worker.py\<close>), the ticks it is fed
  (\<open>market/normalization.py\<close>, \<open>market/feed.py\<close>) and the table it writes
  (\<open>market/repository.py\<close>). The database and the message bus are values of the worker's state:
  the \<open>candles\<close> table, keyed as its unique constraint is, and the messages published so far. What a
  \<open>Numeric\<close> column gives back for a price is the argument \<open>col\<close>. An operation returns the state
  it leaves behind together with its result or the exception it raises.
\<close>

subsection \<open>Ticks\<close>

record StandardTick =
  t_symbol :: string
  t_exchange :: string
  t_market :: string
  t_timestamp :: datetime
  t_ltp :: pyfloat
  t_open :: "pyfloat option"
  t_high :: "pyfloat option"
  t_low :: "pyfloat option"
  t_close :: "pyfloat option"
  t_volume :: pyfloat
  t_bid :: "pyfloat option"
  t_ask :: "pyfloat option"
  t_open_interest :: "pyfloat option"
  t_session :: "string option"

definition spread :: "StandardTick \<Rightarrow> pyfloat option" where
  "spread t =
     (case (t_bid t, t_ask t) of
        (Some bid, Some ask) \<Rightarrow> Some (ask - bid)
      | _ \<Rightarrow> None)"

text \<open>What \<open>SimulatedFeed.subscribe\<close> yields for the symbols it is asked for, no one having
  unsubscribed in between.\<close>

definition candle_tick :: "string \<Rightarrow> string \<Rightarrow> string \<Rightarrow> candle \<Rightarrow> StandardTick" where
  "candle_tick exchange market symbol c =
     \<lparr>t_symbol = symbol, t_exchange = exchange, t_market = market, t_timestamp = c_time c,
      t_ltp = c_close c, t_open = Some (c_open c), t_high = Some (c_high c), t_low = Some (c_low c),
      t_close = Some (c_close c), t_volume = c_volume c, t_bid = None, t_ask = None,
      t_open_interest = None, t_session = None\<rparr>"

definition subscribe :: "(string, candle list) dict \<Rightarrow> string \<Rightarrow> string \<Rightarrow> string list \<Rightarrow> StandardTick list" where
  "subscribe candles_by_symbol exchange market symbols =
     concat (map (\<lambda>symbol. map (candle_tick exchange market symbol)
       (case dict_get candles_by_symbol symbol of None \<Rightarrow> [] | Some cs \<Rightarrow> cs)) symbols)"

definition feed_can_emit :: "(string, candle list) dict \<Rightarrow> string list \<Rightarrow> bool" where
  "feed_can_emit candles_by_symbol symbols =
     list_ex (\<lambda>symbol. case dict_get candles_by_symbol symbol of None \<Rightarrow> False | Some cs \<Rightarrow> cs \<noteq> []) symbols"

subsection \<open>The candle table\<close>

type_synonym candle_key = "uuid \<times> string \<times> int"
type_synonym candle_table = "(candle_key, candle) dict"

definition utc_time :: "int \<Rightarrow> datetime" where
  "utc_time k = \<lparr>dt_day = k div us_per_day, dt_us = k mod us_per_day, dt_offset = Some 0\<rparr>"

text \<open>The row a candle reads back as: its instant in UTC, its numbers through their columns.\<close>

definition stored :: "(pyfloat \<Rightarrow> pyfloat) \<Rightarrow> candle \<Rightarrow> candle" where
  "stored col c =
     \<lparr>c_time = utc_time (bar_time c), c_open = col (c_open c), c_high = col (c_high c),
      c_low = col (c_low c), c_close = col (c_close c), c_volume = col (c_volume c)\<rparr>"

definition upsert_candles :: "(pyfloat \<Rightarrow> pyfloat) \<Rightarrow> uuid \<Rightarrow> string \<Rightarrow> candle list \<Rightarrow> candle_table \<Rightarrow> candle_table" where
  "upsert_candles col instrument_id timeframe candles table =
     foldl (\<lambda>d c. dict_put (instrument_id, timeframe, bar_time c) (stored col c) d) table candles"

definition get_candles :: "candle_table \<Rightarrow> uuid \<Rightarrow> string \<Rightarrow> datetime option \<Rightarrow> datetime option \<Rightarrow> candle list" where
  "get_candles table instrument_id timeframe start end =
     sort_key bar_time (map snd (filter (\<lambda>((i, f, k), c).
       i = instrument_id \<and> f = timeframe
       \<and> (case start of None \<Rightarrow> True | Some s \<Rightarrow> instant s \<le> k)
       \<and> (case end of None \<Rightarrow> True | Some e \<Rightarrow> k \<le> instant e)) table))"

subsection \<open>The worker\<close>

record FormingCandle =
  f_timestamp :: datetime
  f_open :: pyfloat
  f_high :: pyfloat
  f_low :: pyfloat
  f_close :: pyfloat
  f_volume :: pyfloat

definition to_candle :: "FormingCandle \<Rightarrow> candle" where
  "to_candle f =
     \<lparr>c_time = f_timestamp f, c_open = f_open f, c_high = f_high f, c_low = f_low f,
      c_close = f_close f, c_volume = f_volume f\<rparr>"

text \<open>The channel \<open>chart:<instrument id or symbol>:<timeframe>\<close>.\<close>

datatype chart_key = ByInstrument uuid | BySymbol string

record worker =
  cw_instrument_ids :: "(string, uuid) dict"
  cw_base_timeframe :: string
  cw_base_minutes :: int
  cw_derived_timeframes :: "string list"
  cw_forming :: "(string, FormingCandle) dict"
  cw_warned :: "string set"
  cw_dropped :: "string list"
  cw_incomplete :: "string list"
  cw_table :: candle_table
  cw_published :: "(chart_key \<times> string \<times> candle) list"

definition new_worker :: "(string, uuid) dict \<Rightarrow> string \<Rightarrow> string list option \<Rightarrow> candle_table \<Rightarrow> py_error + worker" where
  "new_worker instrument_ids base_timeframe derived_timeframes table =
     bind_res (timeframe_to_minutes base_timeframe) (\<lambda>base_minutes.
       Inr \<lparr>cw_instrument_ids = instrument_ids, cw_base_timeframe = base_timeframe,
            cw_base_minutes = base_minutes,
            cw_derived_timeframes = (case derived_timeframes of None \<Rightarrow> [] | Some tfs \<Rightarrow> tfs),
            cw_forming = [], cw_warned = {}, cw_dropped = [], cw_incomplete = [],
            cw_table = table, cw_published = []\<rparr>)"

definition completes_bucket :: "datetime \<Rightarrow> int \<Rightarrow> int \<Rightarrow> py_error + bool" where
  "completes_bucket candle_start base_minutes target_minutes =
     bind_res (dt_add candle_start (base_minutes * us_per_minute)) (\<lambda>next_start.
     bind_res (bucket_start next_start target_minutes SESSION_OPEN_MINUTES_UTC) (\<lambda>next_bucket.
     bind_res (bucket_start candle_start target_minutes SESSION_OPEN_MINUTES_UTC) (\<lambda>this_bucket.
       Inr (instant next_bucket \<noteq> instant this_bucket))))"

definition publish :: "chart_key \<Rightarrow> string \<Rightarrow> candle \<Rightarrow> worker \<Rightarrow> worker" where
  "publish key timeframe c w = w\<lparr>cw_published := cw_published w @ [(key, timeframe, c)]\<rparr>"

text \<open>\<open>[c for c in recent if bucket_start(c.timestamp, target) == target_bucket]\<close>\<close>

fun in_same_bucket :: "int \<Rightarrow> datetime \<Rightarrow> candle list \<Rightarrow> py_error + candle list" where
  "in_same_bucket m b [] = Inr []"
| "in_same_bucket m b (c # cs) =
     bind_res (bucket_start (c_time c) m SESSION_OPEN_MINUTES_UTC) (\<lambda>cb.
     bind_res (in_same_bucket m b cs) (\<lambda>rest.
       Inr (if instant cb = instant b then c # rest else rest)))"

definition derive_timeframe ::
  "(pyfloat \<Rightarrow> pyfloat) \<Rightarrow> uuid \<Rightarrow> string \<Rightarrow> int \<Rightarrow> datetime \<Rightarrow> worker \<Rightarrow> worker \<times> (py_error + unit)" where
  "derive_timeframe col instrument_id target_timeframe target_minutes as_of w =
     (let window = target_minutes div cw_base_minutes w
      in case bucket_start as_of target_minutes SESSION_OPEN_MINUTES_UTC of
        Inl e \<Rightarrow> (w, Inl e)
      | Inr target_bucket \<Rightarrow>
         (case dt_add as_of (- (target_minutes * 2 * us_per_minute)) of
            Inl e \<Rightarrow> (w, Inl e)
          | Inr lookback_start \<Rightarrow>
             (case in_same_bucket target_minutes target_bucket
                     (get_candles (cw_table w) instrument_id (cw_base_timeframe w) (Some lookback_start) (Some as_of)) of
                Inl e \<Rightarrow> (w, Inl e)
              | Inr bucket_candles \<Rightarrow>
                  if bucket_candles = []
                  then (w\<lparr>cw_incomplete := cw_incomplete w @ [target_timeframe]\<rparr>, Inr ())
                  else
                    let w = (if int (length bucket_candles) \<noteq> window
                             then w\<lparr>cw_incomplete := cw_incomplete w @ [target_timeframe]\<rparr> else w)
                    in case aggregate_candles bucket_candles of
                      Inl e \<Rightarrow> (w, Inl e)
                    | Inr aggregated \<Rightarrow>
                       let derived = aggregated\<lparr>c_time := target_bucket\<rparr>;
                           w = w\<lparr>cw_table := upsert_candles col instrument_id target_timeframe [derived] (cw_table w)\<rparr>
                       in (publish (ByInstrument instrument_id) target_timeframe derived w, Inr ()))))"

fun derive_all ::
  "(pyfloat \<Rightarrow> pyfloat) \<Rightarrow> uuid \<Rightarrow> string list \<Rightarrow> candle \<Rightarrow> worker \<Rightarrow> worker \<times> (py_error + unit)" where
  "derive_all col instrument_id [] c w = (w, Inr ())"
| "derive_all col instrument_id (tf # tfs) c w =
     (case timeframe_to_minutes tf of
        Inl e \<Rightarrow> (w, Inl e)
      | Inr target_minutes \<Rightarrow>
          if target_minutes \<le> cw_base_minutes w then derive_all col instrument_id tfs c w
          else case completes_bucket (c_time c) (cw_base_minutes w) target_minutes of
            Inl e \<Rightarrow> (w, Inl e)
          | Inr False \<Rightarrow> derive_all col instrument_id tfs c w
          | Inr True \<Rightarrow>
             (case derive_timeframe col instrument_id tf target_minutes (c_time c) w of
                (w, Inl e) \<Rightarrow> (w, Inl e)
              | (w, Inr _) \<Rightarrow> derive_all col instrument_id tfs c w))"

definition on_candle_closed ::
  "(pyfloat \<Rightarrow> pyfloat) \<Rightarrow> string \<Rightarrow> candle \<Rightarrow> worker \<Rightarrow> worker \<times> (py_error + unit)" where
  "on_candle_closed col symbol c w =
     (case dict_get (cw_instrument_ids w) symbol of
        None \<Rightarrow>
          (publish (BySymbol symbol) (cw_base_timeframe w) c
             (w\<lparr>cw_dropped := cw_dropped w @ [symbol], cw_warned := insert symbol (cw_warned w)\<rparr>), Inr ())
      | Some instrument_id \<Rightarrow>
          derive_all col instrument_id (cw_derived_timeframes w) c
            (publish (ByInstrument instrument_id) (cw_base_timeframe w) c
               (w\<lparr>cw_table := upsert_candles col instrument_id (cw_base_timeframe w) [c] (cw_table w)\<rparr>)))"

definition start_candle :: "datetime \<Rightarrow> StandardTick \<Rightarrow> FormingCandle" where
  "start_candle bucket_ts tick =
     \<lparr>f_timestamp = bucket_ts, f_open = t_ltp tick, f_high = t_ltp tick, f_low = t_ltp tick,
      f_close = t_ltp tick, f_volume = t_volume tick\<rparr>"

definition extend_candle :: "StandardTick \<Rightarrow> FormingCandle \<Rightarrow> FormingCandle" where
  "extend_candle tick f =
     f\<lparr>f_high := pymax (f_high f) (t_ltp tick), f_low := pymin (f_low f) (t_ltp tick),
       f_close := t_ltp tick, f_volume := f_volume f + t_volume tick\<rparr>"

definition set_forming :: "string \<Rightarrow> FormingCandle \<Rightarrow> worker \<Rightarrow> worker" where
  "set_forming symbol f w = w\<lparr>cw_forming := dict_put symbol f (cw_forming w)\<rparr>"

definition process_tick ::
  "(pyfloat \<Rightarrow> pyfloat) \<Rightarrow> StandardTick \<Rightarrow> worker \<Rightarrow> worker \<times> (py_error + candle option)" where
  "process_tick col tick w =
     (case bucket_start (t_timestamp tick) (cw_base_minutes w) SESSION_OPEN_MINUTES_UTC of
        Inl e \<Rightarrow> (w, Inl e)
      | Inr bucket_ts \<Rightarrow>
         (case dict_get (cw_forming w) (t_symbol tick) of
            None \<Rightarrow> (set_forming (t_symbol tick) (start_candle bucket_ts tick) w, Inr None)
          | Some forming \<Rightarrow>
              if instant bucket_ts < instant (f_timestamp forming) then (w, Inr None)
              else if instant (f_timestamp forming) \<noteq> instant bucket_ts
              then (case on_candle_closed col (t_symbol tick) (to_candle forming) w of
                      (w, Inl e) \<Rightarrow> (w, Inl e)
                    | (w, Inr _) \<Rightarrow>
                        (set_forming (t_symbol tick) (start_candle bucket_ts tick) w, Inr (Some (to_candle forming))))
              else (set_forming (t_symbol tick) (extend_candle tick forming) w, Inr None)))"

subsection \<open>The table\<close>

definition table_ok :: "candle_table \<Rightarrow> bool" where
  "table_ok table \<longleftrightarrow> dict_ok table \<and> list_all (\<lambda>((i, f, k), c). c_time c = utc_time k \<and> clock_time (utc_time k)) table"

lemma instant_utc_time [simp]: "instant (utc_time k) = k"
  by (simp add: instant_def utc_time_def us_per_day_def)

lemma bar_time_stored [simp]: "bar_time (stored col c) = bar_time c"
  by (simp add: stored_def bar_time_def)

lemma upsert_one:
  "upsert_candles col i f [c] table = dict_put (i, f, bar_time c) (stored col c) table"
  by (simp add: upsert_candles_def)

lemma table_ok_get:
  "table_ok table \<longleftrightarrow> dict_ok table \<and> (\<forall>i f k c. dict_get table (i, f, k) = Some c \<longrightarrow> c_time c = utc_time k \<and> clock_time (utc_time k))"
  using dict_items_get by (fastforce simp: table_ok_def list_all_iff)

lemma clock_time_utc: "clock_time t \<Longrightarrow> clock_time (utc_time (instant t))"
  unfolding clock_time_def instant_utc_time by (simp add: utc_time_def us_per_day_def)

lemma table_ok_upsert [simp]:
  "table_ok table \<Longrightarrow> clock_time (c_time c) \<Longrightarrow> table_ok (upsert_candles col i f [c] table)"
  by (auto simp: table_ok_get upsert_one stored_def bar_time_def clock_time_utc)

text \<open>A backfill run twice over the same bars leaves the table as the first run did.\<close>

lemma dict_put_idem: "dict_get d k = Some v \<Longrightarrow> dict_put k v d = d"
  unfolding dict_get_def dict_put_def by (induction d) auto

lemma upsert_twice:
  assumes "distinct (map bar_time cs)"
  shows "upsert_candles col i f cs (upsert_candles col i f cs table) = upsert_candles col i f cs table"
proof -
  have keep: "dict_get (upsert_candles col i f cs d) (i, f, k) = dict_get d (i, f, k)"
    if "k \<notin> bar_time ` set cs" for k cs d
    using that by (induction cs arbitrary: d) (auto simp: upsert_candles_def)
  have got: "dict_get (upsert_candles col i f cs d) (i, f, bar_time c) = Some (stored col c)"
    if "distinct (map bar_time cs)" "c \<in> set cs" for c cs d
    using that
  proof (induction cs arbitrary: d)
    case (Cons c1 cs)
    have unf: "upsert_candles col i f (c1 # cs) d
        = upsert_candles col i f cs (dict_put (i, f, bar_time c1) (stored col c1) d)"
      by (simp add: upsert_candles_def)
    show ?case
    proof (cases "c = c1")
      case True
      then show ?thesis using Cons.prems(1) by (simp add: unf keep)
    next
      case False
      then show ?thesis using Cons by (simp add: unf)
    qed
  qed simp
  have same: "upsert_candles col i f cs' d = d"
    if "\<forall>c \<in> set cs'. dict_get d (i, f, bar_time c) = Some (stored col c)" for cs' d
    using that by (induction cs') (simp_all add: upsert_candles_def dict_put_idem)
  show ?thesis by (rule same) (use got [OF assms] in blast)
qed

subsection \<open>Deriving a bar\<close>

text \<open>The base rows of a bucket up to an instant, in time order.\<close>

definition bucket_rows :: "candle_table \<Rightarrow> uuid \<Rightarrow> string \<Rightarrow> int \<Rightarrow> int \<Rightarrow> int \<Rightarrow> candle list" where
  "bucket_rows table i f m b last_us =
     filter (\<lambda>c. in_bucket m b c \<and> bar_time c \<le> last_us) (get_candles table i f None None)"

lemma get_candles_range:
  assumes "table_ok table"
  shows "get_candles table i f (Some s) (Some e)
    = filter (\<lambda>c. instant s \<le> bar_time c \<and> bar_time c \<le> instant e) (get_candles table i f None None)"
proof -
  have key: "bar_time c = k" if "((j, g, k), c) \<in> set table" for j g k c
    using assms that by (auto simp: table_ok_def list_all_iff bar_time_def)
  have "filter (\<lambda>((j, g, k), c). j = i \<and> g = f \<and> instant s \<le> k \<and> k \<le> instant e) table
      = filter (\<lambda>kc. instant s \<le> bar_time (snd kc) \<and> bar_time (snd kc) \<le> instant e)
          (filter (\<lambda>((j, g, k), c). j = i \<and> g = f) table)"
    unfolding filter_filter by (rule filter_cong [OF refl]) (auto dest: key)
  then show ?thesis
    by (simp add: get_candles_def filter_sort filter_map comp_def del: filter_filter)
qed

lemma in_same_bucket_defined:
  "(\<forall>c \<in> set cs. \<exists>b. bucket_start (c_time c) m SESSION_OPEN_MINUTES_UTC = Inr b) \<Longrightarrow>
     in_same_bucket m b cs = Inr (filter (in_bucket m (instant b)) cs)"
  by (induction cs) (auto simp: in_bucket_def)

lemma get_candles_time:
  "table_ok table \<Longrightarrow> c \<in> set (get_candles table i f s e) \<Longrightarrow> c_time c = utc_time (bar_time c) \<and> clock_time (c_time c)"
  by (fastforce simp: table_ok_def get_candles_def list_all_iff bar_time_def split: if_splits)

text \<open>A moment the worker can be at: two weeks short of the end of \<open>clock_time\<close>.\<close>

definition tick_time :: "datetime \<Rightarrow> bool" where
  "tick_time t \<longleftrightarrow> clock_time t \<and> \<bar>instant t - instant epoch\<bar> \<le> 8490000000000000"

lemma tick_time_clock [simp]: "tick_time t \<Longrightarrow> clock_time t"
  by (simp add: tick_time_def)

lemma tick_time_add:
  assumes "tick_time t" "\<bar>us\<bar> \<le> 2 * 10080 * us_per_minute"
  shows "\<exists>u. dt_add t us = Inr u \<and> clock_time u \<and> instant u = instant t + us"
proof -
  have "\<exists>u. dt_add t us = Inr u"
    by (rule dt_add_defined)
      (use assms in \<open>auto simp: tick_time_def clock_time_def instant_def epoch_def us_per_day_def us_per_minute_def
        split: option.splits\<close>)
  then obtain u where u: "dt_add t us = Inr u" by blast
  with dt_add_Inr [OF u] assms show ?thesis
    by (auto simp: tick_time_def clock_time_def us_per_day_def us_per_minute_def)
qed

lemma bucket_rows_window:
  assumes table: "table_ok table" and tf: "timeframe_to_minutes tf = Inr m"
    and t: "tick_time t" and b: "bucket_start t m SESSION_OPEN_MINUTES_UTC = Inr b"
    and s: "instant s = instant t - m * 2 * us_per_minute"
  shows "in_same_bucket m b (get_candles table i f (Some s) (Some t))
    = Inr (bucket_rows table i f m (instant b) (instant t))"
proof -
  let ?all = "get_candles table i f None None"
  have row: "c_time c = utc_time (bar_time c) \<and> clock_time (c_time c)" if "c \<in> set ?all" for c
    using get_candles_time [OF table that] .
  have low: "instant s \<le> bar_time c" if c: "c \<in> set ?all" "in_bucket m (instant b) c" for c
  proof -
    obtain b' where b': "bucket_start (c_time c) m SESSION_OPEN_MINUTES_UTC = Inr b'" "instant b' = instant b"
      using c(2) by (auto simp: in_bucket_def split: sum.splits)
    have "0 < m" using timeframe_minutes_bounds [OF timeframe_to_minutes_Inr [OF tf]] by simp
    moreover have "instant b \<le> bar_time c"
      using bucket_bounds [OF tf conjunct2 [OF row [OF c(1)]] b'(1)] b'(2) unfolding bar_time_def by simp
    moreover have "instant t < instant b + m * us_per_minute" using bucket_bounds [OF tf _ b] t by simp
    ultimately show ?thesis using s by (simp add: us_per_minute_def)
  qed
  have "in_same_bucket m b (get_candles table i f (Some s) (Some t))
      = Inr (filter (in_bucket m (instant b)) (get_candles table i f (Some s) (Some t)))"
    by (rule in_same_bucket_defined, unfold get_candles_range [OF table])
      (use bucket_start_defined [OF tf] row [THEN conjunct2] in \<open>simp\<close>)
  also have "filter (in_bucket m (instant b)) (get_candles table i f (Some s) (Some t))
      = bucket_rows table i f m (instant b) (instant t)"
    unfolding bucket_rows_def get_candles_range [OF table] filter_filter
    by (rule filter_cong [OF refl]) (use low in auto)
  finally show ?thesis .
qed

text \<open>The state a derivation leaves: the bar written and published, a short bucket counted.\<close>

definition derived_state :: "(pyfloat \<Rightarrow> pyfloat) \<Rightarrow> uuid \<Rightarrow> string \<Rightarrow> bool \<Rightarrow> candle \<Rightarrow> worker \<Rightarrow> worker" where
  "derived_state col i tf short bar w =
     publish (ByInstrument i) tf bar
       (w\<lparr>cw_incomplete := (if short then cw_incomplete w @ [tf] else cw_incomplete w),
          cw_table := upsert_candles col i tf [bar] (cw_table w)\<rparr>)"

lemma derive_timeframe_eq:
  assumes table: "table_ok (cw_table w)" and tf: "timeframe_to_minutes tf = Inr m"
    and t: "tick_time t" and b: "bucket_start t m SESSION_OPEN_MINUTES_UTC = Inr b"
    and rows: "rows = bucket_rows (cw_table w) i (cw_base_timeframe w) m (instant b) (instant t)"
  shows "derive_timeframe col i tf m t w =
    (if rows = [] then (w\<lparr>cw_incomplete := cw_incomplete w @ [tf]\<rparr>, Inr ())
     else (derived_state col i tf (int (length rows) \<noteq> m div cw_base_minutes w)
             (projr (aggregate_candles rows)\<lparr>c_time := b\<rparr>) w, Inr ()))"
proof -
  have m: "0 < m" "m \<le> 10080"
    using timeframe_minutes_bounds [OF timeframe_to_minutes_Inr [OF tf]] by (auto simp: WEEK_MINUTES_def DAY_MINUTES_def)
  obtain s where s: "dt_add t (- (m * 2 * us_per_minute)) = Inr s" "instant s = instant t - m * 2 * us_per_minute"
    using tick_time_add [OF t, of "- (m * 2 * us_per_minute)"] m by (auto simp: us_per_minute_def)
  note win = bucket_rows_window [OF table tf t b s(2), of i "cw_base_timeframe w", folded rows]
  show ?thesis
    by (simp add: derive_timeframe_def b s(1) win derived_state_def Let_def aggregate_candles_def publish_def)
qed

lemma bucket_clock:
  assumes "timeframe_to_minutes tf = Inr m" and t: "clock_time t" and b: "bucket_start t m open_utc = Inr b"
    and near: "\<bar>instant t - instant epoch\<bar> \<le> n" "n \<le> 8490000000000000"
  shows "clock_time b \<and> \<bar>instant b - instant epoch\<bar> \<le> n + 604800000000"
proof -
  have m: "m \<le> 10080" using timeframe_minutes_bounds [OF timeframe_to_minutes_Inr [OF assms(1)]]
    by (auto simp: WEEK_MINUTES_def DAY_MINUTES_def)
  note bb = bucket_bounds [OF assms(1) t b]
  have range: "\<bar>instant b - instant epoch\<bar> \<le> n + 604800000000"
    using bb near m by (simp add: us_per_minute_def) linarith
  have "0 \<le> dt_us b \<and> dt_us b < us_per_day \<and> (case dt_offset b of None \<Rightarrow> True | Some off \<Rightarrow> \<bar>off\<bar> < us_per_day)"
  proof (cases "m = WEEK_MINUTES")
    case True
    have "dt_us b = 0 \<and> dt_offset b = dt_offset (as_utc t)" using week_bucket [OF t b [unfolded True]] by blast
    then show ?thesis using t by (simp add: clock_time_def as_utc_def us_per_day_def split: option.splits)
  next
    case False
    then have "\<exists>us. dt_add epoch us = Inr b" using b by (auto simp: bucket_start_def Let_def split: if_splits)
    then show ?thesis using dt_add_Inr [of epoch _ b] by (auto simp: epoch_def us_per_day_def)
  qed
  with range near show ?thesis by (simp add: clock_time_def)
qed

subsection \<open>No step of a configured worker raises\<close>

definition worker_ok :: "worker \<Rightarrow> bool" where
  "worker_ok w \<longleftrightarrow> timeframe_to_minutes (cw_base_timeframe w) = Inr (cw_base_minutes w)
     \<and> list_all (\<lambda>tf. tf \<in> set SUPPORTED_TIMEFRAMES) (cw_derived_timeframes w)
     \<and> table_ok (cw_table w)"

text \<open>What closing a candle leaves alone.\<close>

definition same_forming :: "worker \<Rightarrow> worker \<Rightarrow> bool" where
  "same_forming w w' \<longleftrightarrow> cw_forming w' = cw_forming w \<and> cw_base_minutes w' = cw_base_minutes w
     \<and> cw_base_timeframe w' = cw_base_timeframe w \<and> cw_derived_timeframes w' = cw_derived_timeframes w"

lemma same_forming_trans: "same_forming w w' \<Longrightarrow> same_forming w' w'' \<Longrightarrow> same_forming w w''"
  by (simp add: same_forming_def)

lemma supported_defined: "tf \<in> set SUPPORTED_TIMEFRAMES \<Longrightarrow> \<exists>m. timeframe_to_minutes tf = Inr m"
  unfolding SUPPORTED_TIMEFRAMES_def
  by (auto simp: timeframe_to_minutes_def SUPPORTED_TIMEFRAMES_def UNIT_MINUTES_def dict_get_def)

lemma completes_bucket_defined:
  assumes "timeframe_to_minutes tf = Inr m" "timeframe_to_minutes btf = Inr bm" "tick_time t"
  shows "\<exists>x. completes_bucket t bm m = Inr x"
proof -
  have "\<bar>bm * us_per_minute\<bar> \<le> 2 * 10080 * us_per_minute"
    using timeframe_minutes_bounds [OF timeframe_to_minutes_Inr [OF assms(2)]]
    by (auto simp: WEEK_MINUTES_def DAY_MINUTES_def us_per_minute_def)
  then obtain u where "dt_add t (bm * us_per_minute) = Inr u" "clock_time u"
    using tick_time_add [OF assms(3)] by blast
  moreover obtain b where "bucket_start t m SESSION_OPEN_MINUTES_UTC = Inr b"
    using bucket_start_defined [OF assms(1)] assms(3) by fastforce
  moreover obtain b' where "bucket_start u m SESSION_OPEN_MINUTES_UTC = Inr b'"
    using bucket_start_defined [OF assms(1) \<open>clock_time u\<close>] by blast
  ultimately show ?thesis by (simp add: completes_bucket_def)
qed

lemma derive_timeframe_ok:
  assumes w: "worker_ok w" and tf: "timeframe_to_minutes tf = Inr m" and t: "tick_time t"
  shows "\<exists>w'. derive_timeframe col i tf m t w = (w', Inr ()) \<and> worker_ok w' \<and> same_forming w w'"
proof -
  obtain b where b: "bucket_start t m SESSION_OPEN_MINUTES_UTC = Inr b"
    using bucket_start_defined [OF tf] t by fastforce
  have "clock_time b"
    using bucket_clock [OF tf _ b, of 8490000000000000] t by (simp add: tick_time_def)
  moreover have "table_ok (cw_table w)" using w by (simp add: worker_ok_def)
  ultimately show ?thesis
    using w derive_timeframe_eq [OF _ tf t b refl, of w col i]
    by (auto simp: worker_ok_def same_forming_def derived_state_def publish_def)
qed

lemma derive_all_ok:
  "worker_ok w \<Longrightarrow> list_all (\<lambda>tf. tf \<in> set SUPPORTED_TIMEFRAMES) tfs \<Longrightarrow> tick_time (c_time c) \<Longrightarrow>
     \<exists>w'. derive_all col i tfs c w = (w', Inr ()) \<and> worker_ok w' \<and> same_forming w w'"
proof (induction tfs arbitrary: w)
  case (Cons tf tfs)
  obtain m where m: "timeframe_to_minutes tf = Inr m" using supported_defined Cons.prems(2) by auto
  obtain x where x: "completes_bucket (c_time c) (cw_base_minutes w) m = Inr x"
    using completes_bucket_defined [OF m _ Cons.prems(3)] Cons.prems(1) by (auto simp: worker_ok_def)
  obtain w1 where w1: "derive_timeframe col i tf m (c_time c) w = (w1, Inr ())" "worker_ok w1" "same_forming w w1"
    using derive_timeframe_ok [OF Cons.prems(1) m Cons.prems(3)] by blast
  show ?case
    using Cons.IH [of w] Cons.IH [of w1] Cons.prems m x w1 same_forming_trans [OF w1(3)]
    by (cases x) auto
qed (simp add: same_forming_def)

lemma on_candle_closed_ok:
  assumes w: "worker_ok w" and c: "tick_time (c_time c)"
  shows "\<exists>w'. on_candle_closed col s c w = (w', Inr ()) \<and> worker_ok w' \<and> same_forming w w'"
proof (cases "dict_get (cw_instrument_ids w) s")
  case None
  then show ?thesis using w by (simp add: on_candle_closed_def publish_def worker_ok_def same_forming_def)
next
  case (Some i)
  let ?w1 = "publish (ByInstrument i) (cw_base_timeframe w) c
    (w\<lparr>cw_table := upsert_candles col i (cw_base_timeframe w) [c] (cw_table w)\<rparr>)"
  have w1: "worker_ok ?w1" "same_forming w ?w1"
    using w c by (simp_all add: worker_ok_def publish_def same_forming_def)
  have "list_all (\<lambda>tf. tf \<in> set SUPPORTED_TIMEFRAMES) (cw_derived_timeframes w)"
    using w by (simp add: worker_ok_def)
  from derive_all_ok [OF w1(1) this c, of col i] same_forming_trans [OF w1(2)] show ?thesis
    by (auto simp: on_candle_closed_def Some)
qed

subsection \<open>The candles of a tick stream\<close>

text \<open>The bridge of \<open>workers/main.py\<close>: every tick of the feed is processed, one that raises is
  logged and left behind. The closed candles are collected with their symbol.\<close>

definition bridge_tick ::
  "(pyfloat \<Rightarrow> pyfloat) \<Rightarrow> worker \<times> (string \<times> candle) list \<Rightarrow> StandardTick \<Rightarrow> worker \<times> (string \<times> candle) list" where
  "bridge_tick col wc t =
     (case process_tick col t (fst wc) of
        (w, Inr (Some c)) \<Rightarrow> (w, snd wc @ [(t_symbol t, c)])
      | (w, _) \<Rightarrow> (w, snd wc))"

definition bridge :: "(pyfloat \<Rightarrow> pyfloat) \<Rightarrow> StandardTick list \<Rightarrow> worker \<Rightarrow> worker \<times> (string \<times> candle) list" where
  "bridge col ts w = foldl (bridge_tick col) (w, []) ts"

text \<open>The reference. A tick counts unless an earlier tick of its symbol belongs to a later bucket;
  a bar is the first, highest, lowest and last price and the volume of its ticks.\<close>

definition tick_bucket :: "int \<Rightarrow> StandardTick \<Rightarrow> int" where
  "tick_bucket m t =
     (case bucket_start (t_timestamp t) m SESSION_OPEN_MINUTES_UTC of Inl e \<Rightarrow> 0 | Inr b \<Rightarrow> instant b)"

definition in_order :: "int \<Rightarrow> StandardTick list \<Rightarrow> StandardTick list" where
  "in_order m us =
     map (nth us) (filter (\<lambda>i. list_all (\<lambda>u. tick_bucket m u \<le> tick_bucket m (us ! i)) (take i us)) [0..<length us])"

definition ticks_of :: "string \<Rightarrow> StandardTick list \<Rightarrow> StandardTick list" where
  "ticks_of s ts = filter (\<lambda>t. t_symbol t = s) ts"

definition tick_bar :: "datetime \<Rightarrow> StandardTick list \<Rightarrow> candle" where
  "tick_bar b us =
     \<lparr>c_time = b, c_open = t_ltp (hd us), c_high = pymax_list (map t_ltp us), c_low = pymin_list (map t_ltp us),
      c_close = t_ltp (last us), c_volume = foldl (+) (t_volume (hd us)) (map t_volume (tl us))\<rparr>"

definition is_tick_bar :: "int \<Rightarrow> StandardTick list \<Rightarrow> candle \<Rightarrow> bool" where
  "is_tick_bar m ks bar \<longleftrightarrow>
     (let us = filter (\<lambda>t. tick_bucket m t = bar_time bar) ks in us \<noteq> [] \<and> bar = tick_bar (c_time bar) us)"

definition bars_of :: "string \<Rightarrow> worker \<times> (string \<times> candle) list \<Rightarrow> candle list" where
  "bars_of s wc =
     map snd (filter (\<lambda>p. fst p = s) (snd wc))
     @ (case dict_get (cw_forming (fst wc)) s of None \<Rightarrow> [] | Some f \<Rightarrow> [to_candle f])"

definition bars_summarise :: "int \<Rightarrow> StandardTick list \<Rightarrow> candle list \<Rightarrow> bool" where
  "bars_summarise m ks bars \<longleftrightarrow>
     sorted_wrt (<) (map bar_time bars)
     \<and> list_all (is_tick_bar m ks) bars
     \<and> list_all (\<lambda>t. tick_bucket m t \<in> set (map bar_time bars)) ks"

lemma in_order_snoc:
  "in_order m (us @ [t]) =
     in_order m us @ (if list_all (\<lambda>u. tick_bucket m u \<le> tick_bucket m t) us then [t] else [])"
proof -
  have "map (nth (us @ [t])) (filter (\<lambda>i. list_all (\<lambda>u. tick_bucket m u \<le> tick_bucket m ((us @ [t]) ! i)) (take i (us @ [t]))) [0..<length us])
      = in_order m us"
    unfolding in_order_def by (auto intro!: map_cong filter_cong simp: nth_append)
  then show ?thesis by (simp add: in_order_def)
qed

lemma in_order_Nil [simp]: "in_order m [] = []"
  by (simp add: in_order_def)

lemma in_order_subset: "set (in_order m us) \<subseteq> set us"
  by (auto simp: in_order_def)

lemma foldl_snoc_max: "xs \<noteq> [] \<Longrightarrow> pymax_list (xs @ [x]) = pymax (pymax_list xs) x"
  and foldl_snoc_min: "xs \<noteq> [] \<Longrightarrow> pymin_list (xs @ [x]) = pymin (pymin_list xs) x"
  by (cases xs; simp)+

lemma tick_bar_time [simp]: "bar_time (tick_bar b us) = instant b" "c_time (tick_bar b us) = b"
  by (simp_all add: tick_bar_def bar_time_def)

lemma tick_bar_start: "to_candle (start_candle b t) = tick_bar b [t]"
  by (simp add: to_candle_def start_candle_def tick_bar_def)

lemma tick_bar_extend:
  "to_candle f = tick_bar b us \<Longrightarrow> us \<noteq> [] \<Longrightarrow> to_candle (extend_candle t f) = tick_bar b (us @ [t])"
  by (cases us) (auto simp: to_candle_def extend_candle_def tick_bar_def foldl_snoc_max [of "map t_ltp us"])

lemma bars_new:
  assumes bars: "bars_summarise m ks bars" and b: "tick_bucket m t = instant b"
    and later: "list_all (\<lambda>bar. bar_time bar < instant b) bars"
  shows "bars_summarise m (ks @ [t]) (bars @ [to_candle (start_candle b t)])"
proof -
  have bt: "bar_time (tick_bar b [t]) = instant b" by (simp add: bar_time_def tick_bar_def)
  have "filter (\<lambda>u. tick_bucket m u = instant b) ks = []"
    using bars later by (fastforce simp: bars_summarise_def filter_empty_conv list_all_iff)
  then have "is_tick_bar m (ks @ [t]) (tick_bar b [t])"
    by (simp add: is_tick_bar_def bt b)
  moreover have "is_tick_bar m (ks @ [t]) bar" if "bar \<in> set bars" for bar
    using bars later that b by (auto simp: bars_summarise_def is_tick_bar_def list_all_iff Let_def)
  ultimately show ?thesis
    using bars later bt b by (auto simp: bars_summarise_def tick_bar_start list_all_iff sorted_wrt_append)
qed

lemma bars_same:
  assumes bars: "bars_summarise m ks (bars @ [to_candle f])" and b: "tick_bucket m t = instant (f_timestamp f)"
  shows "bars_summarise m (ks @ [t]) (bars @ [to_candle (extend_candle t f)])"
proof -
  have bt: "bar_time (to_candle f) = instant (f_timestamp f)" "c_time (to_candle f) = f_timestamp f"
    "bar_time (to_candle (extend_candle t f)) = instant (f_timestamp f)"
    "c_time (to_candle (extend_candle t f)) = f_timestamp f"
    by (simp_all add: bar_time_def to_candle_def extend_candle_def)
  have last: "is_tick_bar m ks (to_candle f)" and early: "list_all (\<lambda>bar. bar_time bar < instant (f_timestamp f)) bars"
    using bars by (auto simp: bars_summarise_def sorted_wrt_append list_all_iff bt)
  have "is_tick_bar m (ks @ [t]) (to_candle (extend_candle t f))"
    using last tick_bar_extend [of f "f_timestamp f" _ t] by (simp add: is_tick_bar_def bt b Let_def)
  moreover have "is_tick_bar m (ks @ [t]) bar" if "bar \<in> set bars" for bar
    using bars early that b by (auto simp: bars_summarise_def is_tick_bar_def list_all_iff Let_def)
  ultimately show ?thesis
    using bars b by (auto simp: bars_summarise_def list_all_iff sorted_wrt_append bt)
qed

text \<open>A tick the feed can deliver: three weeks short of the end of \<open>clock_time\<close>.\<close>

definition feed_time :: "datetime \<Rightarrow> bool" where
  "feed_time t \<longleftrightarrow> clock_time t \<and> \<bar>instant t - instant epoch\<bar> \<le> 8480000000000000"

definition symbol_inv :: "int \<Rightarrow> StandardTick list \<Rightarrow> worker \<times> (string \<times> candle) list \<Rightarrow> string \<Rightarrow> bool" where
  "symbol_inv m ts wc s \<longleftrightarrow>
     (case dict_get (cw_forming (fst wc)) s of
        None \<Rightarrow> ticks_of s ts = [] \<and> bars_of s wc = []
      | Some f \<Rightarrow> tick_time (f_timestamp f)
          \<and> list_all (\<lambda>t. tick_bucket m t \<le> instant (f_timestamp f)) (ticks_of s ts)
          \<and> bars_summarise m (in_order m (ticks_of s ts)) (bars_of s wc))"

definition stream_inv :: "int \<Rightarrow> StandardTick list \<Rightarrow> worker \<times> (string \<times> candle) list \<Rightarrow> bool" where
  "stream_inv m ts wc \<longleftrightarrow>
     worker_ok (fst wc) \<and> cw_base_minutes (fst wc) = m \<and> (\<forall>s. symbol_inv m ts wc s)"

lemma ticks_of_snoc: "ticks_of s (ts @ [t]) = ticks_of s ts @ (if t_symbol t = s then [t] else [])"
  by (simp add: ticks_of_def)

lemma bar_time_to_candle [simp]: "bar_time (to_candle f) = instant (f_timestamp f)"
  by (simp add: bar_time_def to_candle_def)

lemma worker_ok_forming [simp]:
  "worker_ok (set_forming s f w) = worker_ok w" "cw_base_minutes (set_forming s f w) = cw_base_minutes w"
  "dict_get (cw_forming (set_forming s f w)) s' = (if s' = s then Some f else dict_get (cw_forming w) s')"
  by (simp_all add: worker_ok_def set_forming_def)

lemma bars_of_split:
  "bars_of s (w, cs) = map snd (filter (\<lambda>p. fst p = s) cs)
     @ (case dict_get (cw_forming w) s of None \<Rightarrow> [] | Some f \<Rightarrow> [to_candle f])"
  by (simp add: bars_of_def)

lemma symbol_inv_other:
  assumes "symbol_inv m ts (w, cs) s" "t_symbol t \<noteq> s" "dict_get (cw_forming w') s = dict_get (cw_forming w) s"
    and "filter (\<lambda>p. fst p = s) cs' = filter (\<lambda>p. fst p = s) cs"
  shows "symbol_inv m (ts @ [t]) (w', cs') s"
  using assms by (simp add: symbol_inv_def ticks_of_snoc bars_of_split split: option.splits)

lemma symbol_inv_first:
  assumes "symbol_inv m ts (w, cs) s" "dict_get (cw_forming w) s = None" "t_symbol t = s"
    and b: "tick_bucket m t = instant b" "tick_time b"
  shows "symbol_inv m (ts @ [t]) (set_forming s (start_candle b t) w, cs) s"
proof -
  have "bars_summarise m ([] @ [t]) ([] @ [to_candle (start_candle b t)])"
    by (rule bars_new [OF _ b(1)]) (simp_all add: bars_summarise_def)
  with assms show ?thesis
    by (simp add: symbol_inv_def ticks_of_snoc bars_of_split in_order_snoc [of m "[]", simplified] start_candle_def)
qed

lemma symbol_inv_stale:
  assumes inv: "symbol_inv m ts (w, cs) s" and f: "dict_get (cw_forming w) s = Some f" and t: "t_symbol t = s"
    and old: "tick_bucket m t < instant (f_timestamp f)"
  shows "symbol_inv m (ts @ [t]) (w, cs) s"
proof -
  have "is_tick_bar m (in_order m (ticks_of s ts)) (to_candle f)"
    using inv f by (simp add: symbol_inv_def bars_of_split bars_summarise_def)
  then obtain u where "u \<in> set (in_order m (ticks_of s ts))" "tick_bucket m u = instant (f_timestamp f)"
    by (fastforce simp: is_tick_bar_def Let_def filter_empty_conv)
  then have "\<not> list_all (\<lambda>u. tick_bucket m u \<le> tick_bucket m t) (ticks_of s ts)"
    using in_order_subset [of m "ticks_of s ts"] old by (fastforce simp: list_all_iff)
  with inv f t old show ?thesis by (simp add: symbol_inv_def ticks_of_snoc in_order_snoc)
qed

lemma symbol_inv_kept:
  assumes inv: "symbol_inv m ts (w, cs) s" and f: "dict_get (cw_forming w) s = Some f" and t: "t_symbol t = s"
    and ge: "instant (f_timestamp f) \<le> tick_bucket m t"
  shows "in_order m (ticks_of s (ts @ [t])) = in_order m (ticks_of s ts) @ [t]"
    and "list_all (\<lambda>t'. tick_bucket m t' \<le> tick_bucket m t) (ticks_of s (ts @ [t]))"
  using inv f t ge by (auto simp: symbol_inv_def ticks_of_snoc in_order_snoc list_all_iff)

lemma bars_before_last:
  "bars_summarise m ks (bars @ [to_candle f]) \<Longrightarrow> list_all (\<lambda>bar. bar_time bar < instant (f_timestamp f)) bars"
  by (auto simp: bars_summarise_def sorted_wrt_append list_all_iff)

lemma symbol_inv_close:
  assumes inv: "symbol_inv m ts (w, cs) s" and f: "dict_get (cw_forming w) s = Some f" and t: "t_symbol t = s"
    and b: "tick_bucket m t = instant b" "tick_time b" and new: "instant (f_timestamp f) < instant b"
  shows "symbol_inv m (ts @ [t]) (set_forming s (start_candle b t) w', cs @ [(s, to_candle f)]) s"
proof -
  note kept = symbol_inv_kept [OF inv f t, unfolded b(1), OF less_imp_le [OF new]]
  let ?closed = "map snd (filter (\<lambda>p. fst p = s) cs)"
  have bars: "bars_summarise m (in_order m (ticks_of s ts)) (?closed @ [to_candle f])"
    using inv f by (simp add: symbol_inv_def bars_of_split)
  have "bars_summarise m (in_order m (ticks_of s ts) @ [t]) ((?closed @ [to_candle f]) @ [to_candle (start_candle b t)])"
    by (rule bars_new [OF bars b(1)]) (use bars_before_last [OF bars] new in \<open>auto simp: list_all_iff\<close>)
  with kept b t show ?thesis
    by (simp add: symbol_inv_def bars_of_split start_candle_def)
qed

lemma symbol_inv_extend:
  assumes inv: "symbol_inv m ts (w, cs) s" and f: "dict_get (cw_forming w) s = Some f" and t: "t_symbol t = s"
    and b: "tick_bucket m t = instant (f_timestamp f)"
  shows "symbol_inv m (ts @ [t]) (set_forming s (extend_candle t f) w, cs) s"
proof -
  note kept = symbol_inv_kept [OF inv f t, unfolded b, OF order_refl]
  have "bars_summarise m (in_order m (ticks_of s ts) @ [t])
      (map snd (filter (\<lambda>p. fst p = s) cs) @ [to_candle (extend_candle t f)])"
    by (rule bars_same [OF _ b]) (use inv f in \<open>simp add: symbol_inv_def bars_of_split\<close>)
  with kept b t inv f show ?thesis
    by (simp add: symbol_inv_def bars_of_split extend_candle_def)
qed

lemma stream_invI:
  assumes "stream_inv m ts (w, cs)" "worker_ok w'" "cw_base_minutes w' = m"
    and "symbol_inv m (ts @ [t]) (w', cs') (t_symbol t)"
    and "\<And>s. s \<noteq> t_symbol t \<Longrightarrow> dict_get (cw_forming w') s = dict_get (cw_forming w) s"
    and "\<And>s. s \<noteq> t_symbol t \<Longrightarrow> filter (\<lambda>p. fst p = s) cs' = filter (\<lambda>p. fst p = s) cs"
  shows "stream_inv m (ts @ [t]) (w', cs')"
  unfolding stream_inv_def fst_conv
proof (intro conjI allI assms(2,3))
  fix s show "symbol_inv m (ts @ [t]) (w', cs') s"
  proof (cases "s = t_symbol t")
    case False
    show ?thesis
      by (rule symbol_inv_other [of m ts w cs])
        (use assms(1,5,6) False in \<open>auto simp: stream_inv_def\<close>)
  qed (simp add: assms(4))
qed

lemma bridge_tick_inv:
  assumes inv: "stream_inv m ts wc" and tf: "timeframe_to_minutes tf = Inr m" and t: "feed_time (t_timestamp t)"
  shows "stream_inv m (ts @ [t]) (bridge_tick col wc t)"
proof -
  obtain w cs where wc: "wc = (w, cs)" by force
  have w: "worker_ok w" "cw_base_minutes w = m" and si: "symbol_inv m ts (w, cs) s" for s
    using inv by (simp_all add: stream_inv_def wc)
  obtain b where b: "bucket_start (t_timestamp t) m SESSION_OPEN_MINUTES_UTC = Inr b"
    using bucket_start_defined [OF tf] t by (auto simp: feed_time_def)
  have tb: "tick_bucket m t = instant b" by (simp add: tick_bucket_def b)
  have bt: "tick_time b"
    using bucket_clock [OF tf _ b, of 8480000000000000] t by (simp add: feed_time_def tick_time_def)
  note step = stream_invI [OF inv [unfolded wc]]
  show ?thesis
  proof (cases "dict_get (cw_forming w) (t_symbol t)")
    case None
    then have eq: "bridge_tick col wc t = (set_forming (t_symbol t) (start_candle b t) w, cs)"
      by (simp add: bridge_tick_def wc process_tick_def w b)
    show ?thesis
      unfolding eq by (rule step) (use w symbol_inv_first [OF si None refl tb bt] in \<open>auto\<close>)
  next
    case (Some f)
    consider "instant b < instant (f_timestamp f)" | "instant b = instant (f_timestamp f)"
      | "instant (f_timestamp f) < instant b" by linarith
    then show ?thesis
    proof cases
      case 1
      then have eq: "bridge_tick col wc t = (w, cs)"
        by (simp add: bridge_tick_def wc process_tick_def w b Some)
      show ?thesis
      unfolding eq by (rule step) (use w symbol_inv_stale [OF si Some refl] 1 in \<open>auto simp: tb\<close>)
    next
      case 2
      then have eq: "bridge_tick col wc t = (set_forming (t_symbol t) (extend_candle t f) w, cs)"
        by (simp add: bridge_tick_def wc process_tick_def w b Some)
      show ?thesis
      unfolding eq by (rule step) (use w symbol_inv_extend [OF si Some refl] 2 in \<open>auto simp: tb\<close>)
    next
      case 3
      have "tick_time (c_time (to_candle f))"
        using si [of "t_symbol t"] Some by (simp add: symbol_inv_def to_candle_def)
      from on_candle_closed_ok [OF w(1) this, of col "t_symbol t"] obtain w'
        where w': "on_candle_closed col (t_symbol t) (to_candle f) w = (w', Inr ())" "worker_ok w'" "same_forming w w'"
        by blast
      then have eq: "bridge_tick col wc t = (set_forming (t_symbol t) (start_candle b t) w', cs @ [(t_symbol t, to_candle f)])"
        using 3 by (simp add: bridge_tick_def wc process_tick_def w b Some)
      show ?thesis
      unfolding eq by (rule step) (use w w' symbol_inv_close [OF si Some refl tb bt 3, of w'] in \<open>auto simp: same_forming_def\<close>)
    qed
  qed
qed

lemma bridge_inv:
  assumes "worker_ok w" "cw_forming w = []" "timeframe_to_minutes tf = Inr (cw_base_minutes w)"
    and "list_all (\<lambda>t. feed_time (t_timestamp t)) ts"
  shows "stream_inv (cw_base_minutes w) ts (bridge col ts w)"
  using assms(4)
proof (induction ts rule: rev_induct)
  case Nil
  then show ?case
    using assms by (simp add: bridge_def stream_inv_def symbol_inv_def ticks_of_def bars_of_split)
next
  case (snoc t ts)
  then show ?case using bridge_tick_inv [OF _ assms(3)] by (simp add: bridge_def)
qed


definition a_tick :: "string \<Rightarrow> int \<Rightarrow> rat \<Rightarrow> StandardTick" where
  "a_tick s us p =
     candle_tick ''NSE'' ''EQ'' s
       \<lparr>c_time = \<lparr>dt_day = 738521, dt_us = 13500000000 + us, dt_offset = Some 0\<rparr>, c_open = Fin p, c_high = Fin p,
        c_low = Fin p, c_close = Fin p, c_volume = Fin 5\<rparr>"

definition a_worker :: worker where
  "a_worker = projr (new_worker [(''X'', 7)] ''1m'' (Some [''5m'']) [])"

text \<open>Five minutes of two symbols, with one tick out of order.\<close>

definition some_ticks :: "StandardTick list" where
  "some_ticks =
     [a_tick ''X'' 1000000 100, a_tick ''Y'' 2000000 7, a_tick ''X'' 59000000 104, a_tick ''X'' 61000000 103,
      a_tick ''X'' 30000000 99, a_tick ''X'' 241000000 105, a_tick ''X'' 301000000 101]"


subsection \<open>The live bar is the batch bar\<close>

lemma get_candles_until:
  assumes "table_ok table"
  shows "get_candles table i f None (Some e) = filter (\<lambda>c. bar_time c \<le> instant e) (get_candles table i f None None)"
proof -
  have key: "bar_time c = k" if "((j, g, k), c) \<in> set table" for j g k c
    using assms that by (auto simp: table_ok_def list_all_iff bar_time_def)
  have "filter (\<lambda>((j, g, k), c). j = i \<and> g = f \<and> k \<le> instant e) table
      = filter (\<lambda>kc. bar_time (snd kc) \<le> instant e) (filter (\<lambda>((j, g, k), c). j = i \<and> g = f) table)"
    unfolding filter_filter by (rule filter_cong [OF refl]) (auto dest: key)
  then show ?thesis
    by (simp add: get_candles_def filter_sort filter_map comp_def del: filter_filter)
qed

lemma get_candles_sorted: "sorted (map bar_time (get_candles table i f s e))"
  by (simp add: get_candles_def)

lemma bucket_start_utc:
  assumes "timeframe_to_minutes tf = Inr m" "clock_time t" "dt_offset t = Some 0"
    and b: "bucket_start t m open_utc = Inr b"
  shows "b = utc_time (instant b)"
proof -
  have "dt_offset b = Some 0 \<and> 0 \<le> dt_us b \<and> dt_us b < us_per_day"
  proof (cases "m = WEEK_MINUTES")
    case True
    then show ?thesis using week_bucket [OF assms(2) b [unfolded True]] assms(3)
      by (simp add: as_utc_def us_per_day_def)
  next
    case False
    then have "\<exists>us. dt_add epoch us = Inr b" using b by (auto simp: bucket_start_def Let_def split: if_splits)
    then show ?thesis using dt_add_Inr [of epoch _ b] by (auto simp: epoch_def)
  qed
  then show ?thesis
    by (intro datetime.equality) (simp_all add: utc_time_def instant_def us_per_day_def)
qed

text \<open>C23: When a base candle completes a period, the higher bar the worker derives from the table,
  stores and publishes is the very bar that resampling the stored base candles up to that moment
  gives for the period: the lookback window the query uses loses no candle of it.\<close>

theorem live_bar_is_batch_bar:
  assumes w: "worker_ok w" and tf: "timeframe_to_minutes tf = Inr m"
    and t: "tick_time t" "dt_offset t = Some 0"
    and b: "bucket_start t m SESSION_OPEN_MINUTES_UTC = Inr b"
    and traded: "list_ex (in_bucket m (instant b)) (get_candles (cw_table w) i (cw_base_timeframe w) None (Some t))"
    and batch: "resample_candles (get_candles (cw_table w) i (cw_base_timeframe w) None (Some t))
      (cw_base_timeframe w) tf = Inr bars"
  shows "\<exists>w' bar. derive_timeframe col i tf m t w = (w', Inr ()) \<and> bar \<in> set bars \<and> c_time bar = b
    \<and> cw_table w' = dict_put (i, tf, instant b) (stored col bar) (cw_table w)
    \<and> last (cw_published w') = (ByInstrument i, tf, bar)"
proof -
  let ?cs = "get_candles (cw_table w) i (cw_base_timeframe w) None (Some t)"
  have table: "table_ok (cw_table w)" using w by (simp add: worker_ok_def)
  define rows where "rows = bucket_rows (cw_table w) i (cw_base_timeframe w) m (instant b) (instant t)"
  have rows: "rows = filter (in_bucket m (instant b)) ?cs"
    by (auto simp: rows_def bucket_rows_def get_candles_until [OF table] intro: filter_cong)
  have "sorted (map bar_time rows)" unfolding rows by (intro sorted_filter get_candles_sorted)
  then have sorted_rows: "sort_key bar_time rows = rows" by (rule sort_key_id_if_sorted)
  have ne: "rows \<noteq> []" using traded by (auto simp: rows list_ex_iff filter_empty_conv)
  obtain c where c: "c \<in> set ?cs" "in_bucket m (instant b) c" using traded by (auto simp: list_ex_iff)
  obtain bar where bar: "bar \<in> set bars" "in_bucket m (bar_time bar) c" "is_bar_of m ?cs bar"
    using resample_grouping [OF batch] tf c(1) by (fastforce simp: list_all_iff list_ex_iff)
  have bt: "bar_time bar = instant b" using bar(2) c(2) by (auto simp: in_bucket_def split: sum.splits)
  have agg: "aggregate_candles rows = Inr (bar\<lparr>c_time := c_time (hd rows)\<rparr>)"
    and "list_ex (starts_bucket m (c_time bar)) rows"
    using bar(3) by (simp_all add: is_bar_of_def bt Let_def sorted_rows flip: rows)
  then obtain r where r: "r \<in> set ?cs" "bucket_start (c_time r) m SESSION_OPEN_MINUTES_UTC = Inr (c_time bar)"
    by (auto simp: rows list_ex_iff starts_bucket_def)
  have "c_time r = utc_time (bar_time r)" "clock_time (c_time r)" using get_candles_time [OF table r(1)] by auto
  then have "c_time bar = utc_time (instant (c_time bar))"
    by (intro bucket_start_utc [OF tf _ _ r(2)]) (auto simp: utc_time_def)
  moreover have "b = utc_time (instant b)" using t by (intro bucket_start_utc [OF tf _ t(2) b]) simp
  ultimately have time: "c_time bar = b" using bt by (simp add: bar_time_def)
  then have "(bar\<lparr>c_time := c_time (hd rows)\<rparr>)\<lparr>c_time := b\<rparr> = bar" by (intro candle.equality) simp_all
  then have "derive_timeframe col i tf m t w
      = (derived_state col i tf (int (length rows) \<noteq> m div cw_base_minutes w) bar w, Inr ())"
    using derive_timeframe_eq [OF table tf t(1) b rows_def, of col] ne agg by simp
  then show ?thesis
    using bar(1) time bt by (auto simp: derived_state_def publish_def upsert_one)
qed

text \<open>A worker whose table holds the rows of three of the five minutes from the open.\<close>

definition a_row :: "int \<Rightarrow> rat \<Rightarrow> rat \<Rightarrow> rat \<Rightarrow> rat \<Rightarrow> rat \<Rightarrow> candle" where
  "a_row minute op hi lo cl vol =
     \<lparr>c_time = \<lparr>dt_day = 738521, dt_us = 13500000000 + minute * us_per_minute, dt_offset = Some 0\<rparr>,
      c_open = Fin op, c_high = Fin hi, c_low = Fin lo, c_close = Fin cl, c_volume = Fin vol\<rparr>"

definition fed_worker :: worker where
  "fed_worker = a_worker\<lparr>cw_table := upsert_candles (\<lambda>x. x) 7 ''1m''
     [a_row 0 100 104 100 104 10, a_row 1 103 103 103 103 5, a_row 4 105 105 105 105 5] []\<rparr>"

definition fourth_minute :: datetime where
  "fourth_minute = \<lparr>dt_day = 738521, dt_us = 13740000000, dt_offset = Some 0\<rparr>"

lemma fed_worker_rows:
  "get_candles (cw_table fed_worker) 7 (cw_base_timeframe fed_worker) None (Some fourth_minute) =
     [a_row 0 100 104 100 104 10, a_row 1 103 103 103 103 5, a_row 4 105 105 105 105 5]"
  by code_simp

lemma live_bar_is_batch_bar_witness:
  "\<exists>w' bar. derive_timeframe (\<lambda>x. x) 7 ''5m'' 5 fourth_minute fed_worker = (w', Inr ())
    \<and> bar \<in> set [a_row 0 100 105 100 105 20]
    \<and> c_time bar = c_time (a_row 0 100 105 100 105 20)
    \<and> cw_table w' = dict_put (7, ''5m'', instant (c_time (a_row 0 100 105 100 105 20)))
        (stored (\<lambda>x. x) bar) (cw_table fed_worker)
    \<and> last (cw_published w') = (ByInstrument 7, ''5m'', bar)"
proof (rule live_bar_is_batch_bar, unfold fed_worker_rows)
  have base: "cw_base_timeframe fed_worker = ''1m''" by code_simp
  show "worker_ok fed_worker" by code_simp
  show "timeframe_to_minutes ''5m'' = Inr 5" by code_simp
  show "tick_time fourth_minute" "dt_offset fourth_minute = Some 0" by code_simp+
  show "bucket_start fourth_minute 5 SESSION_OPEN_MINUTES_UTC = Inr (c_time (a_row 0 100 105 100 105 20))"
    by code_simp
  show "list_ex (in_bucket 5 (instant (c_time (a_row 0 100 105 100 105 20))))
    [a_row 0 100 104 100 104 10, a_row 1 103 103 103 103 5, a_row 4 105 105 105 105 5]" by code_simp
  show "resample_candles [a_row 0 100 104 100 104 10, a_row 1 103 103 103 103 5, a_row 4 105 105 105 105 5]
      (cw_base_timeframe fed_worker) ''5m'' = Inr [a_row 0 100 105 100 105 20]"
    unfolding base by code_simp
qed

end
