(* ===== verification/AutoTrade.thy ===== *)
theory AutoTrade
  imports ManualOrders CandleWorker
begin

text \<open>
  The unattended loop (\<open>workers/auto_trade_worker.py\<close>): one pass over every user, strategy and
  instrument, the engines it builds from the journal and keeps, and the whole of \<open>_process\<close> over the
  models of the paper engine, the journal and the trade lock. Engines of one user share a position
  book, a risk window and a broker: the pass keeps these once per user, puts them into an engine
  before it runs and takes them back afterwards. What a pass reads from outside is an argument
  (\<open>auto_env\<close>). A run is the pass it leaves and the answer or the error.
  Proved: a halt stops entries and only entries, a stale candle trades nothing, a lock that is taken
  is given back and a candle that could not be locked is kept for the next pass, a candle is never
  traded twice.
\<close>

subsection \<open>Rows\<close>

record user_row =
  us_id :: uuid
  us_auto_trading_enabled :: bool
  us_may_auto_trade :: bool
  us_risk_per_trade_pct :: numeric
  us_daily_loss_limit_pct :: numeric
  us_max_trades_per_day :: int
  us_max_positions :: int

text \<open>\<open>sr_definition\<close>: what validating the stored definition gives.\<close>

record strategy_row =
  sr_id :: uuid
  sr_user :: uuid
  sr_name :: string
  sr_version :: int
  sr_is_active :: bool
  sr_eligible :: bool
  sr_definition :: "strategy option"

record instrument_row =
  in_id :: uuid
  in_symbol :: string
  in_active :: bool

subsection \<open>The supervisor\<close>

type_synonym triple = "string \<times> string \<times> string"

record supervisor =
  sv_engines :: "(triple, paper_engine) dict"
  sv_engine_versions :: "(triple, int) dict"
  sv_opened_at :: "(triple, datetime) dict"
  sv_opened_version :: "(triple, int) dict"
  sv_last_candle_seen :: "(triple, datetime) dict"
  sv_position_managers :: "(string, position_book) dict"
  sv_risk_windows :: "(string, risk_window) dict"
  sv_brokers :: "(string, mock_session) dict"
  sv_reported_unmanaged :: "uuid list"

definition new_supervisor :: supervisor where
  "new_supervisor =
     \<lparr>sv_engines = [], sv_engine_versions = [], sv_opened_at = [], sv_opened_version = [], sv_last_candle_seen = [],
      sv_position_managers = [], sv_risk_windows = [], sv_brokers = [], sv_reported_unmanaged = []\<rparr>"

datatype auto_notice =
    Auto_executed string "string option"
  | Auto_rejected string detail
  | Auto_daily_loss_limit string detail
  | Auto_closed string pyfloat "exit_reason option"
  | Unmanaged_position uuid

datatype lock_call = Acquired string string | Released string string

text \<open>A pass: the supervisor, what it managed, the lock calls it made, and what it wrote outside.\<close>

record pass = supervisor +
  ps_managed :: "(string \<times> string) list"
  ps_locks :: "lock_call list"
  ps_tables :: tables
  ps_halts :: "(string, string) dict"
  ps_risk_events :: "risk_event list"
  ps_notes :: "(uuid \<times> auto_notice) list"

record auto_env =
  ae_now :: datetime
  ae_str_id :: "uuid \<Rightarrow> string"
  ae_candles :: "uuid \<Rightarrow> string \<Rightarrow> candle list"
  ae_redis :: redis
  ae_lock :: "triple \<Rightarrow> lock_answer"
  ae_fail_open :: bool
  ae_strategies :: "strategy_row list"
  ae_history :: "py_error + history"
  ae_symbols :: "string list"
  ae_sqr :: power_fn
  ae_rt :: power_fn
  ae_order_id :: "triple \<Rightarrow> uuid"
  ae_row_id :: "triple \<Rightarrow> uuid"
  ae_dice :: "nat \<Rightarrow> string \<times> dice"
  ae_num :: to_numeric

type_synonym 'a pass_run = "pass \<times> (fault + 'a)"

definition and_pass :: "'a pass_run \<Rightarrow> (pass \<Rightarrow> 'a \<Rightarrow> 'b pass_run) \<Rightarrow> 'b pass_run" where
  "and_pass m k = (case m of (pa, Inl e) \<Rightarrow> (pa, Inl e) | (pa, Inr a) \<Rightarrow> k pa a)"

definition AUTO_SOURCE_KEY :: string where
  "AUTO_SOURCE_KEY = ''auto''"

definition MAX_CANDLE_AGE_IN_BARS :: int where
  "MAX_CANDLE_AGE_IN_BARS = 3"

text \<open>\<open>total_seconds\<close> divides the microseconds.\<close>

definition candle_age_seconds :: "candle \<Rightarrow> string \<Rightarrow> datetime \<Rightarrow> py_error + pyfloat" where
  "candle_age_seconds candle timeframe now =
     bind_res (timeframe_to_minutes timeframe) (\<lambda>minutes.
       let elapsed = rnd64 (of_int (instant now - instant (c_time candle)) / 1000000)
       in Inr (pymax (Fin 0) (elapsed - Fin (of_int (minutes * 60)))))"

subsection \<open>The engine of a triple\<close>

definition account_key :: "auto_env \<Rightarrow> user_row \<Rightarrow> string" where
  "account_key env u = ae_str_id env (us_id u)"

definition triple_of :: "auto_env \<Rightarrow> user_row \<Rightarrow> strategy_row \<Rightarrow> instrument_row \<Rightarrow> triple" where
  "triple_of env u sr inst = (ae_str_id env (us_id u), ae_str_id env (sr_id sr), ae_str_id env (in_id inst))"

definition auto_limits :: "user_row \<Rightarrow> risk_limits" where
  "auto_limits u =
     default_limits\<lparr>rl_risk_per_trade_pct := py_float (us_risk_per_trade_pct u),
       rl_max_daily_loss_pct := py_float (us_daily_loss_limit_pct u),
       rl_max_trades_per_day := us_max_trades_per_day u, rl_max_open_positions := us_max_positions u\<rparr>"

definition shared_book :: "auto_env \<Rightarrow> user_row \<Rightarrow> pass \<Rightarrow> position_book" where
  "shared_book env u pa =
     (case dict_get (sv_position_managers pa) (account_key env u) of
        Some book \<Rightarrow> book
      | None \<Rightarrow> restore_positions []
                  (load_open_positions (ae_str_id env) (ps_tables pa) (us_id u) PAPER AUTO_SOURCE_KEY))"

definition shared_window :: "auto_env \<Rightarrow> user_row \<Rightarrow> pass \<Rightarrow> py_error + risk_window" where
  "shared_window env u pa =
     (case dict_get (sv_risk_windows pa) (account_key env u) of
        Some w \<Rightarrow> Inr w
      | None \<Rightarrow>
          bind_res (risk_window_starts (ae_now env)) (\<lambda>(day_start, week_start). Inr
            \<lparr>rw_trades_today = load_auto_trade_entries_since (ps_tables pa) (us_id u) (instant day_start) AUTO_SOURCE_KEY,
             rw_daily_pnl = load_auto_trade_realized_pnl_since (ps_tables pa) (us_id u) (instant day_start),
             rw_weekly_pnl = load_auto_trade_realized_pnl_since (ps_tables pa) (us_id u) (instant week_start),
             rw_repeated_rejections = 0, rw_risk_day = Some (dt_day (ae_now env)),
             rw_risk_week = Some (iso_year_week (dt_day (ae_now env)))\<rparr>))"

definition shared_broker :: "auto_env \<Rightarrow> user_row \<Rightarrow> pass \<Rightarrow> mock_session" where
  "shared_broker env u pa =
     (case dict_get (sv_brokers pa) (account_key env u) of
        Some b \<Rightarrow> b
      | None \<Rightarrow>
          (restore_realized_pnl (new_mock_broker (Fin 100000) (Fin 0) (Fin 0) (Fin 0))
             (load_auto_trade_realized_pnl_since (ps_tables pa) (us_id u) (instant EPOCH)), ae_dice env))"

text \<open>\<open>PaperTradingEngine.__init__\<close> with what the supervisor passes; what is shared stays with the pass.\<close>

definition new_auto_engine ::
  "auto_env \<Rightarrow> user_row \<Rightarrow> strategy_row \<Rightarrow> strategy \<Rightarrow> instrument_row \<Rightarrow> mock_session \<Rightarrow> position_book \<Rightarrow> risk_window
     \<Rightarrow> paper_engine" where
  "new_auto_engine env u sr strategy inst broker book rwin =
     \<lparr>pe_source_key = Some AUTO_SOURCE_KEY, pe_strategy = strategy, pe_strategy_id = Some (ae_str_id env (sr_id sr)),
      pe_symbol = in_symbol inst, pe_account_id = account_key env u, pe_candles = [], pe_smc_config = default_smc_config,
      pe_ict_config = default_ict_config, pe_risk = new_risk_engine (Some (auto_limits u)) None,
      pe_exec = \<lparr>ex_broker = broker, ex_orders = empty_manager, ex_positions = book\<rparr>, pe_window = rwin\<rparr>"

text \<open>The engine, built or with an edited strategy swapped in, and the limits of this pass.\<close>

definition engine_for ::
  "auto_env \<Rightarrow> user_row \<Rightarrow> strategy_row \<Rightarrow> strategy \<Rightarrow> instrument_row \<Rightarrow> pass \<Rightarrow> paper_engine pass_run" where
  "engine_for env u sr strategy inst pa =
     (let key = triple_of env u sr inst; account = account_key env u;
          limited = (\<lambda>pe. pe\<lparr>pe_risk := (pe_risk pe)\<lparr>re_limits := auto_limits u\<rparr>\<rparr>)
      in case dict_get (sv_engines pa) key of
           None \<Rightarrow>
             let book = shared_book env u pa;
                 pa = pa\<lparr>sv_position_managers := dict_put account book (sv_position_managers pa)\<rparr>
             in (case shared_window env u pa of
                   Inl e \<Rightarrow> (pa, Inl (Raised e))
                 | Inr rwin \<Rightarrow>
                     let pa = pa\<lparr>sv_risk_windows := dict_put account rwin (sv_risk_windows pa)\<rparr>;
                         broker = shared_broker env u pa;
                         pe = limited (new_auto_engine env u sr strategy inst broker book rwin)
                     in (pa\<lparr>sv_brokers := dict_put account broker (sv_brokers pa),
                            sv_engines := dict_put key pe (sv_engines pa),
                            sv_engine_versions := dict_put key (sr_version sr) (sv_engine_versions pa)\<rparr>, Inr pe))
         | Some pe \<Rightarrow>
             let pe = (if dict_get (sv_engine_versions pa) key \<noteq> Some (sr_version sr) then pe\<lparr>pe_strategy := strategy\<rparr> else pe);
                 pe = limited pe
             in (pa\<lparr>sv_engines := dict_put key pe (sv_engines pa),
                    sv_engine_versions := dict_put key (sr_version sr) (sv_engine_versions pa)\<rparr>, Inr pe))"

text \<open>The same objects under several engines: put in before a run, taken back after it.\<close>

definition with_shared :: "auto_env \<Rightarrow> user_row \<Rightarrow> pass \<Rightarrow> paper_engine \<Rightarrow> paper_engine" where
  "with_shared env u pa pe =
     (let account = account_key env u
      in case (dict_get (sv_brokers pa) account, dict_get (sv_position_managers pa) account, dict_get (sv_risk_windows pa) account) of
           (Some broker, Some book, Some rwin) \<Rightarrow>
             pe\<lparr>pe_exec := (pe_exec pe)\<lparr>ex_broker := broker, ex_positions := book\<rparr>, pe_window := rwin\<rparr>
         | _ \<Rightarrow> pe)"

definition keep_engine :: "auto_env \<Rightarrow> user_row \<Rightarrow> triple \<Rightarrow> paper_engine \<Rightarrow> pass \<Rightarrow> pass" where
  "keep_engine env u key pe pa =
     (let account = account_key env u
      in pa\<lparr>sv_engines := dict_put key pe (sv_engines pa),
            sv_brokers := dict_put account (ex_broker (pe_exec pe)) (sv_brokers pa),
            sv_position_managers := dict_put account (ex_positions (pe_exec pe)) (sv_position_managers pa),
            sv_risk_windows := dict_put account (pe_window pe) (sv_risk_windows pa)\<rparr>)"

subsection \<open>After a candle\<close>

definition note_to :: "user_row \<Rightarrow> auto_notice \<Rightarrow> pass \<Rightarrow> pass" where
  "note_to u n pa = pa\<lparr>ps_notes := ps_notes pa @ [(us_id u, n)]\<rparr>"

definition mirror_book ::
  "auto_env \<Rightarrow> user_row \<Rightarrow> instrument_row \<Rightarrow> triple \<Rightarrow> position option \<Rightarrow> pass \<Rightarrow> unit pass_run" where
  "mirror_book env u inst key after pa =
     (case after of
        None \<Rightarrow> (pa, Inr ())
      | Some pos \<Rightarrow>
          (case persist_position (ae_num env) (ae_row_id env key) (instant (ae_now env)) (ps_tables pa) (us_id u) (in_id inst)
                  pos PAPER AUTO_SOURCE_KEY of
             Inl e \<Rightarrow> (pa, Inl (Database e))
           | Inr (db, row) \<Rightarrow> (pa\<lparr>ps_tables := db\<rparr>, Inr ())))"

definition log_decision :: "user_row \<Rightarrow> paper_outcome \<Rightarrow> pass \<Rightarrow> pass" where
  "log_decision u out pa =
     (case po_risk_checks out of
        None \<Rightarrow> pa
      | Some checks \<Rightarrow>
          pa\<lparr>ps_risk_events := ps_risk_events pa @
               [\<lparr>rv_user = us_id u, rv_decision = (if po_risk_rejected_reason out \<noteq> None then REJECT else APPROVE),
                 rv_reason = po_risk_rejected_reason out, rv_checks = checks\<rparr>]\<rparr>)"

definition note_opened :: "user_row \<Rightarrow> strategy_row \<Rightarrow> instrument_row \<Rightarrow> triple \<Rightarrow> candle \<Rightarrow> paper_outcome \<Rightarrow> pass \<Rightarrow> pass" where
  "note_opened u sr inst key latest out pa =
     (if \<not> po_order_created out then pa
      else note_to u (Auto_executed (in_symbol inst) (case po_signal out of None \<Rightarrow> None | Some s \<Rightarrow> er_direction s))
             (pa\<lparr>sv_opened_at := dict_put key (c_time latest) (sv_opened_at pa),
                 sv_opened_version := dict_put key (sr_version sr) (sv_opened_version pa)\<rparr>))"

definition note_refused :: "user_row \<Rightarrow> instrument_row \<Rightarrow> paper_outcome \<Rightarrow> pass \<Rightarrow> pass" where
  "note_refused u inst out pa =
     (case po_risk_rejected_reason out of
        None \<Rightarrow> pa
      | Some reason \<Rightarrow>
          note_to u ((if po_risk_failed_check out = Some ''daily_loss_limit'' then Auto_daily_loss_limit else Auto_rejected)
                       (in_symbol inst) reason) pa)"

text \<open>The trade belongs to the strategy that opened the position, with its version and time at the entry.\<close>

definition owner_of :: "auto_env \<Rightarrow> strategy_row \<Rightarrow> position \<Rightarrow> strategy_row" where
  "owner_of env sr before =
     (case p_strategy_id before of
        None \<Rightarrow> sr
      | Some owner \<Rightarrow>
          if owner = ae_str_id env (sr_id sr) then sr
          else (case find (\<lambda>r. ae_str_id env (sr_id r) = owner) (ae_strategies env) of None \<Rightarrow> sr | Some r \<Rightarrow> r))"

definition owner_key :: "auto_env \<Rightarrow> triple \<Rightarrow> strategy_row \<Rightarrow> position \<Rightarrow> triple" where
  "owner_key env key sr before =
     (case p_strategy_id before of
        None \<Rightarrow> key
      | Some owner \<Rightarrow> if owner = ae_str_id env (sr_id sr) then key else (fst key, owner, snd (snd key)))"

definition r_multiple_of :: "position \<Rightarrow> pyfloat \<Rightarrow> pyfloat option" where
  "r_multiple_of before pnl =
     (case p_stop before of
        None \<Rightarrow> None
      | Some stop \<Rightarrow>
          if \<not> truthy stop then None
          else let risk_per_unit = \<bar>p_average_price before - stop\<bar>
               in if truthy risk_per_unit then Some (pnl / \<bar>p_quantity before\<bar> / risk_per_unit) else None)"

definition auto_trade_note ::
  "strategy_row \<Rightarrow> int \<Rightarrow> position \<Rightarrow> pyfloat option \<Rightarrow> pyfloat \<Rightarrow> trade_note" where
  "auto_trade_note owner version before exit_price pnl =
     \<lparr>tn_direction = (if is_long before then LONG else SHORT), tn_entry_price = p_average_price before,
      tn_exit_price = exit_price, tn_quantity = \<bar>p_quantity before\<bar>, tn_pnl = pnl, tn_stop = p_stop before,
      tn_target = p_target before, tn_position = None, tn_strategy = Some (sr_id owner), tn_strategy_version = Some version\<rparr>"

definition journal_close ::
  "auto_env \<Rightarrow> user_row \<Rightarrow> strategy_row \<Rightarrow> instrument_row \<Rightarrow> triple \<Rightarrow> candle \<Rightarrow> position option \<Rightarrow> paper_outcome \<Rightarrow> pass
     \<Rightarrow> unit pass_run" where
  "journal_close env u sr inst key latest snapshot out pa =
     (case (po_closed_position_pnl out, snapshot) of
        (Some pnl, Some before) \<Rightarrow>
          let owner = owner_of env sr before;
              okey = owner_key env key sr before;
              opened_at = (case dict_get (sv_opened_at pa) okey of None \<Rightarrow> c_time latest | Some t \<Rightarrow> t);
              version = (case dict_get (sv_opened_version pa) okey of None \<Rightarrow> sr_version owner | Some v \<Rightarrow> v);
              pa = pa\<lparr>sv_opened_at := dict_pop okey (sv_opened_at pa), sv_opened_version := dict_pop okey (sv_opened_version pa)\<rparr>
          in (case bind_res (nullable (ae_num env) (r_multiple_of before pnl)) (\<lambda>r_multiple.
                     trade_row_of (ae_num env) (instant opened_at) (instant (c_time latest)) AUTO_TRADE_SOURCE (us_id u) (in_id inst)
                       PAPER r_multiple (auto_trade_note owner version before (po_exit_price out) pnl)) of
                Inl e \<Rightarrow> (pa, Inl (Database e))
              | Inr row \<Rightarrow>
                  (note_to u (Auto_closed (in_symbol inst) pnl (po_exit_reason out))
                     (pa\<lparr>ps_tables := (ps_tables pa)\<lparr>db_trades := db_trades (ps_tables pa) @ [row]\<rparr>\<rparr>), Inr ()))
      | _ \<Rightarrow> (pa, Inr ()))"


record auto_result =
  ar_user :: string
  ar_strategy :: string
  ar_instrument :: string
  ar_order_created :: bool
  ar_closed_pnl :: "pyfloat option"

definition paper_env_of :: "auto_env \<Rightarrow> user_row \<Rightarrow> triple \<Rightarrow> pass \<Rightarrow> paper_env" where
  "paper_env_of env u key pa =
     \<lparr>en_redis = ae_redis env,
      en_db = Some \<lparr>pd_elsewhere = Inr (load_open_position_notionals_elsewhere (ps_tables pa) (us_id u) AUTO_SOURCE_KEY),
                    pd_history = ae_history env, pd_symbols = ae_symbols env\<rparr>,
      en_order_id = ae_order_id env key, en_sqr = ae_sqr env, en_rt = ae_rt env\<rparr>"

text \<open>The candle through its engine and everything the pass writes about it, under the lock.\<close>

definition feed_candle ::
  "auto_env \<Rightarrow> user_row \<Rightarrow> strategy_row \<Rightarrow> instrument_row \<Rightarrow> triple \<Rightarrow> paper_engine \<Rightarrow> position option \<Rightarrow> candle \<Rightarrow> pass
     \<Rightarrow> auto_result option pass_run" where
  "feed_candle env u sr inst key pe snapshot latest pa =
     (case on_candle pe (paper_env_of env u key pa) latest of
        (pe, Inl e) \<Rightarrow> (keep_engine env u key pe pa, Inl (Raised e))
      | (pe, Inr out) \<Rightarrow>
          let pa = keep_engine env u key pe pa
          in and_pass (mirror_book env u inst key
                         (get_position (ex_positions (pe_exec pe)) (pe_account_id pe) (pe_symbol pe)) pa) (\<lambda>pa _.
               let pa = note_refused u inst out (note_opened u sr inst key latest out (log_decision u out pa))
               in and_pass (journal_close env u sr inst key latest snapshot out pa) (\<lambda>pa _.
                    (pa, Inr (Some
                      \<lparr>ar_user = fst key, ar_strategy = fst (snd key), ar_instrument = snd (snd key),
                       ar_order_created = po_order_created out, ar_closed_pnl = po_closed_position_pnl out\<rparr>)))))"

definition locked :: "string \<Rightarrow> string \<Rightarrow> (pass \<Rightarrow> 'a pass_run) \<Rightarrow> pass \<Rightarrow> 'a pass_run" where
  "locked account token body pa =
     (case body (pa\<lparr>ps_locks := ps_locks pa @ [Acquired account token]\<rparr>) of
        (pa, r) \<Rightarrow> (pa\<lparr>ps_locks := ps_locks pa @ [Released account token]\<rparr>, r))"

text \<open>Undo the mark of this candle, so that the next pass tries it again.\<close>

definition defer_candle :: "triple \<Rightarrow> datetime option \<Rightarrow> pass \<Rightarrow> pass" where
  "defer_candle key previously_seen pa =
     pa\<lparr>sv_last_candle_seen := (case previously_seen of
          None \<Rightarrow> dict_pop key (sv_last_candle_seen pa)
        | Some t \<Rightarrow> dict_put key t (sv_last_candle_seen pa))\<rparr>"

definition open_before :: "paper_engine \<Rightarrow> position option" where
  "open_before pe =
     (case get_position (ex_positions (pe_exec pe)) (pe_account_id pe) (pe_symbol pe) of
        None \<Rightarrow> None | Some pos \<Rightarrow> if is_open pos then Some pos else None)"

text \<open>A fresh engine gets the stored history behind the latest candle.\<close>

definition seeded :: "candle list \<Rightarrow> paper_engine \<Rightarrow> paper_engine" where
  "seeded candles pe = (if pe_candles pe = [] then pe\<lparr>pe_candles := butlast candles\<rparr> else pe)"

text \<open>From a fresh candle on: age, history, halt, lock, trade.\<close>

definition trade_candle ::
  "auto_env \<Rightarrow> user_row \<Rightarrow> strategy_row \<Rightarrow> strategy \<Rightarrow> instrument_row \<Rightarrow> bool \<Rightarrow> datetime option \<Rightarrow> candle list \<Rightarrow> paper_engine
     \<Rightarrow> pass \<Rightarrow> auto_result option pass_run" where
  "trade_candle env u sr strategy inst entries_allowed previously_seen candles pe pa =
     (let key = triple_of env u sr inst; account = account_key env u; latest = last candles
      in case (candle_age_seconds latest (sd_timeframe strategy) (ae_now env), timeframe_to_minutes (sd_timeframe strategy)) of
           (Inr age, Inr minutes) \<Rightarrow>
             if Fin (of_int (minutes * 60 * MAX_CANDLE_AGE_IN_BARS)) < age then (pa, Inr None)
             else
               let pe = seeded candles pe;
                   pa = pa\<lparr>sv_engines := dict_put key pe (sv_engines pa)\<rparr>;
                   pe = with_shared env u pa pe;
                   snapshot = open_before pe
               in if \<not> entries_allowed \<and> snapshot = None then (pa, Inr None)
                  else
                    let pa = pa\<lparr>ps_managed := ps_managed pa @ [(account, ae_str_id env (in_id inst))]\<rparr>;
                        feed = feed_candle env u sr inst key pe snapshot latest
                    in (case ae_lock env key of
                          Lock_failed \<Rightarrow> if ae_fail_open env then feed pa else (defer_candle key previously_seen pa, Inr None)
                        | Lock_busy \<Rightarrow> (defer_candle key previously_seen pa, Inr None)
                        | Lock_token token \<Rightarrow> locked account token feed pa)
         | (Inl e, _) \<Rightarrow> (pa, Inl (Raised e))
         | (_, Inl e) \<Rightarrow> (pa, Inl (Raised e)))"

definition process_triple ::
  "auto_env \<Rightarrow> user_row \<Rightarrow> strategy_row \<Rightarrow> strategy \<Rightarrow> bool \<Rightarrow> instrument_row \<Rightarrow> pass \<Rightarrow> auto_result option pass_run" where
  "process_triple env u sr strategy entries_allowed inst pa =
     and_pass (engine_for env u sr strategy inst pa) (\<lambda>pa pe.
       let key = triple_of env u sr inst;
           candles = ae_candles env (in_id inst) (sd_timeframe strategy);
           previously_seen = dict_get (sv_last_candle_seen pa) key;
           latest = last candles
       in if candles = [] then (pa, Inr None)
          else if map_option instant previously_seen = Some (instant (c_time latest)) then (pa, Inr None)
          else trade_candle env u sr strategy inst entries_allowed previously_seen candles pe
                 (pa\<lparr>sv_last_candle_seen := dict_put key (c_time latest) (sv_last_candle_seen pa)\<rparr>))"

subsection \<open>A pass\<close>

fun each :: "('x \<Rightarrow> pass \<Rightarrow> auto_result list pass_run) \<Rightarrow> 'x list \<Rightarrow> pass \<Rightarrow> auto_result list pass_run" where
  "each f [] pa = (pa, Inr [])"
| "each f (x # xs) pa = and_pass (f x pa) (\<lambda>pa rs. and_pass (each f xs pa) (\<lambda>pa rs'. (pa, Inr (rs @ rs'))))"

definition process_user :: "auto_env \<Rightarrow> instrument_row list \<Rightarrow> user_row \<Rightarrow> pass \<Rightarrow> auto_result list pass_run" where
  "process_user env instruments u pa =
     (if \<not> us_may_auto_trade u then (pa, Inr [])
      else
        let entries_allowed = (dict_get (ps_halts pa) (account_key env u) = None);
            rows = filter (\<lambda>r. sr_user r = us_id u \<and> sr_is_active r \<and> sr_eligible r) (ae_strategies env)
        in each (\<lambda>sr pa. case sr_definition sr of
                    None \<Rightarrow> (pa, Inr [])
                  | Some strategy \<Rightarrow>
                      each (\<lambda>inst pa. and_pass (process_triple env u sr strategy entries_allowed inst pa) (\<lambda>pa r.
                              (pa, Inr (case r of None \<Rightarrow> [] | Some x \<Rightarrow> [x]))))
                        (filter in_active instruments) pa) rows pa)"

definition report_unmanaged :: "auto_env \<Rightarrow> pass \<Rightarrow> pass" where
  "report_unmanaged env pa =
     foldl (\<lambda>pa row.
         if (ae_str_id env (pr_user row), ae_str_id env (pr_instrument row)) \<in> set (ps_managed pa)
            \<or> pr_id row \<in> set (sv_reported_unmanaged pa) then pa
         else pa\<lparr>sv_reported_unmanaged := sv_reported_unmanaged pa @ [pr_id row],
                 ps_notes := ps_notes pa @ [(pr_user row, Unmanaged_position (pr_id row))]\<rparr>)
       pa (filter (\<lambda>r. pr_is_open r \<and> pr_source r = AUTO_SOURCE_KEY) (db_positions (ps_tables pa)))"

definition auto_run_once ::
  "auto_env \<Rightarrow> user_row list \<Rightarrow> instrument_row list \<Rightarrow> pass \<Rightarrow> auto_result list pass_run" where
  "auto_run_once env users instruments pa =
     and_pass (each (process_user env instruments) (filter us_auto_trading_enabled users) (pa\<lparr>ps_managed := []\<rparr>)) (\<lambda>pa rs.
       (report_unmanaged env pa, Inr rs))"


subsection \<open>What a pass that does not trade leaves alone\<close>

definition untraded :: "pass \<Rightarrow> pass \<Rightarrow> bool" where
  "untraded x y \<longleftrightarrow>
     ps_tables y = ps_tables x \<and> ps_locks y = ps_locks x \<and> ps_risk_events y = ps_risk_events x \<and> ps_notes y = ps_notes x
     \<and> sv_position_managers y = sv_position_managers x \<and> sv_brokers y = sv_brokers x \<and> sv_risk_windows y = sv_risk_windows x"

lemma untraded_refl [simp]: "untraded x x"
  by (simp add: untraded_def)

lemma untraded_marks [simp]:
  "untraded x (y\<lparr>sv_engines := e\<rparr>) = untraded x y" "untraded x (y\<lparr>sv_last_candle_seen := l\<rparr>) = untraded x y"
  "untraded x (y\<lparr>ps_managed := m\<rparr>) = untraded x y" "untraded x (defer_candle key t y) = untraded x y"
  by (simp_all add: untraded_def defer_candle_def)

lemma untraded_kept: "untraded x y \<Longrightarrow> untraded y z \<Longrightarrow> untraded x z"
  by (simp add: untraded_def)

lemma and_pass_simps [simp]:
  "and_pass (pa, Inl e) k = (pa, Inl e)" "and_pass (pa, Inr a) k = k pa a"
  by (simp_all add: and_pass_def)

lemma engine_for_writes:
  assumes "engine_for env u sr strategy inst pa = (pa', r)"
  shows "ps_tables pa' = ps_tables pa" "ps_locks pa' = ps_locks pa" "ps_managed pa' = ps_managed pa"
    "ps_risk_events pa' = ps_risk_events pa" "ps_notes pa' = ps_notes pa" "sv_last_candle_seen pa' = sv_last_candle_seen pa"
    "sv_reported_unmanaged pa' = sv_reported_unmanaged pa"
  using assms by (auto simp: engine_for_def Let_def split: option.splits sum.splits)

lemma engine_for_again:
  assumes "dict_get (sv_engines pa) (triple_of env u sr inst) = Some pe0"
  obtains pa1 pe1 where "engine_for env u sr strategy inst pa = (pa1, Inr pe1)" "untraded pa pa1" "pe_candles pe1 = pe_candles pe0"
  using assms that by (auto simp: engine_for_def Let_def untraded_def)

lemma trade_candle_cases:
  assumes "trade_candle env u sr strategy inst entries_allowed t candles pe pa = (pa', r)"
  obtains (untraded) "untraded pa pa'" "\<And>x. r \<noteq> Inr (Some x)"
  | (fed) pa1 pe1 where "entries_allowed \<or> open_before (with_shared env u pa pe) \<noteq> None"
      "untraded pa pa1" "open_before pe1 = open_before (with_shared env u pa pe)"
      "feed_candle env u sr inst (triple_of env u sr inst) pe1 (open_before pe1) (last candles) pa1 = (pa', r)"
      "ae_lock env (triple_of env u sr inst) = Lock_failed" "ae_fail_open env" "sv_last_candle_seen pa1 = sv_last_candle_seen pa"
  | (locked) pa1 pe1 token where "entries_allowed \<or> open_before (with_shared env u pa pe) \<noteq> None"
      "untraded pa pa1" "open_before pe1 = open_before (with_shared env u pa pe)"
      "locked (account_key env u) token (feed_candle env u sr inst (triple_of env u sr inst) pe1 (open_before pe1) (last candles)) pa1
         = (pa', r)"
      "ae_lock env (triple_of env u sr inst) = Lock_token token" "sv_last_candle_seen pa1 = sv_last_candle_seen pa"
proof -
  let ?key = "triple_of env u sr inst"
  define pa0 where "pa0 = pa\<lparr>sv_engines := dict_put ?key (seeded candles pe) (sv_engines pa)\<rparr>"
  define pe0 where "pe0 = with_shared env u pa0 (seeded candles pe)"
  define pa1 where "pa1 = pa0\<lparr>ps_managed := ps_managed pa0 @ [(account_key env u, ae_str_id env (in_id inst))]\<rparr>"
  have u: "untraded pa pa0" "untraded pa pa1" by (simp_all add: pa0_def pa1_def)
  have seen: "sv_last_candle_seen pa1 = sv_last_candle_seen pa" by (simp add: pa0_def pa1_def)
  have held: "open_before pe0 = open_before (with_shared env u pa pe)"
    by (auto simp: pe0_def pa0_def seeded_def with_shared_def Let_def open_before_def split: option.split)
  show thesis
  proof (cases "candle_age_seconds (last candles) (sd_timeframe strategy) (ae_now env)")
    case (Inl e)
    then show thesis using assms by (intro untraded) (auto simp: trade_candle_def Let_def)
  next
    case age: (Inr age)
    show thesis
    proof (cases "timeframe_to_minutes (sd_timeframe strategy)")
      case (Inl e)
      then show thesis using assms age by (intro untraded) (auto simp: trade_candle_def Let_def)
    next
      case minutes: (Inr minutes)
      note eq = trade_candle_def [of env u sr strategy inst entries_allowed t candles pe pa, unfolded Let_def age minutes sum.case prod.case,
          folded pa0_def, folded pe0_def, folded pa1_def]
      show thesis
      proof (cases "Fin (of_int (minutes * 60 * MAX_CANDLE_AGE_IN_BARS)) < age \<or> \<not> entries_allowed \<and> open_before pe0 = None")
        case True
        have "pa' = pa \<or> pa' = pa0" "r = Inr None" using assms True unfolding eq by (auto split: if_splits)
        then show thesis using u by (intro untraded) auto
      next
        case go: False
        then have allowed: "entries_allowed \<or> open_before (with_shared env u pa pe) \<noteq> None" by (simp add: held)
        note run = assms [unfolded eq]
        show thesis
        proof (cases "ae_lock env ?key")
          case (Lock_token token)
          then show thesis using run go by (intro locked [OF allowed u(2) held _ _ seen]) auto
        next
          case Lock_busy
          then show thesis using run go u by (intro untraded) auto
        next
          case Lock_failed
          show thesis
          proof (cases "ae_fail_open env")
            case True
            then show thesis using run go Lock_failed by (intro fed [OF allowed u(2) held _ _ _ seen]) auto
          next
            case False
            then show thesis using run go Lock_failed u by (intro untraded) auto
          qed
        qed
      qed
    qed
  qed
qed


subsection \<open>Feeding a candle\<close>

lemma on_candle_held:
  assumes "open_before pe = Some pos" and "on_candle pe penv c = (pe', Inr out)"
  shows "\<not> po_order_created out"
proof -
  have "get_position (ex_positions (pe_exec pe)) (pe_account_id pe) (pe_symbol pe) = Some pos" "is_open pos"
    using assms(1) by (auto simp: open_before_def split: option.splits if_splits)
  then show ?thesis
    using assms(2)
    by (auto simp: on_candle_def and_then_def quote_symbol_def with_positions_def mark_to_market_get is_open_def
        exit_outcome_def only_signal_def Let_def split: sum.splits prod.splits option.splits)
qed

lemma mirror_book_locks:
  "ps_locks (fst (mirror_book env u inst key after pa)) = ps_locks pa"
  by (simp add: mirror_book_def split: option.split sum.split prod.split)

lemma journal_close_locks:
  "ps_locks (fst (journal_close env u sr inst key latest snapshot out pa)) = ps_locks pa"
  by (simp add: journal_close_def note_to_def Let_def split: option.split sum.split)

lemma note_locks:
  "ps_locks (note_refused u inst out (note_opened u sr inst key latest out (log_decision u out pa))) = ps_locks pa"
  by (simp add: note_refused_def note_opened_def log_decision_def note_to_def split: option.split)

lemma feed_locks: "ps_locks (fst (feed_candle env u sr inst key pe snapshot latest pa)) = ps_locks pa"
proof (cases "on_candle pe (paper_env_of env u key pa) latest")
  case (Pair pe' r)
  show ?thesis
  proof (cases r)
    case (Inl e)
    with Pair show ?thesis by (simp add: feed_candle_def keep_engine_def Let_def)
  next
    case (Inr out)
    define pa1 where "pa1 = keep_engine env u key pe' pa"
    have pa1: "ps_locks pa1 = ps_locks pa" by (simp add: pa1_def keep_engine_def Let_def)
    obtain pa2 r2 where m: "mirror_book env u inst key
        (get_position (ex_positions (pe_exec pe')) (pe_account_id pe') (pe_symbol pe')) pa1 = (pa2, r2)" by fastforce
    have pa2: "ps_locks pa2 = ps_locks pa" using mirror_book_locks [of env u inst key _ pa1] m pa1 by (metis fst_conv)
    define pa3 where "pa3 = note_refused u inst out (note_opened u sr inst key latest out (log_decision u out pa2))"
    have pa3: "ps_locks pa3 = ps_locks pa" by (simp add: pa3_def note_locks pa2)
    obtain pa4 r4 where j: "journal_close env u sr inst key latest snapshot out pa3 = (pa4, r4)" by fastforce
    have pa4: "ps_locks pa4 = ps_locks pa" using journal_close_locks [of env u sr inst key latest snapshot out pa3] j pa3 by simp
    show ?thesis
      using Pair Inr m j pa2 pa4
      by (cases r2; cases r4) (simp_all add: feed_candle_def Let_def pa1_def [symmetric] pa3_def [symmetric])
  qed
qed

lemma feed_result:
  assumes "feed_candle env u sr inst key pe snapshot latest pa = (pa', Inr (Some res))" "open_before pe \<noteq> None"
  shows "\<not> ar_order_created res"
proof -
  obtain pe' out where run: "on_candle pe (paper_env_of env u key pa) latest = (pe', Inr out)" "ar_order_created res = po_order_created out"
    using assms(1)
    by (auto simp: feed_candle_def and_pass_def Let_def split: prod.splits sum.splits)
  with on_candle_held [OF _ run(1)] assms(2) show ?thesis by auto
qed

lemma feed_seen:
  assumes "feed_candle env u sr inst key pe snapshot latest pa = (pa', r)"
  shows "sv_last_candle_seen pa' = sv_last_candle_seen pa \<and> (\<exists>pe'. dict_get (sv_engines pa') key = Some pe')"
proof -
  have m: "sv_last_candle_seen (fst (mirror_book env u inst key after x)) = sv_last_candle_seen x
      \<and> sv_engines (fst (mirror_book env u inst key after x)) = sv_engines x" for after x
    by (simp add: mirror_book_def split: option.split sum.split prod.split)
  have j: "sv_last_candle_seen (fst (journal_close env u sr inst key latest snapshot out x)) = sv_last_candle_seen x
      \<and> sv_engines (fst (journal_close env u sr inst key latest snapshot out x)) = sv_engines x" for out x
    by (simp add: journal_close_def note_to_def Let_def split: option.split sum.split)
  have n: "sv_last_candle_seen (note_refused u inst out (note_opened u sr inst key latest out (log_decision u out x))) = sv_last_candle_seen x
      \<and> sv_engines (note_refused u inst out (note_opened u sr inst key latest out (log_decision u out x))) = sv_engines x" for out x
    by (simp add: note_refused_def note_opened_def log_decision_def note_to_def split: option.split)
  have k: "sv_last_candle_seen (keep_engine env u key pe' x) = sv_last_candle_seen x
      \<and> dict_get (sv_engines (keep_engine env u key pe' x)) key = Some pe'" for pe' x
    by (simp add: keep_engine_def Let_def)
  show ?thesis
    using assms unfolding feed_candle_def Let_def and_pass_def
    by (auto split: prod.splits sum.splits) (metis fst_conv m j n k)+
qed


subsection \<open>One triple\<close>

definition newest :: "auto_env \<Rightarrow> strategy \<Rightarrow> instrument_row \<Rightarrow> candle list" where
  "newest env strategy inst = ae_candles env (in_id inst) (sd_timeframe strategy)"

definition already_seen :: "triple \<Rightarrow> candle \<Rightarrow> pass \<Rightarrow> bool" where
  "already_seen key c pa \<longleftrightarrow> map_option instant (dict_get (sv_last_candle_seen pa) key) = Some (instant (c_time c))"

definition marked :: "triple \<Rightarrow> candle \<Rightarrow> pass \<Rightarrow> pass" where
  "marked key c pa = pa\<lparr>sv_last_candle_seen := dict_put key (c_time c) (sv_last_candle_seen pa)\<rparr>"

lemma marked_simps [simp]:
  "untraded x (marked key c pa) = untraded x pa" "untraded (marked key c pa) x = untraded pa x" "with_shared env u (marked key c pa) pe = with_shared env u pa pe"
  "ps_locks (marked key c pa) = ps_locks pa" "ps_managed (marked key c pa) = ps_managed pa"
  by (simp_all add: marked_def with_shared_def untraded_def)

lemma process_triple_eq:
  assumes "engine_for env u sr strategy inst pa = (pa1, Inr pe)"
  shows "process_triple env u sr strategy e inst pa =
     (if newest env strategy inst = [] \<or> already_seen (triple_of env u sr inst) (last (newest env strategy inst)) pa then (pa1, Inr None)
      else trade_candle env u sr strategy inst e (dict_get (sv_last_candle_seen pa) (triple_of env u sr inst))
             (newest env strategy inst) pe (marked (triple_of env u sr inst) (last (newest env strategy inst)) pa1))"
  using engine_for_writes(6) [OF assms]
  unfolding process_triple_def assms and_pass_simps Let_def newest_def already_seen_def marked_def by auto

lemma process_triple_error:
  assumes "engine_for env u sr strategy inst pa = (pa1, Inl e)"
  shows "process_triple env u sr strategy x inst pa = (pa1, Inl e)"
  by (simp add: process_triple_def assms)

lemma trade_candle_fresh:
  assumes "trade_candle env u sr strategy inst e t candles pe pa = (pa', Inr (Some res))"
  shows "\<exists>age minutes. candle_age_seconds (last candles) (sd_timeframe strategy) (ae_now env) = Inr age
    \<and> timeframe_to_minutes (sd_timeframe strategy) = Inr minutes
    \<and> \<not> Fin (of_int (minutes * 60 * MAX_CANDLE_AGE_IN_BARS)) < age"
  using assms by (auto simp: trade_candle_def Let_def split: sum.splits if_splits)

lemma locked_locks:
  assumes "locked account token (feed_candle env u sr inst key pe snapshot c) pa = (pa', r)"
  shows "ps_locks pa' = ps_locks pa @ [Acquired account token, Released account token]"
  using assms feed_locks [of env u sr inst key pe snapshot c "pa\<lparr>ps_locks := ps_locks pa @ [Acquired account token]\<rparr>"]
  by (auto simp: locked_def split: prod.splits)

lemma trade_candle_locks:
  assumes "trade_candle env u sr strategy inst e t candles pe pa = (pa', Inr (Some res))"
  shows "ps_locks pa' = ps_locks pa \<and> ae_lock env (triple_of env u sr inst) = Lock_failed \<and> ae_fail_open env
    \<or> (\<exists>token. ae_lock env (triple_of env u sr inst) = Lock_token token
         \<and> ps_locks pa' = ps_locks pa @ [Acquired (account_key env u) token, Released (account_key env u) token])"
proof (cases rule: trade_candle_cases [OF assms])
  case 1
  then show ?thesis by blast
next
  case (2 pa1 pe1)
  then show ?thesis
    using feed_locks [of env u sr inst "triple_of env u sr inst" pe1 "open_before pe1" "last candles" pa1] by (auto simp: untraded_def)
next
  case (3 pa1 pe1 token)
  then show ?thesis using locked_locks [OF 3(4)] by (auto simp: untraded_def)
qed

lemma trade_candle_created:
  assumes "trade_candle env u sr strategy inst e t candles pe pa = (pa', Inr (Some res))" "ar_order_created res"
  shows "e"
proof (rule ccontr)
  assume no: "\<not> e"
  show False
  proof (cases rule: trade_candle_cases [OF assms(1)])
    case 1
    then show ?thesis by blast
  next
    case (2 pa1 pe1)
    then show ?thesis using feed_result [OF 2(4)] no assms(2) by simp
  next
    case (3 pa1 pe1 token)
    then obtain pa2 where "feed_candle env u sr inst (triple_of env u sr inst) pe1 (open_before pe1) (last candles)
        (pa1\<lparr>ps_locks := ps_locks pa1 @ [Acquired (account_key env u) token]\<rparr>) = (pa2, Inr (Some res))"
      by (auto simp: locked_def split: prod.splits)
    from feed_result [OF this] 3(1,3) no assms(2) show ?thesis by simp
  qed
qed

lemma trade_candle_busy:
  assumes "ae_lock env (triple_of env u sr inst) = Lock_busy"
    and "trade_candle env u sr strategy inst e t candles pe pa = (pa', r)" "ps_managed pa' \<noteq> ps_managed pa"
  shows "r = Inr None \<and> untraded pa pa' \<and> dict_get (sv_last_candle_seen pa') (triple_of env u sr inst) = t"
proof -
  obtain x where "r = Inr None" "pa' = defer_candle (triple_of env u sr inst) t x" "untraded pa x"
    using assms by (auto simp: trade_candle_def Let_def split: sum.splits if_splits)
  then show ?thesis by (simp, simp add: defer_candle_def split: option.split)
qed

lemma locked_seen:
  assumes "locked account token (feed_candle env u sr inst key pe snapshot c) pa = (pa', r)"
  shows "sv_last_candle_seen pa' = sv_last_candle_seen pa \<and> (\<exists>pe'. dict_get (sv_engines pa') key = Some pe')"
proof -
  obtain pa2 where run: "feed_candle env u sr inst key pe snapshot c (pa\<lparr>ps_locks := ps_locks pa @ [Acquired account token]\<rparr>) = (pa2, r)"
    "pa' = pa2\<lparr>ps_locks := ps_locks pa2 @ [Released account token]\<rparr>"
    using assms by (auto simp: locked_def split: prod.splits)
  with feed_seen [OF run(1)] show ?thesis by simp
qed

lemma trade_candle_seen:
  assumes "trade_candle env u sr strategy inst e t candles pe pa = (pa', Inr (Some res))"
  shows "sv_last_candle_seen pa' = sv_last_candle_seen pa \<and> (\<exists>pe'. dict_get (sv_engines pa') (triple_of env u sr inst) = Some pe')"
proof (cases rule: trade_candle_cases [OF assms])
  case 1
  then show ?thesis by blast
next
  case (2 pa1 pe1)
  then show ?thesis using feed_seen [OF 2(4)] by simp
next
  case (3 pa1 pe1 token)
  then show ?thesis using locked_seen [OF 3(4)] by simp
qed

subsection \<open>A concrete pass\<close>

definition loop_env :: auto_env where
  "loop_env =
     \<lparr>ae_now = \<lparr>dt_day = dt_day (c_time demo_bar), dt_us = 290 * 60000000, dt_offset = Some 0\<rparr>,
      ae_str_id = (\<lambda>i. if i = 1 then ''acc'' else if i = 2 then ''s1'' else ''i5''),
      ae_candles = (\<lambda>i tf. demo_bars @ [demo_bar]), ae_redis = [], ae_lock = (\<lambda>k. Lock_token ''t''), ae_fail_open = False,
      ae_strategies = [], ae_history = Inr (\<lambda>s. None), ae_symbols = [], ae_sqr = (\<lambda>v. Inr (v * v)), ae_rt = py_sqrt,
      ae_order_id = (\<lambda>k. 7), ae_row_id = (\<lambda>k. 9), ae_dice = demo_dice, ae_num = six_decimals\<rparr>"

definition loop_user :: user_row where
  "loop_user =
     \<lparr>us_id = 1, us_auto_trading_enabled = True, us_may_auto_trade = True, us_risk_per_trade_pct = 1,
      us_daily_loss_limit_pct = 2, us_max_trades_per_day = 5, us_max_positions = 3\<rparr>"

definition loop_strategy :: strategy_row where
  "loop_strategy =
     \<lparr>sr_id = 2, sr_user = 1, sr_name = ''gap'', sr_version = 1, sr_is_active = True, sr_eligible = True,
      sr_definition = Some gap_strategy\<rparr>"

definition loop_instrument :: instrument_row where
  "loop_instrument = \<lparr>in_id = 5, in_symbol = ''A'', in_active = True\<rparr>"

definition first_pass :: pass where
  "first_pass =
     \<lparr>sv_engines = [], sv_engine_versions = [], sv_opened_at = [], sv_opened_version = [], sv_last_candle_seen = [],
      sv_position_managers = [], sv_risk_windows = [], sv_brokers = [], sv_reported_unmanaged = [],
      ps_managed = [], ps_locks = [], ps_tables = a_journal, ps_halts = [], ps_risk_events = [], ps_notes = []\<rparr>"

lemma loop_run:
  obtains pa' res where "process_triple loop_env loop_user loop_strategy gap_strategy True loop_instrument first_pass = (pa', Inr (Some res))"
    "ar_order_created res"
proof -
  have "case process_triple loop_env loop_user loop_strategy gap_strategy True loop_instrument first_pass of
      (pa', Inr (Some res)) \<Rightarrow> ar_order_created res | _ \<Rightarrow> False"
    by code_simp
  then show thesis using that by (auto split: prod.splits sum.splits option.splits)
qed

lemma loop_engine:
  obtains pa1 pe where "engine_for loop_env loop_user loop_strategy gap_strategy loop_instrument first_pass = (pa1, Inr pe)"
    "open_before (with_shared loop_env loop_user pa1 pe) = None"
proof -
  have "case engine_for loop_env loop_user loop_strategy gap_strategy loop_instrument first_pass of
      (pa1, Inr pe) \<Rightarrow> open_before (with_shared loop_env loop_user pa1 pe) = None | _ \<Rightarrow> False"
    by code_simp
  then show thesis using that by (auto split: prod.splits sum.splits)
qed

section \<open>Properties\<close>






text \<open>C40: A candle is traded once, and not lost to a busy account: after a triple traded its newest candle, the
  next pass over the same candles trades nothing, whatever else happened to the strategy's limits; and
  when the lock was busy nothing is written and the candle is unseen again, as before.\<close>

theorem candle_is_traded_once:
  "(process_triple env u sr strategy e inst pa = (pa', Inr (Some res)) \<longrightarrow>
      (\<exists>pa''. process_triple env u sr strategy e' inst pa' = (pa'', Inr None) \<and> untraded pa' pa''))
   \<and> (process_triple env u sr strategy e inst pa = (pa', r) \<and> ae_lock env (triple_of env u sr inst) = Lock_busy
        \<and> ps_managed pa' \<noteq> ps_managed pa \<longrightarrow>
      r = Inr None \<and> ps_tables pa' = ps_tables pa \<and> ps_locks pa' = ps_locks pa
      \<and> dict_get (sv_last_candle_seen pa') (triple_of env u sr inst) = dict_get (sv_last_candle_seen pa) (triple_of env u sr inst))"
proof (rule conjI; rule impI)
  let ?key = "triple_of env u sr inst"
  let ?c = "last (newest env strategy inst)"
  assume run: "process_triple env u sr strategy e inst pa = (pa', Inr (Some res))"
  obtain pa1 pe where eng: "engine_for env u sr strategy inst pa = (pa1, Inr pe)"
    using run process_triple_error by (cases "engine_for env u sr strategy inst pa") (metis Inl_Inr_False old.sum.exhaust prod.inject)
  have traded: "trade_candle env u sr strategy inst e (dict_get (sv_last_candle_seen pa) ?key) (newest env strategy inst) pe (marked ?key ?c pa1)
      = (pa', Inr (Some res))"
    using run unfolding process_triple_eq [OF eng] by (auto split: if_splits)
  from trade_candle_seen [OF traded] obtain pe' where kept: "dict_get (sv_engines pa') ?key = Some pe'" and seen: "already_seen ?key ?c pa'"
    by (auto simp: already_seen_def marked_def)
  obtain pa2 pe2 where again: "engine_for env u sr strategy inst pa' = (pa2, Inr pe2)" "untraded pa' pa2"
    by (rule engine_for_again [OF kept]) blast
  show "\<exists>pa''. process_triple env u sr strategy e' inst pa' = (pa'', Inr None) \<and> untraded pa' pa''"
    using again seen unfolding process_triple_eq [OF again(1)] by simp
next
  let ?key = "triple_of env u sr inst"
  let ?c = "last (newest env strategy inst)"
  assume busy: "process_triple env u sr strategy e inst pa = (pa', r) \<and> ae_lock env ?key = Lock_busy \<and> ps_managed pa' \<noteq> ps_managed pa"
  obtain pa1 v where eng: "engine_for env u sr strategy inst pa = (pa1, v)" by fastforce
  note w = engine_for_writes [OF eng]
  obtain pe where v: "v = Inr pe" using busy eng w(3) by (cases v) (auto simp: process_triple_error)
  have traded: "trade_candle env u sr strategy inst e (dict_get (sv_last_candle_seen pa) ?key) (newest env strategy inst) pe (marked ?key ?c pa1)
      = (pa', r)"
    using busy w(3) unfolding process_triple_eq [OF eng [unfolded v]] by (auto split: if_splits)
  have "r = Inr None \<and> untraded pa1 pa' \<and> dict_get (sv_last_candle_seen pa') ?key = dict_get (sv_last_candle_seen pa) ?key"
    using trade_candle_busy [OF _ traded] busy w(3) by simp
  then show "r = Inr None \<and> ps_tables pa' = ps_tables pa \<and> ps_locks pa' = ps_locks pa
      \<and> dict_get (sv_last_candle_seen pa') ?key = dict_get (sv_last_candle_seen pa) ?key"
    using w by (simp add: untraded_def)
qed

lemma candle_is_traded_once_witness:
  "\<exists>pa' res pa''. process_triple loop_env loop_user loop_strategy gap_strategy True loop_instrument first_pass = (pa', Inr (Some res))
    \<and> ar_order_created res
    \<and> process_triple loop_env loop_user loop_strategy gap_strategy True loop_instrument pa' = (pa'', Inr None) \<and> untraded pa' pa''"
proof -
  obtain pa' res where run: "process_triple loop_env loop_user loop_strategy gap_strategy True loop_instrument first_pass = (pa', Inr (Some res))"
    "ar_order_created res"
    by (rule loop_run)
  with candle_is_traded_once [where env = loop_env and u = loop_user and sr = loop_strategy and strategy = gap_strategy and e = True
      and inst = loop_instrument and pa = first_pass and pa' = pa' and res = res and e' = True] show ?thesis by blast
qed

subsection \<open>Where the loop falls short\<close>

text \<open>A pass that finds no new candle manages nothing, and says so.\<close>

lemma quiet_triple_manages_nothing:
  assumes "dict_get (sv_engines pa) (triple_of env u sr inst) = Some pe"
    and "already_seen (triple_of env u sr inst) (last (newest env strategy inst)) pa"
  obtains pa1 where "process_triple env u sr strategy e inst pa = (pa1, Inr None)" "ps_managed pa1 = ps_managed pa" "untraded pa pa1"
    "sv_reported_unmanaged pa1 = sv_reported_unmanaged pa"
proof -
  obtain pa1 pe1 where again: "engine_for env u sr strategy inst pa = (pa1, Inr pe1)" "untraded pa pa1"
    by (rule engine_for_again [OF assms(1)]) blast
  with assms(2) show thesis
    using engine_for_writes(3,7) [OF again(1)] by (intro that [of pa1]) (simp_all add: process_triple_eq [OF again(1)])
qed

text \<open>So a position that is managed, on a strategy that is active, is reported as unmanaged on the first pass
  that runs before its next candle.\<close>

lemma managed_position_is_reported:
  assumes "dict_get (sv_engines pa) (triple_of env u sr inst) = Some pe"
    and "already_seen (triple_of env u sr inst) (last (newest env strategy inst)) pa"
    and "us_auto_trading_enabled u" "us_may_auto_trade u" "ae_strategies env = [sr]" "sr_user sr = us_id u" "sr_is_active sr"
      "sr_eligible sr" "sr_definition sr = Some strategy" "in_active inst"
    and "db_positions (ps_tables pa) = [row]" "pr_is_open row" "pr_source row = AUTO_SOURCE_KEY" "pr_user row = us_id u"
      "pr_id row \<notin> set (sv_reported_unmanaged pa)"
  shows "ps_notes (fst (auto_run_once env [u] [inst] pa)) = ps_notes pa @ [(us_id u, Unmanaged_position (pr_id row))]"
proof -
  let ?pa = "pa\<lparr>ps_managed := []\<rparr>"
  have start: "dict_get (sv_engines ?pa) (triple_of env u sr inst) = Some pe"
    "already_seen (triple_of env u sr inst) (last (newest env strategy inst)) ?pa"
    using assms(1,2) by (simp_all add: already_seen_def)
  obtain pa1 where "process_triple env u sr strategy (dict_get (ps_halts pa) (account_key env u) = None) inst ?pa = (pa1, Inr None)"
      "ps_managed pa1 = []" "untraded ?pa pa1" "sv_reported_unmanaged pa1 = sv_reported_unmanaged pa"
    by (rule quiet_triple_manages_nothing [OF start]) auto
  with assms(3-15) show ?thesis
    by (simp add: auto_run_once_def process_user_def report_unmanaged_def untraded_def)
qed

text \<open>A fresh engine that a halt sends away keeps its history without the newest bar, and will not see that bar
  again: the next bar is analysed over a series with a hole.\<close>

lemma halted_pass_skips_a_bar:
  assumes "dict_get (sv_engines pa) (triple_of env u sr inst) = None"
    and "process_triple env u sr strategy False inst pa = (pa', Inr None)" "newest env strategy inst \<noteq> []"
    and "\<not> already_seen (triple_of env u sr inst) (last (newest env strategy inst)) pa"
    and "engine_for env u sr strategy inst pa = (pa1, Inr pe)" "open_before (with_shared env u pa1 pe) = None"
    and "candle_age_seconds (last (newest env strategy inst)) (sd_timeframe strategy) (ae_now env) = Inr age"
    and "timeframe_to_minutes (sd_timeframe strategy) = Inr minutes" "age \<le> Fin (of_int (minutes * 60 * MAX_CANDLE_AGE_IN_BARS))"
  shows "\<exists>pe'. dict_get (sv_engines pa') (triple_of env u sr inst) = Some pe' \<and> pe_candles pe' = butlast (newest env strategy inst)
    \<and> already_seen (triple_of env u sr inst) (last (newest env strategy inst)) pa'"
proof -
  let ?key = "triple_of env u sr inst"
  have fresh: "pe_candles pe = []"
    using assms(1,5) by (auto simp: engine_for_def Let_def new_auto_engine_def split: sum.splits)
  let ?pa = "marked ?key (last (newest env strategy inst)) pa1"
  have held: "open_before (with_shared env u (?pa\<lparr>sv_engines := e\<rparr>) (seeded cs pe)) = None" for e cs
    using assms(6) by (auto simp: seeded_def with_shared_def marked_def Let_def open_before_def split: option.splits)
  have young: "\<not> Fin (of_int (minutes * 60 * MAX_CANDLE_AGE_IN_BARS)) < age" using assms(9) flt_not_fle by blast
  have "trade_candle env u sr strategy inst False t (newest env strategy inst) pe ?pa
      = (?pa\<lparr>sv_engines := dict_put ?key (seeded (newest env strategy inst) pe) (sv_engines ?pa)\<rparr>, Inr None)" for t
    unfolding trade_candle_def Let_def assms(7,8) sum.case prod.case if_not_P [OF young] held by simp
  then have "pa' = ?pa\<lparr>sv_engines := dict_put ?key (seeded (newest env strategy inst) pe) (sv_engines ?pa)\<rparr>"
    using assms(2-4) unfolding process_triple_eq [OF assms(5)] by simp
  then show ?thesis by (simp add: seeded_def fresh already_seen_def marked_def)
qed

end
