(* ===== verification/Spec2Isabelle.thy ===== *)
theory Spec2Isabelle
  imports Metrics Replay Options AiValidation AutoTrade
begin

text \<open>
  A verification development for the trading system under \<open>src/backend/app\<close>: market data becomes
  candles, candles become detections (market structure, zones, liquidity), a strategy document
  turns detections into a signal, the risk engine judges the trade the signal proposes, an order
  state machine takes it to a broker, and the result is booked in positions, risk counters and a
  journal. Paths below are relative to \<open>src/backend/app\<close>.

  \<^bold>\<open>Foundations.\<close> \<open>PyFloat\<close> is Python's \<open>float\<close>: a rational that binary64 holds, an infinity or
  a NaN, every operation rounding to nearest even (\<open>rnd64\<close>); zero has no sign. \<open>FloatBounds\<close> says
  what rounding keeps, \<open>PySqrt\<close> is \<open>math.sqrt\<close>. \<open>Prelude\<close> has exceptions as the left of a sum and
  dictionaries as association lists in insertion order, with the locale \<open>dictionary\<close> stating
  their contract and \<open>py_dict\<close> interpreting it. \<open>PyText\<close> and \<open>Calendar\<close> are the methods of
  \<open>str\<close> and \<open>datetime\<close> the program uses, \<open>Domain\<close> the shared enumerations.

  \<^bold>\<open>Market data.\<close> \<open>Market\<close>: timeframes, sessions and resampling (\<open>market/timeframes.py\<close>,
  \<open>sessions.py\<close>, \<open>aggregation.py\<close>). \<open>CandleWorker\<close>: ticks, the worker that builds candles and the
  candle table (\<open>workers/candle_worker.py\<close>, \<open>market/feed.py\<close>, \<open>market/repository.py\<close>). Shown:
  buckets contain their instant, resampling is grouping, live bars are batch bars, the closed and
  forming candles are the bars of the ticks.

  \<^bold>\<open>Detection.\<close> \<open>Candles\<close>, \<open>Swings\<close>, \<open>Structure\<close>, \<open>Zones\<close>, \<open>Liquidity\<close>, \<open>SmcEngine\<close> (\<open>smc/\<close>) and
  \<open>Ict\<close> (\<open>ict/\<close>), one theory per group of detectors, in the order the engine runs them. Shown:
  each detector against a declarative definition of what it looks for, early exits against full
  scans, and that a longer series loses no detection of a shorter one.

  \<^bold>\<open>Strategy.\<close> \<open>StrategyDsl\<close> and \<open>StrategyEngine\<close> (\<open>strategy/\<close>): validators, conditions, bracket
  and score. Shown: a signal is a bracket on the right side of its entry, a condition the
  validators accept can be satisfied. \<open>Backtest\<close> and \<open>Metrics\<close> (\<open>backtest/\<close>): the pass over a
  history equals a declarative first-touch simulation and never looks ahead. \<open>Replay\<close>
  (\<open>replay/\<close>): a session's balance is its closed trades, stepping ends and never looks ahead.

  \<^bold>\<open>Trading.\<close> \<open>OrderManager\<close>, \<open>PositionManager\<close>, \<open>Execution\<close>, \<open>ProtectiveStops\<close>,
  \<open>Reconciliation\<close> (\<open>trading/\<close>), \<open>Broker\<close> and \<open>MockBroker\<close> (\<open>brokers/base.py\<close>, \<open>mock.py\<close>). The
  locale \<open>broker_contract\<close> states what \<open>Execution\<close> may rely on; the in-memory broker interprets
  it. Shown: the invariant of the order book, no submission without approval, conservation of
  equity by fills, resting stops, and that after a submission the books of the program and of
  the broker agree. \<open>Paper\<close> (\<open>paper/engine.py\<close>) composes detectors, strategy, risk, broker and
  books into the handling of one candle.

  \<^bold>\<open>Risk.\<close> \<open>RiskLimits\<close>, \<open>RiskEngine\<close>, \<open>PortfolioRisk\<close> (\<open>risk/\<close>). Shown: approval is the
  conjunction of every gate, a sized position stays within its budget.

  \<^bold>\<open>Shared state.\<close> \<open>TradeLock\<close> (\<open>core/redis.py\<close>, \<open>core/rate_limit.py\<close>): the lock of an account and
  the rate limiter over the commands of Redis, whose documented laws are the locale \<open>redis_keys\<close>,
  interpreted on a store of expiring keys. \<open>Persistence\<close> (\<open>trading/persistence.py\<close>): the journal in
  Postgres as lists of rows, its writers and its readers. Shown: what a restarted engine reads
  back is what was last written.

  \<^bold>\<open>The two ways to trade.\<close> \<open>ManualOrders\<close> (\<open>api/orders.py\<close>): the stack of a user, its rebuilding
  from the journal, the whole of \<open>POST /orders\<close> and its cancellation, over any broker. \<open>AutoTrade\<close>
  (\<open>workers/auto_trade_worker.py\<close>): a pass of the unattended loop over every user, strategy and
  instrument, with the paper engines it keeps. Shown: an order exists only after an approval that was
  logged, a halted account only reduces by hand and only exits unattended, the journal stays the
  image of the book, an unattended trade is fresh, locked and done once. The lemmas at the end of both
  show where the code does less than it says.

  \<^bold>\<open>Options and AI.\<close> \<open>Options\<close> (\<open>options/payoff.py\<close>, \<open>strategies.py\<close>, \<open>liquidity_filter.py\<close>) and
  \<open>AiValidation\<close> (\<open>ai/validation.py\<close>).

  \<^bold>\<open>Conventions.\<close> A class is a record, its methods functions from the record to the record; an
  exception is \<open>Inl\<close>; a handler that can fail half way returns the state it leaves and the
  outcome. Clocks, fresh ids and random draws are arguments. So are the parts that are not under
  \<open>src\<close>: the C library's power, text-to-float and float-to-text, the conversion of a float to a
  \<open>Numeric\<close> column, the commands of Redis. Strings are ASCII. Recursion is structural or has a
  measure; there is no fuel: loops over time are bounded by their deadline (\<open>acquire_loop\<close>) or by the
  number of steps asked for (\<open>advance_loop\<close>).

  \<^bold>\<open>Not modelled.\<close> HTTP and websocket plumbing and the handlers other than those of orders, the other
  workers and the endless loops around a pass, portfolio snapshots, authentication (\<open>jose\<close>, \<open>passlib\<close>), the adapters
  to real brokers and data providers (HTTP calls), the language model's client, configuration,
  logging and metrics, schema migrations: glue around services whose code is not here. The
  option Greeks rest on \<open>erf\<close>, \<open>exp\<close> and \<open>log\<close> of the C library.
\<close>

end
